theory Spec2Isabelle
  imports Main
begin

section \<open>JavaScript values\<close>

text \<open>
  The proxy handles values that come out of \<^verbatim>\<open>JSON.parse\<close> or out of the optional native
  library, and passes them to \<^verbatim>\<open>res.json\<close>. They are modelled as a datatype of plain data:
  the JSON values, with \<^verbatim>\<open>undefined\<close> added; no function is stored in data.

  A string is the sequence of bytes of its UTF-8 encoding (so only well-formed strings are
  covered: a string with a lone surrogate has no encoding).

  The program never computes with a number: it tests it, prints it and passes it on. A number
  is therefore given by its rendering, the string that \<^verbatim>\<open>Number.prototype.toString\<close> yields
  for it (\<^verbatim>\<open>21\<close>, \<^verbatim>\<open>-1\<close>, \<^verbatim>\<open>8.54\<close>, \<^verbatim>\<open>1e+21\<close>, \<^verbatim>\<open>NaN\<close>), which determines the number up to the
  sign of zero.

  An object is an association list; the first binding of a key is the one a property read
  sees.
\<close>

type_synonym jsnum = string

datatype jsval =
    JUndefined
  | JNull
  | JBool bool
  | JNum jsnum
  | JStr string
  | JArr "jsval list"
  | JObj "(string \<times> jsval) list"

text \<open>\<^verbatim>\<open>v == null\<close>: the values on which a property read raises a TypeError and on which
  \<^verbatim>\<open>?.\<close> and \<^verbatim>\<open>??\<close> short-circuit.\<close>

fun nullish :: "jsval \<Rightarrow> bool" where
  "nullish JUndefined = True"
| "nullish JNull = True"
| "nullish _ = False"

text \<open>ToBoolean: what \<^verbatim>\<open>||\<close>, \<^verbatim>\<open>!\<close> and \<^verbatim>\<open>if\<close> test. The falsy numbers are zero (of either
  sign, both rendered \<^verbatim>\<open>0\<close>) and \<^verbatim>\<open>NaN\<close>.\<close>

fun truthy :: "jsval \<Rightarrow> bool" where
  "truthy JUndefined = False"
| "truthy JNull = False"
| "truthy (JBool b) = b"
| "truthy (JNum n) = (n \<noteq> ''0'' \<and> n \<noteq> ''NaN'')"
| "truthy (JStr s) = (s \<noteq> [])"
| "truthy (JArr _) = True"
| "truthy (JObj _) = True"

text \<open>\<^verbatim>\<open>a || b\<close> and \<^verbatim>\<open>a ?? b\<close> on values whose evaluation cannot raise.\<close>

definition js_or :: "jsval \<Rightarrow> jsval \<Rightarrow> jsval" where
  "js_or a b = (if truthy a then a else b)"

definition js_coalesce :: "jsval \<Rightarrow> jsval \<Rightarrow> jsval" where
  "js_coalesce a b = (if nullish a then b else a)"

subsection \<open>Natural numbers as JavaScript numbers\<close>

definition digit_char :: "nat \<Rightarrow> char" where
  "digit_char n = ''0123456789'' ! n"

text \<open>The rendering of a natural number below \<open>10\<^sup>2\<^sup>1\<close> (an array length, an HTTP status).\<close>

fun show_nat :: "nat \<Rightarrow> jsnum" where
  "show_nat n = (if n < 10 then [digit_char n] else show_nat (n div 10) @ [digit_char (n mod 10)])"

declare show_nat.simps [simp del]

text \<open>The \<^verbatim>\<open>length\<close> of a string counts UTF-16 code units: one for each code point, that is
  for each byte that is not a continuation byte, and one more for each code point beyond the
  basic plane, that is for each lead byte of a four-byte sequence.\<close>

definition utf16_length :: "string \<Rightarrow> nat" where
  "utf16_length s =
     length (filter (\<lambda>c. \<not> (128 \<le> (of_char c :: nat) \<and> (of_char c :: nat) < 192)) s)
     + length (filter (\<lambda>c. 240 \<le> (of_char c :: nat)) s)"

subsection \<open>Property reads\<close>

text \<open>
  \<^verbatim>\<open>v.k\<close> for a \<open>v\<close> that is not null or undefined (the caller checks that first, as the
  engine does). Arrays and strings have a \<^verbatim>\<open>length\<close>; no other inherited property is read
  by the program.
\<close>

fun field :: "jsval \<Rightarrow> string \<Rightarrow> jsval" where
  "field (JObj kvs) k = (case map_of kvs k of Some v \<Rightarrow> v | None \<Rightarrow> JUndefined)"
| "field (JArr xs) k = (if k = ''length'' then JNum (show_nat (length xs)) else JUndefined)"
| "field (JStr s) k = (if k = ''length'' then JNum (show_nat (utf16_length s)) else JUndefined)"
| "field _ k = JUndefined"

text \<open>\<^verbatim>\<open>v?.k\<close>\<close>

definition optp :: "jsval \<Rightarrow> string \<Rightarrow> jsval" where
  "optp v k = (if nullish v then JUndefined else field v k)"

text \<open>
  Exceptions. \<open>Exn name message\<close> is an \<^verbatim>\<open>Error\<close> object that the program, \<^verbatim>\<open>fetch\<close> or the
  native library raised. \<open>TypeError\<close> is the error the engine raises on a read of null or
  undefined, on a call of what is no function and on a value that has no string conversion;
  its message is the engine's own and is not modelled.
\<close>

datatype exn = Exn string string | TypeError

text \<open>\<^verbatim>\<open>v.k\<close> in full: a read on null or undefined raises.\<close>

definition getp :: "jsval \<Rightarrow> string \<Rightarrow> exn + jsval" where
  "getp v k = (if nullish v then Inl TypeError else Inr (field v k))"

subsection \<open>Value to string\<close>

fun join_comma :: "string list \<Rightarrow> string" where
  "join_comma [] = []"
| "join_comma [s] = s"
| "join_comma (s # t # ss) = s @ '','' @ join_comma (t # ss)"

text \<open>
  \<^verbatim>\<open>String(v)\<close>, which a template literal applies to each \<^verbatim>\<open>${...}\<close>. A plain object is
  converted by the first callable of its \<^verbatim>\<open>toString\<close> and \<^verbatim>\<open>valueOf\<close> that returns a
  primitive. Without an own \<^verbatim>\<open>toString\<close> property that is the inherited
  \<^verbatim>\<open>Object.prototype.toString\<close>. An own \<^verbatim>\<open>toString\<close> property holds data, which is not
  callable, and hides the inherited one; \<^verbatim>\<open>valueOf\<close> is then either own data too or the
  inherited one, which returns the object itself: the conversion raises a TypeError. An array
  is converted by \<^verbatim>\<open>join\<close>: null and undefined elements print as the empty string, and an
  element that has no conversion raises.
\<close>

fun to_string :: "jsval \<Rightarrow> exn + string"
  and elems_string :: "jsval list \<Rightarrow> exn + string list" where
  "to_string JUndefined = Inr ''undefined''"
| "to_string JNull = Inr ''null''"
| "to_string (JBool b) = Inr (if b then ''true'' else ''false'')"
| "to_string (JNum n) = Inr n"
| "to_string (JStr s) = Inr s"
| "to_string (JArr xs) =
     (case elems_string xs of Inl e \<Rightarrow> Inl e | Inr ss \<Rightarrow> Inr (join_comma ss))"
| "to_string (JObj kvs) =
     (case map_of kvs ''toString'' of None \<Rightarrow> Inr ''[object Object]'' | Some _ \<Rightarrow> Inl TypeError)"
| "elems_string [] = Inr []"
| "elems_string (x # xs) =
     (case (if nullish x then Inr [] else to_string x) of
        Inl e \<Rightarrow> Inl e
      | Inr s \<Rightarrow> (case elems_string xs of Inl e \<Rightarrow> Inl e | Inr ss \<Rightarrow> Inr (s # ss)))"

text \<open>Running a function that may raise over a list, as \<^verbatim>\<open>Array.prototype.map\<close> does: the
  first exception ends the loop.\<close>

fun map_exn :: "('a \<Rightarrow> exn + 'b) \<Rightarrow> 'a list \<Rightarrow> exn + 'b list" where
  "map_exn f [] = Inr []"
| "map_exn f (x # xs) =
     (case f x of
        Inl e \<Rightarrow> Inl e
      | Inr y \<Rightarrow> (case map_exn f xs of Inl e \<Rightarrow> Inl e | Inr ys \<Rightarrow> Inr (y # ys)))"

subsection \<open>String helpers of the handlers\<close>

text \<open>
  \<^verbatim>\<open>String.prototype.trim\<close> strips white space and line terminators from both ends. These are
  the code points U+0009 to U+000D, U+0020, U+00A0, U+1680, U+2000 to U+200A, U+2028, U+2029,
  U+202F, U+205F, U+3000 and U+FEFF; \<open>ws_seqs\<close> lists their UTF-8 encodings in that order.
  No encoding in the list is a prefix or a suffix of another, and in a well-formed string a
  match of one of them at either end is that code point.
\<close>

definition ws_seqs :: "string list" where
  "ws_seqs =
     [[CHR 0x09], [CHR 0x0A], [CHR 0x0B], [CHR 0x0C], [CHR 0x0D], [CHR 0x20],
      [CHR 0xC2, CHR 0xA0],
      [CHR 0xE1, CHR 0x9A, CHR 0x80],
      [CHR 0xE2, CHR 0x80, CHR 0x80], [CHR 0xE2, CHR 0x80, CHR 0x81],
      [CHR 0xE2, CHR 0x80, CHR 0x82], [CHR 0xE2, CHR 0x80, CHR 0x83],
      [CHR 0xE2, CHR 0x80, CHR 0x84], [CHR 0xE2, CHR 0x80, CHR 0x85],
      [CHR 0xE2, CHR 0x80, CHR 0x86], [CHR 0xE2, CHR 0x80, CHR 0x87],
      [CHR 0xE2, CHR 0x80, CHR 0x88], [CHR 0xE2, CHR 0x80, CHR 0x89],
      [CHR 0xE2, CHR 0x80, CHR 0x8A],
      [CHR 0xE2, CHR 0x80, CHR 0xA8], [CHR 0xE2, CHR 0x80, CHR 0xA9],
      [CHR 0xE2, CHR 0x80, CHR 0xAF],
      [CHR 0xE2, CHR 0x81, CHR 0x9F],
      [CHR 0xE3, CHR 0x80, CHR 0x80],
      [CHR 0xEF, CHR 0xBB, CHR 0xBF]]"

text \<open>The code points themselves and the UTF-8 encoding of a code point, as byte values; the
  list above is checked against them below.\<close>

definition ws_points :: "nat list" where
  "ws_points =
     [0x09, 0x0A, 0x0B, 0x0C, 0x0D, 0x20, 0xA0, 0x1680,
      0x2000, 0x2001, 0x2002, 0x2003, 0x2004, 0x2005, 0x2006, 0x2007, 0x2008, 0x2009, 0x200A,
      0x2028, 0x2029, 0x202F, 0x205F, 0x3000, 0xFEFF]"

definition utf8 :: "nat \<Rightarrow> nat list" where
  "utf8 n =
     (if n < 0x80 then [n]
      else if n < 0x800 then [0xC0 + n div 64, 0x80 + n mod 64]
      else if n < 0x10000 then [0xE0 + n div 4096, 0x80 + n div 64 mod 64, 0x80 + n mod 64]
      else [0xF0 + n div 262144, 0x80 + n div 4096 mod 64, 0x80 + n div 64 mod 64,
            0x80 + n mod 64])"

text \<open>Removing, from the front, every leading sequence of the list.\<close>

function strip :: "string list \<Rightarrow> string \<Rightarrow> string" where
  "strip ws s =
     (case find (\<lambda>w. w \<noteq> [] \<and> take (length w) s = w) ws of
        None \<Rightarrow> s
      | Some w \<Rightarrow> strip ws (drop (length w) s))"
  by pat_completeness auto
termination
proof (relation "measure (\<lambda>(ws, s). length s)")
  show "wf (measure (\<lambda>(ws, s). length s))" by simp
next
  fix ws :: "string list" and s w :: string
  assume "find (\<lambda>w. w \<noteq> [] \<and> take (length w) s = w) ws = Some w"
  then have w: "w \<noteq> []" and t: "take (length w) s = w"
    by (auto simp: find_Some_iff)
  have "length (take (length w) s) \<le> length s"
    by simp
  with w t have "length s - length w < length s"
    by (cases w) simp_all
  then show "((ws, drop (length w) s), (ws, s)) \<in> measure (\<lambda>(ws, s). length s)"
    by simp
qed

declare strip.simps [simp del]

definition trim :: "string \<Rightarrow> string" where
  "trim s = rev (strip (map rev ws_seqs) (rev (strip ws_seqs s)))"

definition hex_digit :: "nat \<Rightarrow> char" where
  "hex_digit n = ''0123456789ABCDEF'' ! n"

definition unreserved :: "char \<Rightarrow> bool" where
  "unreserved c =
     (let n = (of_char c :: nat) in
        (65 \<le> n \<and> n \<le> 90) \<or> (97 \<le> n \<and> n \<le> 122) \<or> (48 \<le> n \<and> n \<le> 57) \<or>
        c \<in> set ''-_.!~*'' \<or> n = 39 \<or> n = 40 \<or> n = 41)"

text \<open>\<^verbatim>\<open>encodeURIComponent\<close> on the UTF-8 bytes of the string: every byte that is not
  unreserved becomes \<^verbatim>\<open>%XX\<close>.\<close>

definition encodeURIComponent :: "string \<Rightarrow> string" where
  "encodeURIComponent s =
     concat (map (\<lambda>c. if unreserved c then [c]
                       else [CHR ''%'', hex_digit (of_char c div 16), hex_digit (of_char c mod 16)]) s)"

definition is_array :: "jsval \<Rightarrow> bool" where
  "is_array v = (case v of JArr _ \<Rightarrow> True | _ \<Rightarrow> False)"

text \<open>\<^verbatim>\<open>a || b || ... || d\<close> on values already read.\<close>

fun or_chain :: "jsval list \<Rightarrow> jsval \<Rightarrow> jsval" where
  "or_chain [] d = d"
| "or_chain (a # as) d = (if truthy a then a else or_chain as d)"

section \<open>The normalizers\<close>

text \<open>
  \<^verbatim>\<open>mapGogo\<close> and \<^verbatim>\<open>mapJikan\<close> (the Jikan variant of the server): the arrow function reads
  \<^verbatim>\<open>x.title\<close> with a plain dot, so an item that is null or undefined raises. The default
  parameter \<^verbatim>\<open>items = []\<close> applies to \<^verbatim>\<open>undefined\<close> only; any other value that is not an
  array has no \<^verbatim>\<open>map\<close> method. In \<^verbatim>\<open>mapJikan\<close> the template literal converts \<^verbatim>\<open>x.mal_id\<close> to
  a string, which raises when the value has no conversion.
\<close>

definition mapGogo_item :: "jsval \<Rightarrow> exn + jsval" where
  "mapGogo_item x =
     (if nullish x then Inl TypeError
      else Inr (JObj
        [(''title'', or_chain [field x ''title'', field x ''name''] (JStr ''Unknown'')),
         (''image_url'',
            or_chain [field x ''image'', field x ''poster'', field x ''image_url''] (JStr [])),
         (''anime_id'',
            or_chain [field x ''id'', field x ''slug'', field x ''animeId'', field x ''anime_id'']
              (JStr [])),
         (''synopsis'', or_chain [field x ''description'', field x ''synopsis''] (JStr []))]))"

definition map_items :: "(jsval \<Rightarrow> exn + jsval) \<Rightarrow> jsval \<Rightarrow> exn + jsval" where
  "map_items f items =
     (case items of
        JUndefined \<Rightarrow> Inr (JArr [])
      | JArr xs \<Rightarrow> (case map_exn f xs of Inl e \<Rightarrow> Inl e | Inr ys \<Rightarrow> Inr (JArr ys))
      | _ \<Rightarrow> Inl TypeError)"

definition mapGogo :: "jsval \<Rightarrow> exn + jsval" where
  "mapGogo items = map_items mapGogo_item items"

definition mapJikan_item :: "jsval \<Rightarrow> exn + jsval" where
  "mapJikan_item x =
     (if nullish x then Inl TypeError
      else
        (case to_string (field x ''mal_id'') of
           Inl e \<Rightarrow> Inl e
         | Inr mal_id \<Rightarrow>
             Inr (JObj
               [(''title'', or_chain [field x ''title''] (JStr ''Unknown'')),
                (''image_url'',
                   or_chain [optp (optp (field x ''images'') ''jpg'') ''image_url'',
                             optp (optp (field x ''images'') ''webp'') ''image_url''] (JStr [])),
                (''anime_id'', JStr (''mal-'' @ mal_id)),
                (''synopsis'', or_chain [field x ''synopsis''] (JStr []))])))"

definition mapJikan :: "jsval \<Rightarrow> exn + jsval" where
  "mapJikan items = map_items mapJikan_item items"

text \<open>\<^verbatim>\<open>mapItem\<close> (the variant with the public fallback): every read is \<^verbatim>\<open>a?.k\<close>.\<close>

definition mapItem :: "jsval \<Rightarrow> jsval" where
  "mapItem a = JObj
     [(''id'', or_chain [optp a ''id'', optp a ''animeId'', optp a ''slug'', optp a ''url'',
                         optp a ''alias''] (JStr [])),
      (''title'', or_chain [optp a ''title'', optp a ''name'', optp a ''animeTitle''] (JStr [])),
      (''cover'', or_chain [optp a ''cover'', optp a ''image_url'', optp a ''image'', optp a ''img'',
                            optp a ''poster'', optp a ''pic''] (JStr [])),
      (''tags'', or_chain [optp a ''genres'', optp a ''genre''] (JArr []))]"

section \<open>The response cache\<close>

text \<open>
  Modelled from the spec: the class \<^verbatim>\<open>LRU\<close> of the package \<^verbatim>\<open>lru-cache\<close>, which the server
  only imports. The spec describes it as a bounded-capacity, time-to-live map: on insert at
  capacity the least-recently-used entry is evicted; on read an entry past its TTL is treated
  as absent and removed, regardless of recency. The entries are kept most recently used first,
  each with the time at which it expires. \<^verbatim>\<open>has\<close> does not touch the recency order.
\<close>

record lru =
  lmax :: nat
  lttl :: nat
  entries :: "(string \<times> jsval \<times> nat) list"

definition lru_new :: "nat \<Rightarrow> nat \<Rightarrow> lru" where
  "lru_new m t = \<lparr>lmax = m, lttl = t, entries = []\<rparr>"

definition lru_find :: "lru \<Rightarrow> string \<Rightarrow> (string \<times> jsval \<times> nat) option" where
  "lru_find c k = find (\<lambda>e. fst e = k) (entries c)"

definition lru_has :: "lru \<Rightarrow> nat \<Rightarrow> string \<Rightarrow> bool" where
  "lru_has c t k = (case lru_find c k of None \<Rightarrow> False | Some (_, _, ex) \<Rightarrow> t \<le> ex)"

definition lru_get :: "lru \<Rightarrow> nat \<Rightarrow> string \<Rightarrow> jsval \<times> lru" where
  "lru_get c t k =
     (case lru_find c k of
        None \<Rightarrow> (JUndefined, c)
      | Some (_, v, ex) \<Rightarrow>
          (let others = filter (\<lambda>e. fst e \<noteq> k) (entries c) in
           if ex < t then (JUndefined, c\<lparr>entries := others\<rparr>)
           else (v, c\<lparr>entries := (k, v, ex) # others\<rparr>)))"

text \<open>\<^verbatim>\<open>set(key, value, {ttl})\<close>; without the option the cache's own TTL is used.\<close>

definition lru_set :: "lru \<Rightarrow> nat \<Rightarrow> string \<Rightarrow> jsval \<Rightarrow> nat option \<Rightarrow> lru" where
  "lru_set c t k v ttl =
     (let others = filter (\<lambda>e. fst e \<noteq> k) (entries c);
          kept = (if length others < lmax c then others else butlast others);
          life = (case ttl of None \<Rightarrow> lttl c | Some n \<Rightarrow> n)
      in c\<lparr>entries := (k, v, t + life) # kept\<rparr>)"

definition lru_keys :: "lru \<Rightarrow> string list" where
  "lru_keys c = map fst (entries c)"

section \<open>The world outside the process\<close>

text \<open>
  A method of the native library either raises, returns a plain value, or returns a promise
  that fulfils or rejects. The difference matters: \<^verbatim>\<open>??\<close> is applied before \<^verbatim>\<open>await\<close>, and a
  promise is never null. A member of the library object is a plain value or a function.
\<close>

datatype outcome = Throws exn | Returns jsval | Resolves jsval | Rejects exn

datatype member = Val jsval | Fn "jsval list \<Rightarrow> outcome"

type_synonym lib = "string \<Rightarrow> member"

datatype pending = Plain jsval | Promise "exn + jsval"

text \<open>What \<^verbatim>\<open>fetch\<close> gives for a URL: a network failure, or a response with \<^verbatim>\<open>ok\<close>,
  \<^verbatim>\<open>status\<close> and the result of \<^verbatim>\<open>json()\<close>.\<close>

datatype http_result = NetFail exn | Response bool nat "exn + jsval"

text \<open>Every outbound call is recorded, in order.\<close>

datatype call = Import string | Native string "jsval list" | Fetch string

datatype level = LInfo | LWarn | LError

text \<open>A field of a log record: plain data, or \<^verbatim>\<open>String(e)\<close> of the error that was caught. The
  text of that string is left to the engine and the library; the record keeps the error.\<close>

datatype logval = Data jsval | StringOf exn

record response =
  status :: nat
  body :: jsval

definition member_truthy :: "member \<Rightarrow> bool" where
  "member_truthy m = (case m of Val v \<Rightarrow> truthy v | Fn _ \<Rightarrow> True)"

text \<open>\<^verbatim>\<open>g.name?.(args)\<close>, not yet awaited.\<close>

definition opt_call :: "lib \<Rightarrow> string \<Rightarrow> jsval list \<Rightarrow> call list \<Rightarrow> (exn + pending) \<times> call list" where
  "opt_call g name args cs =
     (case g name of
        Val v \<Rightarrow> if nullish v then (Inr (Plain JUndefined), cs) else (Inl TypeError, cs)
      | Fn f \<Rightarrow>
          (case f args of
             Throws e \<Rightarrow> (Inl e, cs @ [Native name args])
           | Returns v \<Rightarrow> (Inr (Plain v), cs @ [Native name args])
           | Resolves v \<Rightarrow> (Inr (Promise (Inr v)), cs @ [Native name args])
           | Rejects e \<Rightarrow> (Inr (Promise (Inl e)), cs @ [Native name args])))"

definition await :: "pending \<Rightarrow> exn + jsval" where
  "await p = (case p of Plain v \<Rightarrow> Inr v | Promise r \<Rightarrow> r)"

text \<open>\<^verbatim>\<open>await g.name(args)\<close>\<close>

definition call_method :: "lib \<Rightarrow> string \<Rightarrow> jsval list \<Rightarrow> call list \<Rightarrow> (exn + jsval) \<times> call list" where
  "call_method g name args cs =
     (case g name of
        Val v \<Rightarrow> (Inl TypeError, cs)
      | Fn f \<Rightarrow>
          (case f args of
             Throws e \<Rightarrow> (Inl e, cs @ [Native name args])
           | Returns v \<Rightarrow> (Inr v, cs @ [Native name args])
           | Resolves v \<Rightarrow> (Inr v, cs @ [Native name args])
           | Rejects e \<Rightarrow> (Inl e, cs @ [Native name args])))"

text \<open>\<^verbatim>\<open>await (g.a?.(args) ?? g.b?.(args))\<close>\<close>

definition alias_call :: "lib \<Rightarrow> string \<Rightarrow> string \<Rightarrow> jsval list \<Rightarrow> call list \<Rightarrow> (exn + jsval) \<times> call list" where
  "alias_call g a b args cs =
     (case opt_call g a args cs of
        (Inl e, cs1) \<Rightarrow> (Inl e, cs1)
      | (Inr (Promise r), cs1) \<Rightarrow> (r, cs1)
      | (Inr (Plain v), cs1) \<Rightarrow>
          if nullish v then
            (case opt_call g b args cs1 of
               (Inl e, cs2) \<Rightarrow> (Inl e, cs2)
             | (Inr p, cs2) \<Rightarrow> (await p, cs2))
          else (Inr v, cs1))"

section \<open>The server with the Jikan fallback\<close>

text \<open>
  The state of the process: the cache, what was logged, and the outbound calls made so far.
  The environment of a request: the native library as \<^verbatim>\<open>require\<close> left it when the module was
  loaded (\<open>None\<close> when it raised), what \<^verbatim>\<open>fetch\<close> answers, and the clock.
\<close>

record server =
  cache :: lru
  logs :: "(level \<times> (string \<times> logval) list) list"
  calls :: "call list"

record env =
  gogo :: "lib option"
  net :: "string \<Rightarrow> http_result"
  clock :: nat

text \<open>\<^verbatim>\<open>new LRU({ max: 300, ttl: 1000 * 60 * 5 })\<close>\<close>

definition cache_init :: lru where
  "cache_init = lru_new 300 (1000 * 60 * 5)"

definition server_init :: server where
  "server_init = \<lparr>cache = cache_init, logs = [], calls = []\<rparr>"

definition ok :: "jsval \<Rightarrow> response" where
  "ok d = \<lparr>status = 200, body = d\<rparr>"

definition err :: "nat \<Rightarrow> string \<Rightarrow> response" where
  "err code msg = \<lparr>status = code, body = JObj [(''error'', JStr msg)]\<rparr>"

definition jikan :: "env \<Rightarrow> string \<Rightarrow> server \<Rightarrow> (exn + jsval) \<times> server" where
  "jikan E path s =
     (let url = ''https://api.jikan.moe/v4'' @ path;
          key = ''jk:'' @ url
      in if lru_has (cache s) (clock E) key then
           (case lru_get (cache s) (clock E) key of (v, c) \<Rightarrow> (Inr v, s\<lparr>cache := c\<rparr>))
         else
           (let s1 = s\<lparr>calls := calls s @ [Fetch url]\<rparr> in
            case net E url of
              NetFail e \<Rightarrow> (Inl e, s1)
            | Response r_ok r_status r_json \<Rightarrow>
                if \<not> r_ok then (Inl (Exn ''Error'' (''Jikan '' @ show_nat r_status)), s1)
                else (case r_json of
                        Inl e \<Rightarrow> (Inl e, s1)
                      | Inr j \<Rightarrow>
                          (Inr j, s1\<lparr>cache := lru_set (cache s1) (clock E) key j
                                                   (Some (1000 * 60 * 3))\<rparr>))))"

text \<open>\<^verbatim>\<open>tryGogoRecent\<close> and \<^verbatim>\<open>tryGogoTop\<close> differ in the two aliases and in the message. The
  default of the parameter, \<^verbatim>\<open>page = 1\<close>, applies to \<^verbatim>\<open>undefined\<close> only.\<close>

definition tryGogoAliases :: "string \<Rightarrow> string \<Rightarrow> string \<Rightarrow> env \<Rightarrow> jsval \<Rightarrow> server \<Rightarrow> jsval \<times> server" where
  "tryGogoAliases a b msg E page s =
     (case gogo E of
        None \<Rightarrow> (JArr [], s)
      | Some g \<Rightarrow>
          (case alias_call g a b [if page = JUndefined then JNum ''1'' else page] (calls s) of
             (Inr v, cs) \<Rightarrow>
               (let list = js_or v (JArr [])
                in (if is_array list then list else js_or (field list ''results'') (JArr []),
                    s\<lparr>calls := cs\<rparr>))
           | (Inl e, cs) \<Rightarrow>
               (JArr [],
                s\<lparr>calls := cs,
                  logs := logs s @ [(LWarn, [(''msg'', Data (JStr msg)), (''e'', StringOf e)])]\<rparr>)))"

definition tryGogoRecent :: "env \<Rightarrow> jsval \<Rightarrow> server \<Rightarrow> jsval \<times> server" where
  "tryGogoRecent = tryGogoAliases ''recent'' ''fetchRecentReleases'' ''gogo recent failed''"

definition tryGogoTop :: "env \<Rightarrow> jsval \<Rightarrow> server \<Rightarrow> jsval \<times> server" where
  "tryGogoTop = tryGogoAliases ''topAiring'' ''trending'' ''gogo top failed''"

text \<open>The \<^verbatim>\<open>catch\<close> of a route: log the error, answer 500 with the route's code.\<close>

definition catch_route :: "(string \<times> logval) list \<Rightarrow> string \<Rightarrow> (exn + response) \<times> server \<Rightarrow> response \<times> server" where
  "catch_route about code r =
     (case r of
        (Inr resp, s) \<Rightarrow> (resp, s)
      | (Inl e, s) \<Rightarrow>
          (err 500 code,
           s\<lparr>logs := logs s @ [(LError, about @ [(''e'', StringOf e)])]\<rparr>))"

text \<open>
  The body of \<^verbatim>\<open>/recent\<close> and \<^verbatim>\<open>/top-airing\<close>; \<open>page\<close> is the number
  \<^verbatim>\<open>Number(req.query.page || 1)\<close>, which the template literal prints into the Jikan path.
  The two routes differ in the adapter function and the Jikan path.
\<close>

definition list_body :: "(env \<Rightarrow> jsval \<Rightarrow> server \<Rightarrow> jsval \<times> server) \<Rightarrow> string \<Rightarrow> env \<Rightarrow> jsnum \<Rightarrow> server \<Rightarrow> (exn + response) \<times> server" where
  "list_body try path E page s =
     (case try E (JNum page) s of
        (dat, s1) \<Rightarrow>
          (case getp dat ''length'' of
             Inl e \<Rightarrow> (Inl e, s1)
           | Inr len \<Rightarrow>
               if \<not> truthy len then
                 (case jikan E (path @ page) s1 of
                    (Inl e, s2) \<Rightarrow> (Inl e, s2)
                  | (Inr jk, s2) \<Rightarrow>
                      (case getp jk ''data'' of
                         Inl e \<Rightarrow> (Inl e, s2)
                       | Inr d \<Rightarrow>
                           (case mapJikan d of
                              Inl e \<Rightarrow> (Inl e, s2)
                            | Inr r \<Rightarrow> (Inr (ok r), s2))))
               else (case mapGogo dat of
                       Inl e \<Rightarrow> (Inl e, s1)
                     | Inr r \<Rightarrow> (Inr (ok r), s1))))"

definition recent :: "env \<Rightarrow> jsnum \<Rightarrow> server \<Rightarrow> response \<times> server" where
  "recent E page s =
     catch_route [(''route'', Data (JStr ''recent''))] ''recent_failed''
       (list_body tryGogoRecent ''/seasons/now?limit=24&page='' E page s)"



text \<open>
  \<^verbatim>\<open>/search\<close>. The query parameter \<^verbatim>\<open>req.query.q\<close> is a string or missing (\<open>None\<close>).
  The native part of the \<^verbatim>\<open>try\<close> block either raises, answers the request
  (\<open>Some\<close>), or falls through to Jikan (\<open>None\<close>).
\<close>

definition query_string :: "string option \<Rightarrow> string" where
  "query_string p = (case p of None \<Rightarrow> [] | Some x \<Rightarrow> x)"

text \<open>\<^verbatim>\<open>Array.isArray(g) ? g : (g?.results || [])\<close>\<close>

definition search_results :: "jsval \<Rightarrow> jsval" where
  "search_results gv = (if is_array gv then gv else js_or (optp gv ''results'') (JArr []))"

definition search_native :: "env \<Rightarrow> string \<Rightarrow> server \<Rightarrow> (exn + response option) \<times> server" where
  "search_native E q s =
     (case gogo E of
        None \<Rightarrow> (Inr None, s)
      | Some g \<Rightarrow>
          if member_truthy (g ''search'') then
            (case call_method g ''search'' [JStr q] (calls s) of
               (Inl e, cs) \<Rightarrow> (Inl e, s\<lparr>calls := cs\<rparr>)
             | (Inr gv, cs) \<Rightarrow>
                 (let results = search_results gv
                  in case getp results ''length'' of
                       Inl e \<Rightarrow> (Inl e, s\<lparr>calls := cs\<rparr>)
                     | Inr len \<Rightarrow>
                         if truthy len then
                           (case mapGogo results of
                              Inl e \<Rightarrow> (Inl e, s\<lparr>calls := cs\<rparr>)
                            | Inr r \<Rightarrow>
                                (Inr (Some (ok (JObj [(''results'', r), (''provider'', JStr ''gogo'')]))),
                                 s\<lparr>calls := cs\<rparr>))
                         else (Inr None, s\<lparr>calls := cs\<rparr>)))
          else (Inr None, s))"

definition search_body :: "env \<Rightarrow> string \<Rightarrow> server \<Rightarrow> (exn + response) \<times> server" where
  "search_body E q s =
     (case search_native E q s of
        (Inl e, s1) \<Rightarrow> (Inl e, s1)
      | (Inr (Some resp), s1) \<Rightarrow> (Inr resp, s1)
      | (Inr None, s1) \<Rightarrow>
          (case jikan E (''/anime?q='' @ encodeURIComponent q @ ''&limit=24'') s1 of
             (Inl e, s2) \<Rightarrow> (Inl e, s2)
           | (Inr jk, s2) \<Rightarrow>
               (case getp jk ''data'' of
                  Inl e \<Rightarrow> (Inl e, s2)
                | Inr d \<Rightarrow>
                    (case mapJikan d of
                       Inl e \<Rightarrow> (Inl e, s2)
                     | Inr r \<Rightarrow>
                         (Inr (ok (JObj [(''results'', r), (''provider'', JStr ''jikan'')])), s2)))))"

definition search :: "env \<Rightarrow> string option \<Rightarrow> server \<Rightarrow> response \<times> server" where
  "search E qp s =
     (let q = trim (query_string qp)
      in if q = [] then (ok (JObj [(''results'', JArr [])]), s)
         else catch_route [(''route'', Data (JStr ''search''))] ''search_failed'' (search_body E q s))"

text \<open>\<^verbatim>\<open>/anime/:id\<close>; the route parameter is always a string.\<close>

definition anime_body :: "env \<Rightarrow> string \<Rightarrow> server \<Rightarrow> (exn + response) \<times> server" where
  "anime_body E ident s =
     (if take 4 ident = ''mal-'' then
        (let malId = drop 4 ident in
         case jikan E (''/anime/'' @ malId) s of
           (Inl e, s1) \<Rightarrow> (Inl e, s1)
         | (Inr jk, s1) \<Rightarrow>
             (case getp jk ''data'' of
                Inl e \<Rightarrow> (Inl e, s1)
              | Inr dd \<Rightarrow>
                  (let d = js_or dd (JObj [])
                   in (Inr (ok (JObj
                         [(''title'', field d ''title''),
                          (''image_url'',
                             js_or (optp (optp (field d ''images'') ''jpg'') ''image_url'') (JStr [])),
                          (''description'', js_or (field d ''synopsis'') (JStr [])),
                          (''episodes'', js_coalesce (field d ''episodes'') (JNum ''0''))])), s1))))
      else
        (case gogo E of
           None \<Rightarrow>
             (Inr (ok (JObj [(''title'', JStr ''Unknown''), (''image_url'', JStr []),
                             (''description'', JStr []), (''episodes'', JNum ''0'')])), s)
         | Some g \<Rightarrow>
             if member_truthy (g ''animeDetails'') then
               (case call_method g ''animeDetails'' [JStr ident] (calls s) of
                  (Inl e, cs) \<Rightarrow> (Inl e, s\<lparr>calls := cs\<rparr>)
                | (Inr d, cs) \<Rightarrow> (Inr (ok d), s\<lparr>calls := cs\<rparr>))
             else
               (Inr (ok (JObj [(''title'', JStr ''Unknown''), (''image_url'', JStr []),
                               (''description'', JStr []), (''episodes'', JNum ''0'')])), s)))"

definition anime :: "env \<Rightarrow> string \<Rightarrow> server \<Rightarrow> response \<times> server" where
  "anime E ident s =
     catch_route [(''route'', Data (JStr ''anime'')), (''id'', Data (JStr ident))] ''anime_failed''
       (anime_body E ident s)"

text \<open>\<^verbatim>\<open>/stream\<close>\<close>

definition stream_body :: "env \<Rightarrow> string \<Rightarrow> server \<Rightarrow> (exn + response) \<times> server" where
  "stream_body E ep s =
     (case gogo E of
        None \<Rightarrow> (Inr (ok (JObj [(''sources'', JArr [])])), s)
      | Some g \<Rightarrow>
          if member_truthy (g ''sources'') then
            (case call_method g ''sources'' [JStr ep] (calls s) of
               (Inl e, cs) \<Rightarrow> (Inl e, s\<lparr>calls := cs\<rparr>)
             | (Inr sv, cs) \<Rightarrow> (Inr (ok sv), s\<lparr>calls := cs\<rparr>))
          else (Inr (ok (JObj [(''sources'', JArr [])])), s))"

definition stream :: "env \<Rightarrow> string option \<Rightarrow> server \<Rightarrow> response \<times> server" where
  "stream E epp s =
     (let ep = query_string epp
      in if ep = [] then (err 400 ''missing_ep'', s)
         else catch_route [(''route'', Data (JStr ''stream'')), (''ep'', Data (JStr ep))] ''stream_failed''
                (stream_body E ep s))"

section \<open>The server with the public fallback\<close>

text \<open>
  What \<^verbatim>\<open>import(name)\<close> gives: it rejects, or it yields a module. Of a module the loader
  reads \<^verbatim>\<open>mod.GoGoAnime || mod.default?.GoGoAnime || mod.default\<close> and applies \<^verbatim>\<open>new\<close> to the
  result. An export is absent (any falsy value) or a value on which \<^verbatim>\<open>new\<close> yields an
  instance or raises (\<open>None\<close>). The default export carries its own \<^verbatim>\<open>GoGoAnime\<close> property
  and what \<^verbatim>\<open>new\<close> does on the default export itself.
\<close>

datatype export = Absent | Ctor "lib option"

datatype jsmodule = JsModule export "(export \<times> lib option) option"

datatype import_result = ImportFails | Imported jsmodule

record loader =
  goLib :: "lib option"
  console :: "string list"
  lcalls :: "call list"

record lenv =
  importer :: "string \<Rightarrow> import_result"
  lnet :: "string \<Rightarrow> http_result"

definition loader_init :: loader where
  "loader_init = \<lparr>goLib = None, console = [], lcalls = []\<rparr>"

definition candidates :: "string list" where
  "candidates = [''gogoanime-api'', ''gogoanime-api-new'']"

text \<open>The value of \<open>GoGo\<close>: \<open>None\<close> when falsy, else what \<^verbatim>\<open>new GoGo()\<close> does.\<close>

definition pick_GoGo :: "jsmodule \<Rightarrow> lib option option" where
  "pick_GoGo m =
     (case m of
        JsModule (Ctor n) _ \<Rightarrow> Some n
      | JsModule Absent None \<Rightarrow> None
      | JsModule Absent (Some (Ctor n, _)) \<Rightarrow> Some n
      | JsModule Absent (Some (Absent, n)) \<Rightarrow> Some n)"

fun load_loop :: "lenv \<Rightarrow> string list \<Rightarrow> loader \<Rightarrow> lib option \<times> loader" where
  "load_loop E [] s =
     (None, s\<lparr>goLib := None,
              console := console s @ [''[gogo] no optional lib found; using public fallback only'']\<rparr>)"
| "load_loop E (name # rest) s =
     (let s1 = s\<lparr>lcalls := lcalls s @ [Import name]\<rparr> in
      case importer E name of
        ImportFails \<Rightarrow> load_loop E rest s1
      | Imported m \<Rightarrow>
          (case pick_GoGo m of
             None \<Rightarrow> load_loop E rest s1
           | Some None \<Rightarrow> load_loop E rest s1
           | Some (Some l) \<Rightarrow>
               (Some l, s1\<lparr>goLib := Some l,
                           console := console s1 @ [''[gogo] using optional lib: '' @ name]\<rparr>)))"

definition tryLoadLibs :: "lenv \<Rightarrow> loader \<Rightarrow> lib option \<times> loader" where
  "tryLoadLibs E s = (case goLib s of Some l \<Rightarrow> (Some l, s) | None \<Rightarrow> load_loop E candidates s)"

definition FALLBACK_BASES :: "string list" where
  "FALLBACK_BASES = [''https://jaybeeanime.vercel.app'']"

text \<open>The loop of \<^verbatim>\<open>fb\<close>: \<^verbatim>\<open>r.json()\<close> is inside the \<^verbatim>\<open>try\<close>, so a body that does not parse
  moves on to the next base as a failed request does.\<close>

fun fb_loop :: "lenv \<Rightarrow> string list \<Rightarrow> string \<Rightarrow> loader \<Rightarrow> jsval \<times> loader" where
  "fb_loop E [] path s = (JNull, s)"
| "fb_loop E (base # rest) path s =
     (let s1 = s\<lparr>lcalls := lcalls s @ [Fetch (base @ path)]\<rparr> in
      case lnet E (base @ path) of
        NetFail e \<Rightarrow> fb_loop E rest path s1
      | Response r_ok r_status r_json \<Rightarrow>
          if r_ok then (case r_json of Inr j \<Rightarrow> (j, s1) | Inl e \<Rightarrow> fb_loop E rest path s1)
          else fb_loop E rest path s1)"

definition fb :: "lenv \<Rightarrow> string \<Rightarrow> loader \<Rightarrow> jsval \<times> loader" where
  "fb E path s = fb_loop E FALLBACK_BASES path s"

text \<open>\<^verbatim>\<open>(data?.data || data?.results || data) || []\<close>\<close>

definition tolerant :: "jsval \<Rightarrow> jsval" where
  "tolerant d = or_chain [optp d ''data'', optp d ''results'', d] (JArr [])"

text \<open>\<^verbatim>\<open>data.map(f)\<close> for a function that does not raise.\<close>

definition array_map :: "(jsval \<Rightarrow> jsval) \<Rightarrow> jsval \<Rightarrow> exn + jsval" where
  "array_map f d = (case d of JArr xs \<Rightarrow> Inr (JArr (map f xs)) | _ \<Rightarrow> Inl TypeError)"

text \<open>
  The native half of a route: \<^verbatim>\<open>if (lib?.name) { try { ... return res.json(...) } catch{} }\<close>.
  \<open>Some\<close> is the payload sent; \<open>None\<close> falls through to the fallback. The \<open>post\<close>
  function is what the route does with the awaited value, and may raise.
\<close>

definition native_try :: "lib option \<Rightarrow> string \<Rightarrow> jsval list \<Rightarrow> (jsval \<Rightarrow> exn + jsval) \<Rightarrow> loader \<Rightarrow> jsval option \<times> loader" where
  "native_try lib name args post s =
     (case lib of
        None \<Rightarrow> (None, s)
      | Some g \<Rightarrow>
          if member_truthy (g name) then
            (case call_method g name args (lcalls s) of
               (Inl e, cs) \<Rightarrow> (None, s\<lparr>lcalls := cs\<rparr>)
             | (Inr v, cs) \<Rightarrow>
                 (case post v of
                    Inl e \<Rightarrow> (None, s\<lparr>lcalls := cs\<rparr>)
                  | Inr r \<Rightarrow> (Some r, s\<lparr>lcalls := cs\<rparr>)))
          else (None, s))"

text \<open>A route: load the library, try the native half, else ask the fallback. Every answer goes
  out through \<^verbatim>\<open>res.json\<close>, with status 200.\<close>

definition route :: "lenv \<Rightarrow> string \<Rightarrow> jsval list \<Rightarrow> (jsval \<Rightarrow> exn + jsval) \<Rightarrow> string \<Rightarrow> (jsval \<Rightarrow> jsval) \<Rightarrow> loader \<Rightarrow> response \<times> loader" where
  "route E name args post path parse s =
     (case tryLoadLibs E s of
        (lib, s1) \<Rightarrow>
          (case native_try lib name args post s1 of
             (Some r, s2) \<Rightarrow> (\<lparr>status = 200, body = r\<rparr>, s2)
           | (None, s2) \<Rightarrow>
               (case fb E path s2 of
                  (d, s3) \<Rightarrow> (\<lparr>status = 200, body = parse d\<rparr>, s3))))"


definition l_recent :: "lenv \<Rightarrow> loader \<Rightarrow> response \<times> loader" where
  "l_recent E s = route E ''recentEpisodes'' [] (array_map mapItem) ''/recent'' tolerant s"


definition l_search :: "lenv \<Rightarrow> string option \<Rightarrow> loader \<Rightarrow> response \<times> loader" where
  "l_search E qp s =
     (let q = trim (query_string qp)
      in if q = [] then (\<lparr>status = 200, body = JArr []\<rparr>, s)
         else route E ''search'' [JStr q] (array_map mapItem)
                (''/search?q='' @ encodeURIComponent q) tolerant s)"











section \<open>Notions used in the statements\<close>


text \<open>The native provider is unavailable for a capability: there is no library, or it has no
  such method.\<close>

definition lacks :: "env \<Rightarrow> string \<Rightarrow> bool" where
  "lacks E name = (case gogo E of None \<Rightarrow> True | Some g \<Rightarrow> \<not> member_truthy (g name))"

text \<open>The cache invariant: distinct keys, at most \<open>lmax\<close> entries, and a positive capacity.\<close>

definition lru_inv :: "lru \<Rightarrow> bool" where
  "lru_inv c = (distinct (lru_keys c) \<and> length (entries c) \<le> lmax c \<and> 0 < lmax c)"

text \<open>The URL and the cache key that \<^verbatim>\<open>jikan\<close> builds for a path.\<close>

definition jikan_url :: "string \<Rightarrow> string" where
  "jikan_url path = ''https://api.jikan.moe/v4'' @ path"

definition jikan_key :: "string \<Rightarrow> string" where
  "jikan_key path = ''jk:'' @ jikan_url path"

text \<open>The call yields \<open>v\<close>, directly or through a promise.\<close>

definition fulfils :: "outcome \<Rightarrow> jsval \<Rightarrow> bool" where
  "fulfils out v = (out = Returns v \<or> out = Resolves v)"

text \<open>The call raises \<open>e\<close>, directly or through a rejected promise.\<close>

definition fails :: "outcome \<Rightarrow> exn \<Rightarrow> bool" where
  "fails out e = (out = Throws e \<or> out = Rejects e)"

text \<open>What one candidate of \<^verbatim>\<open>tryLoadLibs\<close> yields: an instance, or nothing when the import
  rejects, no constructor is exported, or the constructor raises.\<close>

definition loads :: "import_result \<Rightarrow> lib option" where
  "loads r =
     (case r of
        ImportFails \<Rightarrow> None
      | Imported m \<Rightarrow> (case pick_GoGo m of Some (Some l) \<Rightarrow> Some l | _ \<Rightarrow> None))"

text \<open>A non-negative integer: a number that is printed with digits only or, from \<open>10\<^sup>2\<^sup>1\<close> on,
  in exponent form with a positive exponent.\<close>

definition is_digit :: "char \<Rightarrow> bool" where
  "is_digit c = (c \<in> set ''0123456789'')"

definition nonneg_int :: "jsval \<Rightarrow> bool" where
  "nonneg_int v =
     (case v of
        JNum n \<Rightarrow>
          n \<noteq> [] \<and> (list_all is_digit n
                     \<or> (is_digit (hd n) \<and> CHR ''e'' \<in> set n \<and> CHR ''-'' \<notin> set n))
      | _ \<Rightarrow> False)"

text \<open>A value that is neither an object nor an array.\<close>

definition primitive :: "jsval \<Rightarrow> bool" where
  "primitive v = (case v of JArr _ \<Rightarrow> False | JObj _ \<Rightarrow> False | _ \<Rightarrow> True)"

text \<open>A string that consists of white space and line terminators only, the empty string
  included.\<close>

inductive blank :: "string \<Rightarrow> bool" where
  blank_empty: "blank []"
| blank_more: "w \<in> set ws_seqs \<Longrightarrow> blank s \<Longrightarrow> blank (w @ s)"

text \<open>The body of a response that \<^verbatim>\<open>fb\<close> can return: the status is OK and \<^verbatim>\<open>json()\<close>
  succeeded.\<close>

definition usable :: "http_result \<Rightarrow> jsval option" where
  "usable r = (case r of Response True _ (Inr j) \<Rightarrow> Some j | _ \<Rightarrow> None)"

section \<open>Concrete environments\<close>

text \<open>The properties below are instantiated on these values.\<close>

text \<open>No native library, and a fallback that is out of reach, for each server.\<close>

definition env_down :: env where
  "env_down =
     \<lparr>gogo = None,
      net = (\<lambda>_. Response False 503 (Inl (Exn ''SyntaxError'' ''unexpected end of input''))),
      clock = 0\<rparr>"

definition lenv_down :: lenv where
  "lenv_down =
     \<lparr>importer = (\<lambda>_. ImportFails),
      lnet = (\<lambda>_. NetFail (Exn ''FetchError'' ''connection refused''))\<rparr>"

text \<open>A Jikan body with one item.\<close>

definition jikan_body :: jsval where
  "jikan_body = JObj [(''data'', JArr [JObj [(''mal_id'', JNum ''21''), (''title'', JStr ''One Piece'')]])]"

text \<open>No native library, and a Jikan that answers with \<open>jikan_body\<close>.\<close>

definition env_jikan :: env where
  "env_jikan = \<lparr>gogo = None, net = (\<lambda>_. Response True 200 (Inr jikan_body)), clock = 0\<rparr>"

text \<open>A cache at capacity: 300 entries with distinct keys, the first the most recently used.\<close>

definition full_cache :: lru where
  "full_cache =
     \<lparr>lmax = 300, lttl = 1000 * 60 * 5,
      entries = map (\<lambda>i. (replicate (Suc i) CHR ''k'', JNull, 1000)) [0..<300]\<rparr>"

text \<open>What \<^verbatim>\<open>mapJikan\<close> makes of the data of \<open>jikan_body\<close>.\<close>

definition normalized_body :: jsval where
  "normalized_body = JArr [JObj [(''title'', JStr ''One Piece''), (''image_url'', JStr []),
                      (''anime_id'', JStr ''mal-21''), (''synopsis'', JStr [])]]"

text \<open>The server after one Jikan lookup has been cached.\<close>

definition server_warm :: server where
  "server_warm = snd (jikan env_jikan ''/anime/21'' server_init)"

text \<open>A native library whose \<^verbatim>\<open>search\<close> finds nothing, and one that finds one item.\<close>

definition lib_empty_search :: lib where
  "lib_empty_search name = (if name = ''search'' then Fn (\<lambda>_. Resolves (JArr [])) else Val JUndefined)"

definition lib_naruto :: lib where
  "lib_naruto name =
     (if name = ''search''
      then Fn (\<lambda>_. Resolves (JArr [JObj [(''id'', JStr ''naruto''), (''name'', JStr ''Naruto'')]]))
      else Val JUndefined)"

text \<open>Environments with these libraries; the fallback is reachable in each.\<close>

definition lenv_empty_search :: lenv where
  "lenv_empty_search =
     \<lparr>importer = (\<lambda>_. Imported (JsModule (Ctor (Some lib_empty_search)) None)),
      lnet = (\<lambda>_. Response True 200 (Inr jikan_body))\<rparr>"

definition env_naruto :: env where
  "env_naruto = \<lparr>gogo = Some lib_naruto, net = (\<lambda>_. Response True 200 (Inr jikan_body)), clock = 0\<rparr>"

definition env_empty_search :: env where
  "env_empty_search =
     \<lparr>gogo = Some lib_empty_search, net = (\<lambda>_. Response True 200 (Inr jikan_body)), clock = 0\<rparr>"

text \<open>A native library whose every method raises, and one that has the secondary aliases
  only.\<close>

definition lib_throwing :: lib where
  "lib_throwing name = Fn (\<lambda>_. Throws (Exn ''Error'' ''upstream changed''))"

definition lib_secondary :: lib where
  "lib_secondary name =
     (if name = ''fetchRecentReleases'' \<or> name = ''trending''
      then Fn (\<lambda>_. Resolves (JObj [(''results'', JArr [JObj [(''name'', JStr ''Naruto'')]])]))
      else Val JUndefined)"

text \<open>Environments with these libraries.\<close>

definition env_throwing :: env where
  "env_throwing = \<lparr>gogo = Some lib_throwing, net = (\<lambda>_. Response True 200 (Inr jikan_body)), clock = 0\<rparr>"

definition env_secondary :: env where
  "env_secondary = \<lparr>gogo = Some lib_secondary, net = (\<lambda>_. NetFail (Exn ''FetchError'' ''down'')), clock = 0\<rparr>"

text \<open>A Jikan body whose episode count is not a non-negative integer, and an environment that
  serves it.\<close>

definition negative_body :: jsval where
  "negative_body = JObj [(''data'', JObj [(''title'', JStr ''One Piece''), (''episodes'', JNum ''-1'')])]"

definition env_negative :: env where
  "env_negative = \<lparr>gogo = Some lib_throwing, net = (\<lambda>_. Response True 200 (Inr negative_body)), clock = 0\<rparr>"

text \<open>A fallback that answers 200 with a body that is not JSON, and one whose first base
  answers 502.\<close>

definition lenv_garbled :: lenv where
  "lenv_garbled =
     \<lparr>importer = (\<lambda>_. ImportFails),
      lnet = (\<lambda>_. Response True 200 (Inl (Exn ''SyntaxError'' ''Unexpected token <'')))\<rparr>"

definition lenv_second :: lenv where
  "lenv_second =
     \<lparr>importer = (\<lambda>_. ImportFails),
      lnet = (\<lambda>u. if u = ''https://a.example/recent''
                   then Response False 502 (Inr (JObj []))
                   else Response True 200 (Inr (JObj [(''results'', JArr [JStr ''x''])])))\<rparr>"

section \<open>Lengths\<close>

text \<open>The rendering of a natural number is made of digits, and it is \<^verbatim>\<open>0\<close> for zero only: a
  length is falsy exactly when it is zero.\<close>

lemma show_nat_digits: "set (show_nat n) \<subseteq> set ''0123456789''"
proof (induction n rule: show_nat.induct)
  case (1 n)
  have d: "digit_char m \<in> set ''0123456789''" if "m < 10" for m
    unfolding digit_char_def using that by (intro nth_mem) simp
  show ?case
  proof (cases "n < 10")
    case True
    then show ?thesis
      using d [of n] by (subst show_nat.simps) simp
  next
    case False
    then show ?thesis
      using 1 d [of "n mod 10"] by (subst show_nat.simps) simp
  qed
qed

lemma show_nat_not_Nil: "show_nat n \<noteq> []"
  by (subst show_nat.simps) simp

lemma show_nat_zero [simp]: "show_nat n = ''0'' \<longleftrightarrow> n = 0"
proof (cases "n < 10")
  case True
  then have "n \<in> {0, 1, 2, 3, 4, 5, 6, 7, 8, 9}"
    by auto
  then show ?thesis
    by (subst show_nat.simps) (auto simp: digit_char_def)
next
  case False
  have "length (show_nat (n div 10) @ [digit_char (n mod 10)]) \<noteq> length ''0''"
    using show_nat_not_Nil [of "n div 10"] by (cases "show_nat (n div 10)") simp_all
  then have "show_nat (n div 10) @ [digit_char (n mod 10)] \<noteq> ''0''"
    by metis
  then show ?thesis
    using False by (subst show_nat.simps) simp
qed

lemma show_nat_not_NaN [simp]: "show_nat n \<noteq> ''NaN''"
proof -
  have "CHR ''N'' \<notin> set (show_nat n)"
    using show_nat_digits [of n] by auto
  then show ?thesis
    by auto
qed

lemma truthy_show_nat: "truthy (JNum (show_nat n)) \<longleftrightarrow> n \<noteq> 0"
  by simp

section \<open>Blank search queries\<close>

text \<open>The list of white-space encodings is the UTF-8 encoding of the list of code points.\<close>

lemma ws_seqs_utf8: "map (map of_char) ws_seqs = map utf8 ws_points"
  by (simp add: ws_seqs_def ws_points_def utf8_def)

lemma strip_Nil: "strip ws [] = []"
proof -
  have "find (\<lambda>w. w \<noteq> [] \<and> take (length w) [] = w) ws = None"
    by (auto simp: find_None_iff)
  then show ?thesis
    by (subst strip.simps) simp
qed

text \<open>No encoding in the list is a prefix of another: the one found at the front of a string
  that starts with \<open>w\<close> is \<open>w\<close>.\<close>

lemma find_ws:
  "list_all (\<lambda>w. find (\<lambda>v. v \<noteq> [] \<and> take (length v) (w @ s) = v) ws_seqs = Some w) ws_seqs"
  by (simp add: ws_seqs_def)

lemma strip_ws:
  assumes "w \<in> set ws_seqs"
  shows "strip ws_seqs (w @ s) = strip ws_seqs s"
proof -
  have "find (\<lambda>v. v \<noteq> [] \<and> take (length v) (w @ s) = v) ws_seqs = Some w"
    using assms find_ws [of s] unfolding list_all_iff by blast
  then show ?thesis
    by (subst strip.simps) simp
qed

lemma strip_blank: "blank q \<Longrightarrow> strip ws_seqs q = []"
  by (induction rule: blank.induct) (simp_all add: strip_Nil strip_ws)

lemma strip_concat: "\<exists>ps. set ps \<subseteq> set ws \<and> s = concat ps @ strip ws s"
proof (induction ws s rule: strip.induct)
  case (1 ws s)
  show ?case
  proof (cases "find (\<lambda>w. w \<noteq> [] \<and> take (length w) s = w) ws")
    case None
    then have "strip ws s = s"
      by (subst strip.simps) simp
    then show ?thesis
      by (intro exI [of _ "[]"]) simp
  next
    case (Some w)
    then have w: "w \<in> set ws" and t: "take (length w) s = w"
      by (auto simp: find_Some_iff)
    from 1 [OF Some] obtain ps where ps: "set ps \<subseteq> set ws"
      and d: "drop (length w) s = concat ps @ strip ws (drop (length w) s)"
      by blast
    have st: "strip ws s = strip ws (drop (length w) s)"
      using Some by (subst strip.simps) simp
    have "s = take (length w) s @ drop (length w) s"
      by simp
    then have "s = w @ concat ps @ strip ws s"
      using t d st by simp
    then show ?thesis
      using w ps by (intro exI [of _ "w # ps"]) simp
  qed
qed

lemma blank_append: "blank a \<Longrightarrow> blank b \<Longrightarrow> blank (a @ b)"
  by (induction rule: blank.induct) (simp_all add: blank_more)

lemma blank_single: "w \<in> set ws_seqs \<Longrightarrow> blank w"
  using blank_more [OF _ blank_empty, of w] by simp

lemma blank_concat: "set ps \<subseteq> set ws_seqs \<Longrightarrow> blank (concat ps)"
  by (induction ps) (simp_all add: blank_empty blank_more)

lemma blank_concat_rev: "set ps \<subseteq> set (map rev ws_seqs) \<Longrightarrow> blank (rev (concat ps))"
proof (induction ps)
  case Nil
  show ?case by (simp add: blank_empty)
next
  case (Cons p ps)
  then obtain w where "w \<in> set ws_seqs" and "p = rev w"
    by auto
  then have "blank (rev p)"
    by (simp add: blank_single)
  moreover have "blank (rev (concat ps))"
    using Cons by simp
  ultimately show ?case
    by (simp add: blank_append)
qed

text \<open>\<^verbatim>\<open>trim\<close> leaves nothing of a string exactly when the string is blank.\<close>

lemma trim_empty_iff: "trim q = [] \<longleftrightarrow> blank q"
proof
  assume e: "trim q = []"
  obtain ps where ps: "set ps \<subseteq> set ws_seqs" and q: "q = concat ps @ strip ws_seqs q"
    using strip_concat [of ws_seqs q] by blast
  obtain rs where rs: "set rs \<subseteq> set (map rev ws_seqs)"
    and r: "rev (strip ws_seqs q)
              = concat rs @ strip (map rev ws_seqs) (rev (strip ws_seqs q))"
    using strip_concat [of "map rev ws_seqs" "rev (strip ws_seqs q)"] by blast
  from e have "strip (map rev ws_seqs) (rev (strip ws_seqs q)) = []"
    by (simp add: trim_def)
  with r have "rev (strip ws_seqs q) = concat rs"
    by simp
  then have "strip ws_seqs q = rev (concat rs)"
    by (metis rev_rev_ident)
  then have "blank (strip ws_seqs q)"
    using blank_concat_rev [OF rs] by simp
  then have "blank (concat ps @ strip ws_seqs q)"
    using blank_concat [OF ps] by (simp add: blank_append)
  then show "blank q"
    using q by simp
next
  assume "blank q"
  then show "trim q = []"
    by (simp add: trim_def strip_blank strip_Nil)
qed

text \<open>
  C10. A search request whose \<^verbatim>\<open>q\<close> is missing, empty or made of white space only is answered
  at once with status 200 and an empty result, in the server with the Jikan fallback and in
  the server with the public fallback; the state is returned as it was, so neither the native
  library nor the fallback was called (and, in the server with the public fallback, the
  library was not even loaded).
\<close>

theorem search_blank_query:
  assumes "blank (query_string qp)"
  shows "search E qp s = (ok (JObj [(''results'', JArr [])]), s)
       \<and> status (fst (search E qp s)) = 200
       \<and> calls (snd (search E qp s)) = calls s
       \<and> l_search L qp t = (\<lparr>status = 200, body = JArr []\<rparr>, t)
       \<and> lcalls (snd (l_search L qp t)) = lcalls t"
proof -
  have "trim (query_string qp) = []"
    using assms by (simp add: trim_empty_iff)
  then show ?thesis
    by (simp add: search_def l_search_def ok_def)
qed

theorem search_blank_query_witness:
  "search env_down (Some [CHR 0x20, CHR 0x09, CHR 0x20]) server_init
     = (ok (JObj [(''results'', JArr [])]), server_init)
   \<and> search env_naruto (Some [CHR 0xC2, CHR 0xA0, CHR 0xE3, CHR 0x80, CHR 0x80, CHR 0x0A])
        server_init
     = (ok (JObj [(''results'', JArr [])]), server_init)
   \<and> search env_down None server_init = (ok (JObj [(''results'', JArr [])]), server_init)
   \<and> l_search lenv_down (Some []) loader_init = (\<lparr>status = 200, body = JArr []\<rparr>, loader_init)
   \<and> l_search lenv_empty_search (Some [CHR 0xEF, CHR 0xBB, CHR 0xBF, CHR 0xE2, CHR 0x80, CHR 0xA8])
        loader_init
     = (\<lparr>status = 200, body = JArr []\<rparr>, loader_init)"
proof -
  have a: "blank (query_string (Some [CHR 0x20, CHR 0x09, CHR 0x20]))"
    unfolding trim_empty_iff [symmetric]
    by (simp add: query_string_def trim_def strip.simps ws_seqs_def)
  have b: "blank (query_string (Some [CHR 0xC2, CHR 0xA0, CHR 0xE3, CHR 0x80, CHR 0x80, CHR 0x0A]))"
    unfolding trim_empty_iff [symmetric]
    by (simp add: query_string_def trim_def strip.simps ws_seqs_def)
  have c: "blank (query_string None)"
    by (simp add: query_string_def blank_empty)
  have d: "blank (query_string (Some []))"
    by (simp add: query_string_def blank_empty)
  have e: "blank (query_string (Some [CHR 0xEF, CHR 0xBB, CHR 0xBF, CHR 0xE2, CHR 0x80, CHR 0xA8]))"
    unfolding trim_empty_iff [symmetric]
    by (simp add: query_string_def trim_def strip.simps ws_seqs_def)
  show ?thesis
    using search_blank_query [OF a, of env_down server_init lenv_down loader_init]
      search_blank_query [OF b, of env_naruto server_init lenv_down loader_init]
      search_blank_query [OF c, of env_down server_init lenv_down loader_init]
      search_blank_query [OF d, of env_down server_init lenv_down loader_init]
      search_blank_query [OF e, of env_down server_init lenv_empty_search loader_init]
    by simp
qed

section \<open>Normalization\<close>

lemma or_chain_find:
  "or_chain xs d = (case find truthy xs of Some v \<Rightarrow> v | None \<Rightarrow> d)"
  by (induction xs) auto

lemma or_chain_not_nullish:
  assumes "\<not> nullish d"
  shows "\<not> nullish (or_chain xs d)"
proof (induction xs)
  case Nil
  show ?case using assms by simp
next
  case (Cons a as)
  have "truthy a \<Longrightarrow> \<not> nullish a" by (cases a) auto
  with Cons show ?case by auto
qed

lemma mapItem_fields:
  "\<not> nullish (field (mapItem a) ''id'')"
  "\<not> nullish (field (mapItem a) ''title'')"
  "\<not> nullish (field (mapItem a) ''cover'')"
  "\<not> nullish (field (mapItem a) ''tags'')"
  "field (mapItem a) ''synopsis'' = JUndefined"
  by (simp_all add: mapItem_def or_chain_not_nullish del: or_chain.simps)

lemma mapItem_chains:
  "field (mapItem a) ''title'' =
     (case find truthy [optp a ''title'', optp a ''name'', optp a ''animeTitle''] of
        Some v \<Rightarrow> v | None \<Rightarrow> JStr [])"
  "field (mapItem a) ''cover'' =
     (case find truthy [optp a ''cover'', optp a ''image_url'', optp a ''image'', optp a ''img'',
                        optp a ''poster'', optp a ''pic''] of
        Some v \<Rightarrow> v | None \<Rightarrow> JStr [])"
  unfolding mapItem_def or_chain_find by simp_all

lemma mapGogo_item_ok:
  assumes "\<not> nullish x"
  shows "\<exists>y. mapGogo_item x = Inr y
     \<and> \<not> nullish (field y ''title'') \<and> \<not> nullish (field y ''image_url'')
     \<and> \<not> nullish (field y ''anime_id'') \<and> \<not> nullish (field y ''synopsis'')
     \<and> field y ''title'' =
          (case find truthy [field x ''title'', field x ''name''] of
             Some v \<Rightarrow> v | None \<Rightarrow> JStr ''Unknown'')
     \<and> field y ''image_url'' =
          (case find truthy [field x ''image'', field x ''poster'', field x ''image_url''] of
             Some v \<Rightarrow> v | None \<Rightarrow> JStr [])
     \<and> field y ''synopsis'' =
          (case find truthy [field x ''description'', field x ''synopsis''] of
             Some v \<Rightarrow> v | None \<Rightarrow> JStr [])"
proof -
  let ?y = "JObj
        [(''title'', or_chain [field x ''title'', field x ''name''] (JStr ''Unknown'')),
         (''image_url'',
            or_chain [field x ''image'', field x ''poster'', field x ''image_url''] (JStr [])),
         (''anime_id'',
            or_chain [field x ''id'', field x ''slug'', field x ''animeId'', field x ''anime_id'']
              (JStr [])),
         (''synopsis'', or_chain [field x ''description'', field x ''synopsis''] (JStr []))]"
  have y: "mapGogo_item x = Inr ?y" using assms by (simp add: mapGogo_item_def)
  have n: "\<not> nullish (field ?y ''title'')" "\<not> nullish (field ?y ''image_url'')"
    "\<not> nullish (field ?y ''anime_id'')" "\<not> nullish (field ?y ''synopsis'')"
    by (simp_all add: or_chain_not_nullish del: or_chain.simps)
  have t: "field ?y ''title'' = (case find truthy [field x ''title'', field x ''name''] of
             Some v \<Rightarrow> v | None \<Rightarrow> JStr ''Unknown'')"
    unfolding or_chain_find by simp
  have i: "field ?y ''image_url'' =
          (case find truthy [field x ''image'', field x ''poster'', field x ''image_url''] of
             Some v \<Rightarrow> v | None \<Rightarrow> JStr [])"
    unfolding or_chain_find by simp
  have d: "field ?y ''synopsis'' =
          (case find truthy [field x ''description'', field x ''synopsis''] of
             Some v \<Rightarrow> v | None \<Rightarrow> JStr [])"
    unfolding or_chain_find by simp
  from y n t i d show ?thesis by blast
qed

lemma mapJikan_item_ok:
  assumes "\<not> nullish x" and "to_string (field x ''mal_id'') = Inr m"
  shows "\<exists>y. mapJikan_item x = Inr y
     \<and> \<not> nullish (field y ''title'') \<and> \<not> nullish (field y ''image_url'')
     \<and> \<not> nullish (field y ''anime_id'') \<and> \<not> nullish (field y ''synopsis'')
     \<and> field y ''title'' = (if truthy (field x ''title'') then field x ''title'' else JStr ''Unknown'')
     \<and> field y ''image_url'' =
          (case find truthy [optp (optp (field x ''images'') ''jpg'') ''image_url'',
                             optp (optp (field x ''images'') ''webp'') ''image_url''] of
             Some v \<Rightarrow> v | None \<Rightarrow> JStr [])
     \<and> field y ''synopsis'' = (if truthy (field x ''synopsis'') then field x ''synopsis'' else JStr [])
     \<and> field y ''anime_id'' = JStr (''mal-'' @ m)"
proof -
  let ?y = "JObj
        [(''title'', or_chain [field x ''title''] (JStr ''Unknown'')),
         (''image_url'',
            or_chain [optp (optp (field x ''images'') ''jpg'') ''image_url'',
                      optp (optp (field x ''images'') ''webp'') ''image_url''] (JStr [])),
         (''anime_id'', JStr (''mal-'' @ m)),
         (''synopsis'', or_chain [field x ''synopsis''] (JStr []))]"
  have y: "mapJikan_item x = Inr ?y" using assms by (simp add: mapJikan_item_def)
  have n: "\<not> nullish (field ?y ''title'')" "\<not> nullish (field ?y ''image_url'')"
    "\<not> nullish (field ?y ''anime_id'')" "\<not> nullish (field ?y ''synopsis'')"
    by (simp_all add: or_chain_not_nullish del: or_chain.simps)
  have t: "field ?y ''title'' = (if truthy (field x ''title'') then field x ''title'' else JStr ''Unknown'')"
    "field ?y ''synopsis'' = (if truthy (field x ''synopsis'') then field x ''synopsis'' else JStr [])"
    "field ?y ''anime_id'' = JStr (''mal-'' @ m)"
    by simp_all
  have i: "field ?y ''image_url'' =
          (case find truthy [optp (optp (field x ''images'') ''jpg'') ''image_url'',
                             optp (optp (field x ''images'') ''webp'') ''image_url''] of
             Some v \<Rightarrow> v | None \<Rightarrow> JStr [])"
    unfolding or_chain_find by simp
  from y n t i show ?thesis by blast
qed

lemma mapJikan_item_raises:
  "\<not> nullish x \<Longrightarrow> to_string (field x ''mal_id'') = Inl e \<Longrightarrow> mapJikan_item x = Inl e"
  by (simp add: mapJikan_item_def)

lemma mapJikan_item_cases:
  assumes "\<not> nullish x"
  shows "case to_string (field x ''mal_id'') of
            Inl e \<Rightarrow> mapJikan_item x = Inl e
          | Inr m \<Rightarrow>
              (\<exists>y. mapJikan_item x = Inr y
                 \<and> \<not> nullish (field y ''title'') \<and> \<not> nullish (field y ''image_url'')
                 \<and> \<not> nullish (field y ''anime_id'') \<and> \<not> nullish (field y ''synopsis'')
                 \<and> field y ''title'' =
                      (if truthy (field x ''title'') then field x ''title'' else JStr ''Unknown'')
                 \<and> field y ''image_url'' =
                      (case find truthy [optp (optp (field x ''images'') ''jpg'') ''image_url'',
                                         optp (optp (field x ''images'') ''webp'') ''image_url''] of
                         Some v \<Rightarrow> v | None \<Rightarrow> JStr [])
                 \<and> field y ''synopsis'' =
                      (if truthy (field x ''synopsis'') then field x ''synopsis'' else JStr [])
                 \<and> field y ''anime_id'' = JStr (''mal-'' @ m))"
proof (cases "to_string (field x ''mal_id'')")
  case (Inl e)
  then show ?thesis using assms by (simp add: mapJikan_item_raises)
next
  case (Inr m)
  show ?thesis
    unfolding Inr sum.case using mapJikan_item_ok [OF assms Inr] by blast
qed

lemma to_string_primitive: "primitive v \<Longrightarrow> \<exists>m. to_string v = Inr m"
  by (cases v) (simp_all add: primitive_def)

lemma map_exn_list_all2: "map_exn f xs = Inr ys \<longleftrightarrow> list_all2 (\<lambda>x y. f x = Inr y) xs ys"
proof (induction xs arbitrary: ys)
  case Nil
  show ?case by auto
next
  case (Cons a xs)
  show ?case
    unfolding list_all2_Cons1 Cons.IH [symmetric] by (auto split: sum.splits)
qed

lemma map_items_array:
  "map_items f (JArr xs) = Inr r
     \<longleftrightarrow> (\<exists>ys. r = JArr ys \<and> list_all2 (\<lambda>x y. f x = Inr y) xs ys)"
  unfolding map_exn_list_all2 [symmetric] by (auto simp: map_items_def split: sum.splits)

lemma map_exn_total:
  assumes "\<forall>x\<in>set xs. \<exists>y. f x = Inr y"
  shows "\<exists>ys. map_exn f xs = Inr ys \<and> length ys = length xs"
  using assms by (induction xs) auto

lemma map_items_total:
  assumes "\<forall>x\<in>set xs. \<exists>y. f x = Inr y"
  shows "\<exists>ys. map_items f (JArr xs) = Inr (JArr ys) \<and> length ys = length xs"
  using map_exn_total [OF assms] by (auto simp: map_items_def)

text \<open>
  C4, as the claim states it, fails: \<^verbatim>\<open>mapItem\<close> on an item with no field gives an empty
  title, not \<^verbatim>\<open>Unknown\<close>, and no \<^verbatim>\<open>synopsis\<close> at all; \<^verbatim>\<open>mapGogo\<close> does not consult
  \<^verbatim>\<open>animeTitle\<close>; \<^verbatim>\<open>mapGogo\<close> on a list holding \<^verbatim>\<open>null\<close> raises a TypeError; and so does
  \<^verbatim>\<open>mapJikan\<close> on an item whose \<^verbatim>\<open>mal_id\<close> is \<^verbatim>\<open>{"toString": 1}\<close>.
\<close>

theorem normalizers_counterexample:
  "field (mapItem (JObj [])) ''title'' = JStr []
   \<and> field (mapItem (JObj [])) ''title'' \<noteq> JStr ''Unknown''
   \<and> field (mapItem (JObj [])) ''synopsis'' = JUndefined
   \<and> mapGogo_item (JObj [(''animeTitle'', JStr ''Bleach'')])
       = Inr (JObj [(''title'', JStr ''Unknown''), (''image_url'', JStr []),
                    (''anime_id'', JStr []), (''synopsis'', JStr [])])
   \<and> mapGogo (JArr [JNull]) = Inl TypeError
   \<and> mapJikan (JArr [JObj [(''mal_id'', JObj [(''toString'', JNum ''1'')])]]) = Inl TypeError"
  by (simp add: mapItem_def mapGogo_item_def mapGogo_def mapJikan_def mapJikan_item_def
      map_items_def optp_def)

text \<open>
  C4, amended. \<^verbatim>\<open>mapItem\<close> is total on every raw item, \<^verbatim>\<open>null\<close> and \<^verbatim>\<open>undefined\<close> included:
  its \<^verbatim>\<open>id\<close>, \<^verbatim>\<open>title\<close>, \<^verbatim>\<open>cover\<close> and \<^verbatim>\<open>tags\<close> are never null, the title is the first truthy
  of \<^verbatim>\<open>title\<close>, \<^verbatim>\<open>name\<close>, \<^verbatim>\<open>animeTitle\<close>, else the empty string, the cover falls back to the
  empty string, and it has no \<^verbatim>\<open>synopsis\<close> field.

  The arrow functions of \<^verbatim>\<open>mapGogo\<close> and \<^verbatim>\<open>mapJikan\<close> raise a TypeError on an item that is
  null or undefined. On every other item that of \<^verbatim>\<open>mapGogo\<close> succeeds, with non-null \<^verbatim>\<open>title\<close>,
  \<^verbatim>\<open>image_url\<close>, \<^verbatim>\<open>anime_id\<close> and \<^verbatim>\<open>synopsis\<close>: the title is the first truthy of \<^verbatim>\<open>title\<close>,
  \<^verbatim>\<open>name\<close>, else \<^verbatim>\<open>Unknown\<close>; image URL and synopsis fall back to the empty string. On an item
  that is not null or undefined that of \<^verbatim>\<open>mapJikan\<close> raises exactly when \<^verbatim>\<open>String(x.mal_id)\<close>
  does, with the same error: that is so when \<^verbatim>\<open>mal_id\<close> is an object with an own \<^verbatim>\<open>toString\<close>
  property, and is not so when \<^verbatim>\<open>mal_id\<close> is absent or is neither an object nor an array.
  Otherwise it succeeds with non-null fields: the title is \<^verbatim>\<open>title\<close>, else \<^verbatim>\<open>Unknown\<close>, the
  image URL is the first truthy of \<^verbatim>\<open>images.jpg.image_url\<close> and \<^verbatim>\<open>images.webp.image_url\<close>, else
  the empty string, the synopsis falls back to the empty string, and \<^verbatim>\<open>anime_id\<close> is \<^verbatim>\<open>mal-\<close>
  followed by \<^verbatim>\<open>String(x.mal_id)\<close>.

  On a list, \<^verbatim>\<open>mapGogo\<close> and \<^verbatim>\<open>mapJikan\<close> return a result exactly when the arrow function
  succeeds on every item, and the result is then the list of its results, in order.
\<close>

theorem normalizers_total:
  "(\<not> nullish (field (mapItem a) ''id'') \<and> \<not> nullish (field (mapItem a) ''title'')
      \<and> \<not> nullish (field (mapItem a) ''cover'') \<and> \<not> nullish (field (mapItem a) ''tags'')
      \<and> field (mapItem a) ''synopsis'' = JUndefined
      \<and> field (mapItem a) ''title'' =
           (case find truthy [optp a ''title'', optp a ''name'', optp a ''animeTitle''] of
              Some v \<Rightarrow> v | None \<Rightarrow> JStr [])
      \<and> field (mapItem a) ''cover'' =
           (case find truthy [optp a ''cover'', optp a ''image_url'', optp a ''image'',
                              optp a ''img'', optp a ''poster'', optp a ''pic''] of
              Some v \<Rightarrow> v | None \<Rightarrow> JStr []))
   \<and> (nullish x \<longrightarrow> mapGogo_item x = Inl TypeError \<and> mapJikan_item x = Inl TypeError)
   \<and> (\<not> nullish x \<longrightarrow>
        (\<exists>y. mapGogo_item x = Inr y
           \<and> \<not> nullish (field y ''title'') \<and> \<not> nullish (field y ''image_url'')
           \<and> \<not> nullish (field y ''anime_id'') \<and> \<not> nullish (field y ''synopsis'')
           \<and> field y ''title'' =
                (case find truthy [field x ''title'', field x ''name''] of
                   Some v \<Rightarrow> v | None \<Rightarrow> JStr ''Unknown'')
           \<and> field y ''image_url'' =
                (case find truthy [field x ''image'', field x ''poster'', field x ''image_url''] of
                   Some v \<Rightarrow> v | None \<Rightarrow> JStr [])
           \<and> field y ''synopsis'' =
                (case find truthy [field x ''description'', field x ''synopsis''] of
                   Some v \<Rightarrow> v | None \<Rightarrow> JStr [])))
   \<and> (\<not> nullish x \<longrightarrow>
        (case to_string (field x ''mal_id'') of
            Inl e \<Rightarrow> mapJikan_item x = Inl e
          | Inr m \<Rightarrow>
              (\<exists>y. mapJikan_item x = Inr y
                 \<and> \<not> nullish (field y ''title'') \<and> \<not> nullish (field y ''image_url'')
                 \<and> \<not> nullish (field y ''anime_id'') \<and> \<not> nullish (field y ''synopsis'')
                 \<and> field y ''title'' =
                      (if truthy (field x ''title'') then field x ''title'' else JStr ''Unknown'')
                 \<and> field y ''image_url'' =
                      (case find truthy [optp (optp (field x ''images'') ''jpg'') ''image_url'',
                                         optp (optp (field x ''images'') ''webp'') ''image_url''] of
                         Some v \<Rightarrow> v | None \<Rightarrow> JStr [])
                 \<and> field y ''synopsis'' =
                      (if truthy (field x ''synopsis'') then field x ''synopsis'' else JStr [])
                 \<and> field y ''anime_id'' = JStr (''mal-'' @ m))))
   \<and> (map_of kvs ''toString'' \<noteq> None \<longrightarrow> to_string (JObj kvs) = Inl TypeError)
   \<and> (primitive v \<longrightarrow> (\<exists>m. to_string v = Inr m))
   \<and> to_string JUndefined = Inr ''undefined''
   \<and> (mapGogo (JArr xs) = Inr r
        \<longleftrightarrow> (\<exists>ys. r = JArr ys \<and> list_all2 (\<lambda>x y. mapGogo_item x = Inr y) xs ys))
   \<and> (mapJikan (JArr xs) = Inr r
        \<longleftrightarrow> (\<exists>ys. r = JArr ys \<and> list_all2 (\<lambda>x y. mapJikan_item x = Inr y) xs ys))
   \<and> ((\<forall>x\<in>set xs. \<not> nullish x) \<longrightarrow>
        (\<exists>ys. mapGogo (JArr xs) = Inr (JArr ys) \<and> length ys = length xs))
   \<and> ((\<forall>x\<in>set xs. \<not> nullish x \<and> (\<exists>m. to_string (field x ''mal_id'') = Inr m)) \<longrightarrow>
        (\<exists>ys. mapJikan (JArr xs) = Inr (JArr ys) \<and> length ys = length xs))"
proof -
  have i: "\<not> nullish (field (mapItem a) ''id'') \<and> \<not> nullish (field (mapItem a) ''title'')
      \<and> \<not> nullish (field (mapItem a) ''cover'') \<and> \<not> nullish (field (mapItem a) ''tags'')
      \<and> field (mapItem a) ''synopsis'' = JUndefined
      \<and> field (mapItem a) ''title'' =
           (case find truthy [optp a ''title'', optp a ''name'', optp a ''animeTitle''] of
              Some v \<Rightarrow> v | None \<Rightarrow> JStr [])
      \<and> field (mapItem a) ''cover'' =
           (case find truthy [optp a ''cover'', optp a ''image_url'', optp a ''image'',
                              optp a ''img'', optp a ''poster'', optp a ''pic''] of
              Some v \<Rightarrow> v | None \<Rightarrow> JStr [])"
    using mapItem_fields [of a] mapItem_chains [of a] by blast
  have n: "nullish x \<longrightarrow> mapGogo_item x = Inl TypeError \<and> mapJikan_item x = Inl TypeError"
    by (simp add: mapGogo_item_def mapJikan_item_def)
  have go: "\<not> nullish x \<longrightarrow>
        (\<exists>y. mapGogo_item x = Inr y
           \<and> \<not> nullish (field y ''title'') \<and> \<not> nullish (field y ''image_url'')
           \<and> \<not> nullish (field y ''anime_id'') \<and> \<not> nullish (field y ''synopsis'')
           \<and> field y ''title'' =
                (case find truthy [field x ''title'', field x ''name''] of
                   Some v \<Rightarrow> v | None \<Rightarrow> JStr ''Unknown'')
           \<and> field y ''image_url'' =
                (case find truthy [field x ''image'', field x ''poster'', field x ''image_url''] of
                   Some v \<Rightarrow> v | None \<Rightarrow> JStr [])
           \<and> field y ''synopsis'' =
                (case find truthy [field x ''description'', field x ''synopsis''] of
                   Some v \<Rightarrow> v | None \<Rightarrow> JStr []))"
    using mapGogo_item_ok [of x] by blast
  have j: "\<not> nullish x \<longrightarrow>
      (case to_string (field x ''mal_id'') of
            Inl e \<Rightarrow> mapJikan_item x = Inl e
          | Inr m \<Rightarrow>
              (\<exists>y. mapJikan_item x = Inr y
                 \<and> \<not> nullish (field y ''title'') \<and> \<not> nullish (field y ''image_url'')
                 \<and> \<not> nullish (field y ''anime_id'') \<and> \<not> nullish (field y ''synopsis'')
                 \<and> field y ''title'' =
                      (if truthy (field x ''title'') then field x ''title'' else JStr ''Unknown'')
                 \<and> field y ''image_url'' =
                      (case find truthy [optp (optp (field x ''images'') ''jpg'') ''image_url'',
                                         optp (optp (field x ''images'') ''webp'') ''image_url''] of
                         Some v \<Rightarrow> v | None \<Rightarrow> JStr [])
                 \<and> field y ''synopsis'' =
                      (if truthy (field x ''synopsis'') then field x ''synopsis'' else JStr [])
                 \<and> field y ''anime_id'' = JStr (''mal-'' @ m)))"
    using mapJikan_item_cases [of x] by (rule impI)
  have t: "map_of kvs ''toString'' \<noteq> None \<longrightarrow> to_string (JObj kvs) = Inl TypeError"
    by auto
  have p: "primitive v \<longrightarrow> (\<exists>m. to_string v = Inr m)"
    using to_string_primitive by blast
  have u: "to_string JUndefined = Inr ''undefined''"
    by simp
  have g: "\<forall>x\<in>set xs. \<not> nullish x \<Longrightarrow> \<forall>x\<in>set xs. \<exists>y. mapGogo_item x = Inr y"
    using mapGogo_item_ok by blast
  have k: "\<forall>x\<in>set xs. \<not> nullish x \<and> (\<exists>m. to_string (field x ''mal_id'') = Inr m)
      \<Longrightarrow> \<forall>x\<in>set xs. \<exists>y. mapJikan_item x = Inr y"
    using mapJikan_item_ok by blast
  have lg: "(\<forall>x\<in>set xs. \<not> nullish x) \<longrightarrow>
        (\<exists>ys. mapGogo (JArr xs) = Inr (JArr ys) \<and> length ys = length xs)"
    unfolding mapGogo_def using map_items_total [of xs mapGogo_item] g by blast
  have lj: "(\<forall>x\<in>set xs. \<not> nullish x \<and> (\<exists>m. to_string (field x ''mal_id'') = Inr m)) \<longrightarrow>
        (\<exists>ys. mapJikan (JArr xs) = Inr (JArr ys) \<and> length ys = length xs)"
    unfolding mapJikan_def using map_items_total [of xs mapJikan_item] k by blast
  have ag: "mapGogo (JArr xs) = Inr r
        \<longleftrightarrow> (\<exists>ys. r = JArr ys \<and> list_all2 (\<lambda>x y. mapGogo_item x = Inr y) xs ys)"
    unfolding mapGogo_def by (rule map_items_array)
  have aj: "mapJikan (JArr xs) = Inr r
        \<longleftrightarrow> (\<exists>ys. r = JArr ys \<and> list_all2 (\<lambda>x y. mapJikan_item x = Inr y) xs ys)"
    unfolding mapJikan_def by (rule map_items_array)
  show ?thesis
    by (rule conjI [OF i], rule conjI [OF n], rule conjI [OF go], rule conjI [OF j],
        rule conjI [OF t], rule conjI [OF p], rule conjI [OF u], rule conjI [OF ag],
        rule conjI [OF aj], rule conjI [OF lg], rule lj)
qed

theorem normalizers_total_witness:
  "mapItem JNull = JObj [(''id'', JStr []), (''title'', JStr []), (''cover'', JStr []),
                         (''tags'', JArr [])]
   \<and> \<not> nullish (field (mapItem JNull) ''title'')
   \<and> mapGogo_item JNull = Inl TypeError
   \<and> mapGogo (JArr [JObj []])
       = Inr (JArr [JObj [(''title'', JStr ''Unknown''), (''image_url'', JStr []),
                          (''anime_id'', JStr []), (''synopsis'', JStr [])]])
   \<and> (\<exists>y. mapJikan_item (JObj []) = Inr y
        \<and> field y ''title'' = JStr ''Unknown'' \<and> field y ''synopsis'' = JStr []
        \<and> field y ''anime_id'' = JStr ''mal-undefined'')
   \<and> to_string (JObj [(''toString'', JNum ''1'')]) = Inl TypeError
   \<and> to_string (JNum ''1e+21'') = Inr ''1e+21''"
  using normalizers_total [of JNull "JObj []" "[(''toString'', JNum ''1'')]" "JNum ''1e+21''"
      "[JObj []]" "JArr [JObj [(''title'', JStr ''Unknown''), (''image_url'', JStr []),
                          (''anime_id'', JStr []), (''synopsis'', JStr [])]]"]
    normalizers_total [of JNull JNull "[(''toString'', JNum ''1'')]" "JNum ''1e+21''" "[]" "JArr []"]
  by (simp add: mapItem_def mapGogo_def map_items_def mapGogo_item_def mapJikan_item_def optp_def
      primitive_def)

section \<open>The cache\<close>

lemma filter_absent: "k \<notin> set (map fst es) \<Longrightarrow> filter (\<lambda>e. fst e \<noteq> k) es = es"
  by (induction es) auto

lemma lru_set_at_capacity:
  assumes "length (entries c) = lmax c" and "k \<notin> set (lru_keys c)"
  shows "entries (lru_set c t k v ttl)
           = (k, v, t + (case ttl of None \<Rightarrow> lttl c | Some n \<Rightarrow> n)) # butlast (entries c)"
  using assms by (simp add: lru_set_def lru_keys_def filter_absent Let_def)

lemma lru_set_keys_at_capacity:
  assumes "length (entries c) = lmax c" and "k \<notin> set (lru_keys c)"
  shows "lru_keys (lru_set c t k v ttl) = k # butlast (lru_keys c)"
  using lru_set_at_capacity [OF assms] by (simp add: lru_keys_def map_butlast)

lemma set_butlast_distinct:
  assumes "distinct ks" and "ks \<noteq> []"
  shows "set (butlast ks) = set ks - {last ks}"
proof -
  have "ks = butlast ks @ [last ks]" using assms by simp
  then have "distinct (butlast ks @ [last ks])" "set ks = set (butlast ks) \<union> {last ks}"
    using assms(1) by (metis, metis set_append list.set(1) list.set(2))
  then show ?thesis by auto
qed

lemma lru_find_distinct:
  assumes "(k, v, ex) \<in> set (entries c)" and "distinct (lru_keys c)"
  shows "lru_find c k = Some (k, v, ex)"
proof -
  have "\<And>es. (k, v, ex) \<in> set es \<Longrightarrow> distinct (map fst es) \<Longrightarrow> find (\<lambda>e. fst e = k) es = Some (k, v, ex)"
  proof -
    fix es show "(k, v, ex) \<in> set es \<Longrightarrow> distinct (map fst es) \<Longrightarrow> find (\<lambda>e. fst e = k) es = Some (k, v, ex)"
      by (induction es) (auto simp: rev_image_eqI)
  qed
  then show ?thesis using assms by (simp add: lru_find_def lru_keys_def)
qed

lemma lru_expired:
  assumes "(k, v, ex) \<in> set (entries c)" and "distinct (lru_keys c)" and "ex < t"
  shows "\<not> lru_has c t k" "fst (lru_get c t k) = JUndefined"
    "k \<notin> set (lru_keys (snd (lru_get c t k)))"
  using lru_find_distinct [OF assms(1,2)] assms(3)
  by (auto simp: lru_has_def lru_get_def lru_keys_def Let_def)

lemma lru_get_front:
  assumes "lru_has c t k"
  shows "hd (lru_keys (snd (lru_get c t k))) = k"
  using assms by (auto simp: lru_has_def lru_get_def lru_keys_def Let_def split: option.splits)

lemma distinct_filter_keys: "distinct (map fst es) \<Longrightarrow> distinct (map fst (filter P es))"
  by (induction es) auto

lemma lru_set_inv:
  assumes "lru_inv c"
  shows "lru_inv (lru_set c t k v ttl)"
proof -
  let ?o = "filter (\<lambda>e. fst e \<noteq> k) (entries c)"
  let ?kept = "if length ?o < lmax c then ?o else butlast ?o"
  have d: "distinct (map fst ?o)" using assms by (simp add: lru_inv_def lru_keys_def distinct_filter_keys)
  have nk: "k \<notin> set (map fst ?o)" by auto
  have dk: "distinct (map fst ?kept)" using d by (simp add: map_butlast distinct_butlast)
  have nkk: "k \<notin> set (map fst ?kept)" using nk by (auto dest: in_set_butlastD)
  have "length ?o \<le> lmax c" using assms length_filter_le [of _ "entries c"] by (simp add: lru_inv_def) (meson le_trans length_filter_le)
  then have len: "Suc (length ?kept) \<le> lmax c" using assms by (auto simp: lru_inv_def)
  show ?thesis using dk nkk len assms
    by (simp add: lru_inv_def lru_set_def lru_keys_def Let_def)
qed

lemma lru_get_inv:
  assumes "lru_inv c"
  shows "lru_inv (snd (lru_get c t k))"
proof (cases "lru_find c k")
  case None then show ?thesis using assms by (simp add: lru_get_def)
next
  case (Some e)
  obtain k' v ex where e: "e = (k', v, ex)" by (cases e)
  let ?o = "filter (\<lambda>e. fst e \<noteq> k) (entries c)"
  have d: "distinct (map fst ?o)" using assms by (simp add: lru_inv_def lru_keys_def distinct_filter_keys)
  have nk: "k \<notin> set (map fst ?o)" by auto
  have "e \<in> set (entries c)" "fst e = k" using Some by (auto simp: lru_find_def find_Some_iff)
  then have "length ?o < length (entries c)"
    by (metis (mono_tags, lifting) length_filter_less)
  then have "Suc (length ?o) \<le> lmax c" using assms by (simp add: lru_inv_def)
  then show ?thesis using Some e d nk assms
    by (auto simp: lru_inv_def lru_get_def lru_keys_def Let_def)
qed

lemma jikan_unfold:
  "jikan E path s =
     (if lru_has (cache s) (clock E) (jikan_key path) then
        (Inr (fst (lru_get (cache s) (clock E) (jikan_key path))),
         s\<lparr>cache := snd (lru_get (cache s) (clock E) (jikan_key path))\<rparr>)
      else
        (case net E (jikan_url path) of
           NetFail e \<Rightarrow> (Inl e, s\<lparr>calls := calls s @ [Fetch (jikan_url path)]\<rparr>)
         | Response r_ok r_status r_json \<Rightarrow>
             if \<not> r_ok then
               (Inl (Exn ''Error'' (''Jikan '' @ show_nat r_status)),
                s\<lparr>calls := calls s @ [Fetch (jikan_url path)]\<rparr>)
             else
               (case r_json of
                  Inl e \<Rightarrow> (Inl e, s\<lparr>calls := calls s @ [Fetch (jikan_url path)]\<rparr>)
                | Inr j \<Rightarrow>
                    (Inr j,
                     s\<lparr>calls := calls s @ [Fetch (jikan_url path)],
                       cache := lru_set (cache s) (clock E) (jikan_key path) j (Some 180000)\<rparr>))))"
  unfolding jikan_def jikan_key_def jikan_url_def Let_def
  by (simp split: prod.splits http_result.splits sum.splits)

lemma jikan_inv:
  assumes "lru_inv (cache s)"
  shows "lru_inv (cache (snd (jikan E path s)))"
  unfolding jikan_unfold
  using assms lru_get_inv [OF assms] lru_set_inv [OF assms]
  by (simp split: http_result.splits sum.splits)

lemma init_inv: "lru_inv cache_init" "lmax cache_init = 300" "lttl cache_init = 5 * 60 * 1000"
  by (simp_all add: cache_init_def lru_new_def lru_inv_def lru_keys_def)

lemma replicate_inj: "inj_on (\<lambda>i. replicate (Suc i) c) A"
  by (rule inj_onI) (metis length_replicate nat.inject)

lemma full_cache_facts:
  "lmax full_cache = 300" "length (entries full_cache) = 300" "distinct (lru_keys full_cache)"
  "''jk:x'' \<notin> set (lru_keys full_cache)"
  "last (lru_keys full_cache) = replicate 300 CHR ''k''"
proof -
  show "lmax full_cache = 300" "length (entries full_cache) = 300"
    by (simp_all add: full_cache_def)
  have k: "lru_keys full_cache = map (\<lambda>i. replicate (Suc i) CHR ''k'') [0..<300]"
    by (simp add: full_cache_def lru_keys_def comp_def del: replicate.simps replicate_Suc)
  show "distinct (lru_keys full_cache)"
    unfolding k by (simp add: distinct_map replicate_inj del: replicate.simps replicate_Suc)
  show "''jk:x'' \<notin> set (lru_keys full_cache)"
    unfolding k by auto
  have "last (map (\<lambda>i. replicate (Suc i) CHR ''k'') [0..<300]) = replicate (Suc 299) CHR ''k''"
    by (simp add: last_map del: replicate.simps replicate_Suc)
  then show "last (lru_keys full_cache) = replicate 300 CHR ''k''"
    unfolding k by (simp del: replicate.simps replicate_Suc)
qed

lemma jikan_lmax: "lmax (cache (snd (jikan E path s))) = lmax (cache s)"
  unfolding jikan_unfold
  by (simp add: lru_get_def lru_set_def Let_def split: http_result.splits sum.splits option.splits)

lemma jikan_store:
  assumes "\<not> lru_has (cache s) (clock E) (jikan_key path)"
    and "net E (jikan_url path) = Response True st (Inr j)"
  shows "fst (jikan E path s) = Inr j"
    "hd (entries (cache (snd (jikan E path s)))) = (jikan_key path, j, clock E + 180000)"
    "lru_find (cache (snd (jikan E path s))) (jikan_key path)
       = Some (jikan_key path, j, clock E + 180000)"
    "calls (snd (jikan E path s)) = calls s @ [Fetch (jikan_url path)]"
  using assms unfolding jikan_unfold by (simp_all add: lru_set_def lru_find_def Let_def)

lemma filter_keys: "map fst (filter (\<lambda>e. fst e \<noteq> k) es) = filter (\<lambda>x. x \<noteq> k) (map fst es)"
  by (induction es) auto

lemma length_filter_present:
  assumes "(k, v, ex) \<in> set es" and "distinct (map fst es)"
  shows "Suc (length (filter (\<lambda>e. fst e \<noteq> k) es)) = length es"
  using assms
proof (induction es)
  case Nil
  then show ?case by simp
next
  case (Cons e es)
  show ?case
  proof (cases "fst e = k")
    case True
    then have "k \<notin> set (map fst es)" using Cons.prems(2) by auto
    then show ?thesis using True by (simp add: filter_absent)
  next
    case False
    then have "(k, v, ex) \<in> set es" using Cons.prems(1) by auto
    then show ?thesis using False Cons by simp
  qed
qed

lemma lru_get_live:
  assumes "(k, v, ex) \<in> set (entries c)" and "distinct (lru_keys c)" and "t \<le> ex"
  shows "lru_has c t k"
    "lru_get c t k = (v, c\<lparr>entries := (k, v, ex) # filter (\<lambda>e. fst e \<noteq> k) (entries c)\<rparr>)"
    "lru_keys (snd (lru_get c t k)) = k # filter (\<lambda>x. x \<noteq> k) (lru_keys c)"
  using lru_find_distinct [OF assms(1,2)] assms(3)
  by (simp_all add: lru_has_def lru_get_def lru_keys_def Let_def filter_keys)

lemma lru_get_expired:
  assumes "(k, v, ex) \<in> set (entries c)" and "distinct (lru_keys c)" and "ex < t"
  shows "lru_get c t k = (JUndefined, c\<lparr>entries := filter (\<lambda>e. fst e \<noteq> k) (entries c)\<rparr>)"
  using lru_find_distinct [OF assms(1,2)] assms(3) by (simp add: lru_get_def Let_def)

lemma find_Some_mem: "find P xs = Some x \<Longrightarrow> x \<in> set xs \<and> P x"
  by (induction xs) (auto split: if_splits)

lemma lru_find_absent:
  assumes "k \<notin> set (lru_keys c)"
  shows "lru_find c k = None"
proof -
  have "\<forall>e\<in>set (entries c). fst e \<noteq> k"
    using assms by (auto simp: lru_keys_def)
  then show ?thesis
    by (auto simp: lru_find_def find_None_iff)
qed

lemma lru_get_absent:
  assumes "k \<notin> set (lru_keys c)"
  shows "\<not> lru_has c t k" "lru_get c t k = (JUndefined, c)"
  using lru_find_absent [OF assms] by (simp_all add: lru_has_def lru_get_def)

lemma lru_has_iff:
  assumes "distinct (lru_keys c)"
  shows "lru_has c t k \<longleftrightarrow> (\<exists>v ex. (k, v, ex) \<in> set (entries c) \<and> t \<le> ex)"
proof
  assume "lru_has c t k"
  then obtain k' v ex where f: "lru_find c k = Some (k', v, ex)" and l: "t \<le> ex"
    by (auto simp: lru_has_def split: option.splits)
  from f have "(k', v, ex) \<in> set (entries c)" and "k' = k"
    using find_Some_mem [of "\<lambda>e. fst e = k" "entries c" "(k', v, ex)"]
    by (auto simp: lru_find_def)
  with l show "\<exists>v ex. (k, v, ex) \<in> set (entries c) \<and> t \<le> ex"
    by blast
next
  assume "\<exists>v ex. (k, v, ex) \<in> set (entries c) \<and> t \<le> ex"
  then show "lru_has c t k"
    using lru_get_live(1) [OF _ assms] by blast
qed

lemma lru_set_below:
  assumes "k \<notin> set (lru_keys c)" and "length (entries c) < lmax c"
  shows "entries (lru_set c t k v ttl)
           = (k, v, t + (case ttl of None \<Rightarrow> lttl c | Some n \<Rightarrow> n)) # entries c"
  using assms by (simp add: lru_set_def lru_keys_def filter_absent Let_def)

lemma lru_set_present:
  assumes "lru_inv c" and "k \<in> set (lru_keys c)"
  shows "entries (lru_set c t k v ttl)
           = (k, v, t + (case ttl of None \<Rightarrow> lttl c | Some n \<Rightarrow> n))
               # filter (\<lambda>e. fst e \<noteq> k) (entries c)"
proof -
  obtain v' ex where m: "(k, v', ex) \<in> set (entries c)"
    using assms(2) by (auto simp: lru_keys_def)
  have d: "distinct (map fst (entries c))"
    using assms(1) by (simp add: lru_inv_def lru_keys_def)
  have "length (filter (\<lambda>e. fst e \<noteq> k) (entries c)) < lmax c"
    using length_filter_present [OF m d] assms(1) by (simp add: lru_inv_def)
  then show ?thesis
    by (simp add: lru_set_def Let_def)
qed

text \<open>A key that was just read is the last that later insertions evict: in a full cache the
  next insertion drops the last of the other keys.\<close>

lemma lru_read_then_insert:
  assumes "distinct (lru_keys c)" and "length (entries c) = lmax c" and "1 < lmax c"
    and "(k', v', ex) \<in> set (entries c)" and "t \<le> ex" and "k \<notin> set (lru_keys c)"
  shows "lru_keys (lru_set (snd (lru_get c t k')) t2 k v ttl)
           = k # k' # butlast (filter (\<lambda>x. x \<noteq> k') (lru_keys c))"
proof -
  let ?o = "filter (\<lambda>e. fst e \<noteq> k') (entries c)"
  let ?c = "c\<lparr>entries := (k', v', ex) # ?o\<rparr>"
  have g: "snd (lru_get c t k') = ?c"
    using lru_get_live(2) [OF assms(4,1,5)] by simp
  have d: "distinct (map fst (entries c))"
    using assms(1) by (simp add: lru_keys_def)
  have len: "Suc (length ?o) = length (entries c)"
    by (rule length_filter_present [OF assms(4) d])
  have ne: "?o \<noteq> []"
    using len assms(2,3) by auto
  have kk: "k \<noteq> k'"
    using assms(4,6) by (force simp: lru_keys_def)
  have "k \<notin> set (map fst ?o)"
    using assms(6) by (auto simp: lru_keys_def)
  then have nk: "k \<notin> set (lru_keys ?c)"
    using kk by (simp add: lru_keys_def)
  have full: "length (entries ?c) = lmax ?c"
    using len assms(2) by simp
  have "lru_keys (lru_set ?c t2 k v ttl) = k # butlast (lru_keys ?c)"
    by (rule lru_set_keys_at_capacity [OF full nk])
  also have "lru_keys ?c = k' # filter (\<lambda>x. x \<noteq> k') (lru_keys c)"
    by (simp add: lru_keys_def filter_keys)
  also have "butlast (k' # filter (\<lambda>x. x \<noteq> k') (lru_keys c))
               = k' # butlast (filter (\<lambda>x. x \<noteq> k') (lru_keys c))"
    using ne by (simp add: lru_keys_def filter_keys [symmetric])
  finally show ?thesis
    using g by simp
qed

lemma jikan_hit_live:
  assumes "(jikan_key path, v, ex) \<in> set (entries (cache s))"
    and "distinct (lru_keys (cache s))" and "clock E \<le> ex"
  shows "fst (jikan E path s) = Inr v"
    "calls (snd (jikan E path s)) = calls s"
    "lru_keys (cache (snd (jikan E path s)))
       = jikan_key path # filter (\<lambda>x. x \<noteq> jikan_key path) (lru_keys (cache s))"
  unfolding jikan_unfold using lru_get_live [OF assms] by simp_all

lemma jikan_miss_store:
  assumes "\<not> lru_has (cache s) (clock E) (jikan_key path)"
    and "net E (jikan_url path) = Response True st (Inr j)"
  shows "cache (snd (jikan E path s))
           = lru_set (cache s) (clock E) (jikan_key path) j (Some (3 * 60 * 1000))"
  using assms unfolding jikan_unfold by simp

lemma server_warm_eq:
  "server_warm =
      \<lparr>cache = \<lparr>lmax = 300, lttl = 300000,
                 entries = [(''jk:https://api.jikan.moe/v4/anime/21'', jikan_body, 180000)]\<rparr>,
       logs = [],
       calls = [Fetch ''https://api.jikan.moe/v4/anime/21'']\<rparr>"
  by (simp add: server_warm_def jikan_def env_jikan_def server_init_def cache_init_def
      lru_new_def lru_has_def lru_find_def lru_set_def Let_def)

text \<open>
  C6. The cache is created empty with capacity 300 and a default TTL of 5 minutes, and
  \<^verbatim>\<open>jikan\<close> stores each lookup with a TTL of 3 minutes. Every cache the server reaches keeps
  distinct keys and at most 300 entries.

  The entries are in recency order, the most recently used first. An insertion puts the new
  entry at the front and leaves the order of the others as it was: below capacity all of them
  stay; in a cache holding 300 entries, inserting a key that is not among them evicts exactly
  the least-recently-used one, the last, and keeps the other 299 in order; writing a key that
  is present replaces its entry and evicts nothing. A read of a live entry returns its value,
  moves it to the front and leaves the order of the others as it was, so that in a full cache
  the insertion after a read keeps the key that was read and evicts the last of the others.
  On read, an entry past its expiry time is absent, wherever it stands in the recency order,
  and it is removed; a key that is not in the cache is absent and the cache stays as it was.

  In the server, a lookup that finds a live entry returns its value without a request and
  moves its key to the front; a lookup that finds none and gets an OK response inserts the
  body, which expires 3 minutes later.
\<close>

theorem cache_bounded_lru_ttl:
  "cache_init = \<lparr>lmax = 300, lttl = 5 * 60 * 1000, entries = []\<rparr> \<and> lru_inv cache_init
   \<and> (lru_inv (cache s) \<longrightarrow>
        lru_inv (cache (snd (jikan E path s)))
        \<and> lmax (cache (snd (jikan E path s))) = lmax (cache s))
   \<and> (k \<notin> set (lru_keys c) \<and> length (entries c) < lmax c \<longrightarrow>
        entries (lru_set c t k v ttl)
          = (k, v, t + (case ttl of None \<Rightarrow> lttl c | Some n \<Rightarrow> n)) # entries c)
   \<and> (k \<notin> set (lru_keys c) \<and> length (entries c) = lmax c \<longrightarrow>
        entries (lru_set c t k v ttl)
          = (k, v, t + (case ttl of None \<Rightarrow> lttl c | Some n \<Rightarrow> n)) # butlast (entries c))
   \<and> (lru_inv c \<and> k \<in> set (lru_keys c) \<longrightarrow>
        entries (lru_set c t k v ttl)
          = (k, v, t + (case ttl of None \<Rightarrow> lttl c | Some n \<Rightarrow> n))
              # filter (\<lambda>e. fst e \<noteq> k) (entries c))
   \<and> (lmax c = 300 \<and> length (entries c) = 300 \<and> distinct (lru_keys c) \<and> k \<notin> set (lru_keys c) \<longrightarrow>
        lru_keys (lru_set c t k v ttl) = k # butlast (lru_keys c)
        \<and> set (lru_keys (lru_set c t k v ttl)) = insert k (set (lru_keys c) - {last (lru_keys c)})
        \<and> length (entries (lru_set c t k v ttl)) = 300)
   \<and> ((k', v', ex) \<in> set (entries c) \<and> distinct (lru_keys c) \<and> t \<le> ex \<longrightarrow>
        lru_has c t k'
        \<and> lru_get c t k'
            = (v', c\<lparr>entries := (k', v', ex) # filter (\<lambda>e. fst e \<noteq> k') (entries c)\<rparr>)
        \<and> lru_keys (snd (lru_get c t k')) = k' # filter (\<lambda>x. x \<noteq> k') (lru_keys c))
   \<and> ((k', v', ex) \<in> set (entries c) \<and> distinct (lru_keys c) \<and> ex < t \<longrightarrow>
        \<not> lru_has c t k' \<and> fst (lru_get c t k') = JUndefined
        \<and> lru_get c t k' = (JUndefined, c\<lparr>entries := filter (\<lambda>e. fst e \<noteq> k') (entries c)\<rparr>)
        \<and> k' \<notin> set (lru_keys (snd (lru_get c t k'))))
   \<and> (k' \<notin> set (lru_keys c) \<longrightarrow> \<not> lru_has c t k' \<and> lru_get c t k' = (JUndefined, c))
   \<and> (distinct (lru_keys c) \<longrightarrow>
        lru_has c t k' = (\<exists>v ex. (k', v, ex) \<in> set (entries c) \<and> t \<le> ex))
   \<and> (lru_has c t k' \<longrightarrow> hd (lru_keys (snd (lru_get c t k'))) = k')
   \<and> (distinct (lru_keys c) \<and> length (entries c) = lmax c \<and> 1 < lmax c
        \<and> (k', v', ex) \<in> set (entries c) \<and> t \<le> ex \<and> k \<notin> set (lru_keys c) \<longrightarrow>
        lru_keys (lru_set (snd (lru_get c t k')) t2 k v ttl)
          = k # k' # butlast (filter (\<lambda>x. x \<noteq> k') (lru_keys c)))
   \<and> hd (entries (lru_set c t k v None)) = (k, v, t + lttl c)
   \<and> ((jikan_key path, v', ex) \<in> set (entries (cache s)) \<and> distinct (lru_keys (cache s))
        \<and> clock E \<le> ex \<longrightarrow>
        fst (jikan E path s) = Inr v' \<and> calls (snd (jikan E path s)) = calls s
        \<and> lru_keys (cache (snd (jikan E path s)))
            = jikan_key path # filter (\<lambda>x. x \<noteq> jikan_key path) (lru_keys (cache s)))
   \<and> (\<not> lru_has (cache s) (clock E) (jikan_key path)
        \<and> net E (jikan_url path) = Response True st (Inr j) \<longrightarrow>
        cache (snd (jikan E path s))
          = lru_set (cache s) (clock E) (jikan_key path) j (Some (3 * 60 * 1000))
        \<and> hd (entries (cache (snd (jikan E path s)))) = (jikan_key path, j, clock E + 3 * 60 * 1000))"
proof -
  have init: "cache_init = \<lparr>lmax = 300, lttl = 5 * 60 * 1000, entries = []\<rparr>"
    by (simp add: cache_init_def lru_new_def)
  have inv: "lru_inv (cache s) \<longrightarrow>
        lru_inv (cache (snd (jikan E path s)))
        \<and> lmax (cache (snd (jikan E path s))) = lmax (cache s)"
    using jikan_inv [of s E path] jikan_lmax [of E path s] by blast
  have below: "k \<notin> set (lru_keys c) \<and> length (entries c) < lmax c \<longrightarrow>
        entries (lru_set c t k v ttl)
          = (k, v, t + (case ttl of None \<Rightarrow> lttl c | Some n \<Rightarrow> n)) # entries c"
    using lru_set_below [of k c t v ttl] by blast
  have at: "k \<notin> set (lru_keys c) \<and> length (entries c) = lmax c \<longrightarrow>
        entries (lru_set c t k v ttl)
          = (k, v, t + (case ttl of None \<Rightarrow> lttl c | Some n \<Rightarrow> n)) # butlast (entries c)"
    using lru_set_at_capacity [of c k t v ttl] by blast
  have present: "lru_inv c \<and> k \<in> set (lru_keys c) \<longrightarrow>
        entries (lru_set c t k v ttl)
          = (k, v, t + (case ttl of None \<Rightarrow> lttl c | Some n \<Rightarrow> n))
              # filter (\<lambda>e. fst e \<noteq> k) (entries c)"
    using lru_set_present [of c k t v ttl] by blast
  have evict: "lmax c = 300 \<and> length (entries c) = 300 \<and> distinct (lru_keys c)
        \<and> k \<notin> set (lru_keys c) \<longrightarrow>
        lru_keys (lru_set c t k v ttl) = k # butlast (lru_keys c)
        \<and> set (lru_keys (lru_set c t k v ttl)) = insert k (set (lru_keys c) - {last (lru_keys c)})
        \<and> length (entries (lru_set c t k v ttl)) = 300"
  proof (intro impI, elim conjE)
    assume a: "lmax c = 300" "length (entries c) = 300" "distinct (lru_keys c)"
      "k \<notin> set (lru_keys c)"
    have full: "length (entries c) = lmax c" using a by simp
    have ne: "lru_keys c \<noteq> []" using a(2) by (auto simp: lru_keys_def)
    have keys: "lru_keys (lru_set c t k v ttl) = k # butlast (lru_keys c)"
      by (rule lru_set_keys_at_capacity [OF full a(4)])
    have "length (entries (lru_set c t k v ttl)) = 300"
      using lru_set_at_capacity [OF full a(4), of t v ttl] a(2) by simp
    with keys set_butlast_distinct [OF a(3) ne]
    show "lru_keys (lru_set c t k v ttl) = k # butlast (lru_keys c)
        \<and> set (lru_keys (lru_set c t k v ttl)) = insert k (set (lru_keys c) - {last (lru_keys c)})
        \<and> length (entries (lru_set c t k v ttl)) = 300"
      by simp
  qed
  have live: "(k', v', ex) \<in> set (entries c) \<and> distinct (lru_keys c) \<and> t \<le> ex \<longrightarrow>
        lru_has c t k'
        \<and> lru_get c t k'
            = (v', c\<lparr>entries := (k', v', ex) # filter (\<lambda>e. fst e \<noteq> k') (entries c)\<rparr>)
        \<and> lru_keys (snd (lru_get c t k')) = k' # filter (\<lambda>x. x \<noteq> k') (lru_keys c)"
    using lru_get_live [of k' v' ex c t] by blast
  have expired: "(k', v', ex) \<in> set (entries c) \<and> distinct (lru_keys c) \<and> ex < t \<longrightarrow>
        \<not> lru_has c t k' \<and> fst (lru_get c t k') = JUndefined
        \<and> lru_get c t k' = (JUndefined, c\<lparr>entries := filter (\<lambda>e. fst e \<noteq> k') (entries c)\<rparr>)
        \<and> k' \<notin> set (lru_keys (snd (lru_get c t k')))"
    using lru_expired [of k' v' ex c t] lru_get_expired [of k' v' ex c t] by blast
  have absent: "k' \<notin> set (lru_keys c) \<longrightarrow> \<not> lru_has c t k' \<and> lru_get c t k' = (JUndefined, c)"
    using lru_get_absent [of k' c t] by blast
  have has: "distinct (lru_keys c) \<longrightarrow>
        lru_has c t k' = (\<exists>v ex. (k', v, ex) \<in> set (entries c) \<and> t \<le> ex)"
    using lru_has_iff [of c t k'] by blast
  have front: "lru_has c t k' \<longrightarrow> hd (lru_keys (snd (lru_get c t k'))) = k'"
    using lru_get_front [of c t k'] by blast
  have after: "distinct (lru_keys c) \<and> length (entries c) = lmax c \<and> 1 < lmax c
        \<and> (k', v', ex) \<in> set (entries c) \<and> t \<le> ex \<and> k \<notin> set (lru_keys c) \<longrightarrow>
        lru_keys (lru_set (snd (lru_get c t k')) t2 k v ttl)
          = k # k' # butlast (filter (\<lambda>x. x \<noteq> k') (lru_keys c))"
    using lru_read_then_insert [of c k' v' ex t k t2 v ttl] by blast
  have dflt: "hd (entries (lru_set c t k v None)) = (k, v, t + lttl c)"
    by (simp add: lru_set_def Let_def)
  have hit: "(jikan_key path, v', ex) \<in> set (entries (cache s)) \<and> distinct (lru_keys (cache s))
        \<and> clock E \<le> ex \<longrightarrow>
        fst (jikan E path s) = Inr v' \<and> calls (snd (jikan E path s)) = calls s
        \<and> lru_keys (cache (snd (jikan E path s)))
            = jikan_key path # filter (\<lambda>x. x \<noteq> jikan_key path) (lru_keys (cache s))"
    using jikan_hit_live [of path v' ex s E] by blast
  have store: "\<not> lru_has (cache s) (clock E) (jikan_key path)
        \<and> net E (jikan_url path) = Response True st (Inr j) \<longrightarrow>
        cache (snd (jikan E path s))
          = lru_set (cache s) (clock E) (jikan_key path) j (Some (3 * 60 * 1000))
        \<and> hd (entries (cache (snd (jikan E path s)))) = (jikan_key path, j, clock E + 3 * 60 * 1000)"
    using jikan_store(2) [of s E path st j] jikan_miss_store [of s E path st j] by simp
  show ?thesis
    by (rule conjI [OF init], rule conjI [OF init_inv(1)], rule conjI [OF inv],
        rule conjI [OF below], rule conjI [OF at], rule conjI [OF present],
        rule conjI [OF evict], rule conjI [OF live], rule conjI [OF expired],
        rule conjI [OF absent], rule conjI [OF has], rule conjI [OF front],
        rule conjI [OF after], rule conjI [OF dflt], rule conjI [OF hit], rule store)
qed

theorem cache_bounded_lru_ttl_witness:
  "lru_keys (lru_set full_cache 2000 ''jk:x'' JNull None) = ''jk:x'' # butlast (lru_keys full_cache)
   \<and> replicate 300 CHR ''k'' \<in> set (lru_keys full_cache)
   \<and> replicate 300 CHR ''k'' \<notin> set (lru_keys (lru_set full_cache 2000 ''jk:x'' JNull None))
   \<and> length (entries (lru_set full_cache 2000 ''jk:x'' JNull None)) = 300
   \<and> \<not> lru_has full_cache 2000 ''k''
   \<and> fst (lru_get full_cache 2000 ''k'') = JUndefined
   \<and> lru_has full_cache 1000 ''kk''
   \<and> fst (lru_get full_cache 1000 ''kk'') = JNull
   \<and> lru_keys (snd (lru_get full_cache 1000 ''kk''))
       = ''kk'' # filter (\<lambda>x. x \<noteq> ''kk'') (lru_keys full_cache)
   \<and> lru_keys (lru_set (snd (lru_get full_cache 1000 ''kk'')) 1000 ''jk:x'' JNull None)
       = ''jk:x'' # ''kk'' # butlast (filter (\<lambda>x. x \<noteq> ''kk'') (lru_keys full_cache))
   \<and> hd (entries (cache (snd (jikan env_jikan ''/anime/21'' server_init))))
       = (''jk:https://api.jikan.moe/v4/anime/21'', jikan_body, 180000)
   \<and> fst (jikan env_jikan ''/anime/21'' server_warm) = Inr jikan_body
   \<and> calls (snd (jikan env_jikan ''/anime/21'' server_warm)) = calls server_warm"
proof -
  have m: "(''k'', JNull, 1000) \<in> set (entries full_cache)"
    by (auto simp: full_cache_def intro!: image_eqI [where x = 0])
  have m2: "(''kk'', JNull, 1000) \<in> set (entries full_cache)"
    by (auto simp: full_cache_def intro!: image_eqI [where x = 1])
  have ne: "lru_keys full_cache \<noteq> []" using full_cache_facts(2) by (auto simp: lru_keys_def)
  have l: "replicate 300 CHR ''k'' \<in> set (lru_keys full_cache)"
    using last_in_set [OF ne] full_cache_facts(5) by simp
  have miss: "\<not> lru_has (cache server_init) (clock env_jikan) (jikan_key ''/anime/21'')"
    by (simp add: server_init_def cache_init_def lru_new_def lru_has_def lru_find_def)
  have resp: "net env_jikan (jikan_url ''/anime/21'') = Response True 200 (Inr jikan_body)"
    by (simp add: env_jikan_def)
  have c0: "clock env_jikan = 0" by (simp add: env_jikan_def)
  have w: "(jikan_key ''/anime/21'', jikan_body, 180000) \<in> set (entries (cache server_warm))"
    "distinct (lru_keys (cache server_warm))"
    by (simp_all add: server_warm_eq jikan_key_def jikan_url_def lru_keys_def)
  have ne2: "replicate 300 CHR ''k'' \<noteq> ''jk:x''"
    using l full_cache_facts(4) by metis
  note c2 = conjunct2
  note a = cache_bounded_lru_ttl [of server_init env_jikan "''/anime/21''" "''jk:x''" full_cache
        2000 JNull None "''k''" JNull 1000 1000 200 jikan_body]
  note b = cache_bounded_lru_ttl [of server_warm env_jikan "''/anime/21''" "''jk:x''" full_cache
        1000 JNull None "''kk''" jikan_body 180000 1000 200 jikan_body]
  note d = cache_bounded_lru_ttl [of server_warm env_jikan "''/anime/21''" "''jk:x''" full_cache
        1000 JNull None "''kk''" JNull 1000 1000 200 jikan_body]
  note evict = a [THEN c2, THEN c2, THEN c2, THEN c2, THEN c2, THEN c2, THEN conjunct1]
  note expired = a [THEN c2, THEN c2, THEN c2, THEN c2, THEN c2, THEN c2, THEN c2, THEN c2,
      THEN conjunct1]
  note live = d [THEN c2, THEN c2, THEN c2, THEN c2, THEN c2, THEN c2, THEN c2, THEN conjunct1]
  note after = d [THEN c2, THEN c2, THEN c2, THEN c2, THEN c2, THEN c2, THEN c2, THEN c2,
      THEN c2, THEN c2, THEN c2, THEN c2, THEN conjunct1]
  note hit = b [THEN c2, THEN c2, THEN c2, THEN c2, THEN c2, THEN c2, THEN c2, THEN c2,
      THEN c2, THEN c2, THEN c2, THEN c2, THEN c2, THEN c2, THEN conjunct1]
  note store = a [THEN c2, THEN c2, THEN c2, THEN c2, THEN c2, THEN c2, THEN c2, THEN c2,
      THEN c2, THEN c2, THEN c2, THEN c2, THEN c2, THEN c2, THEN c2]
  have k1: "lru_keys (lru_set full_cache 2000 ''jk:x'' JNull None) = ''jk:x'' # butlast (lru_keys full_cache)"
    "set (lru_keys (lru_set full_cache 2000 ''jk:x'' JNull None))
          = insert ''jk:x'' (set (lru_keys full_cache) - {last (lru_keys full_cache)})"
    "length (entries (lru_set full_cache 2000 ''jk:x'' JNull None)) = 300"
    using evict full_cache_facts(1-4) by blast+
  have out: "replicate 300 CHR ''k'' \<notin> set (lru_keys (lru_set full_cache 2000 ''jk:x'' JNull None))"
    unfolding k1(2) using ne2 full_cache_facts(5) by simp
  have k2: "\<not> lru_has full_cache 2000 ''k''" "fst (lru_get full_cache 2000 ''k'') = JUndefined"
    using expired m full_cache_facts(3) by simp_all
  have k3: "lru_has full_cache 1000 ''kk''"
    "lru_get full_cache 1000 ''kk''
       = (JNull, full_cache\<lparr>entries := (''kk'', JNull, 1000) # filter (\<lambda>e. fst e \<noteq> ''kk'') (entries full_cache)\<rparr>)"
    "lru_keys (snd (lru_get full_cache 1000 ''kk''))
       = ''kk'' # filter (\<lambda>x. x \<noteq> ''kk'') (lru_keys full_cache)"
    using live m2 full_cache_facts(3) order_refl [of "1000 :: nat"] by blast+
  have k4: "lru_keys (lru_set (snd (lru_get full_cache 1000 ''kk'')) 1000 ''jk:x'' JNull None)
       = ''jk:x'' # ''kk'' # butlast (filter (\<lambda>x. x \<noteq> ''kk'') (lru_keys full_cache))"
    using after m2 full_cache_facts(1-4) by simp
  have "hd (entries (cache (snd (jikan env_jikan ''/anime/21'' server_init))))
       = (jikan_key ''/anime/21'', jikan_body, clock env_jikan + 3 * 60 * 1000)"
    using store miss resp by blast
  then have k5: "hd (entries (cache (snd (jikan env_jikan ''/anime/21'' server_init))))
       = (jikan_key ''/anime/21'', jikan_body, 180000)"
    using c0 by simp
  have k6: "fst (jikan env_jikan ''/anime/21'' server_warm) = Inr jikan_body"
    "calls (snd (jikan env_jikan ''/anime/21'' server_warm)) = calls server_warm"
    using hit w c0 by auto
  have k7: "fst (lru_get full_cache 1000 ''kk'') = JNull"
    by (simp add: k3(2))
  show ?thesis
    using k1(1,3) l out k2 k3(1,3) k4 k5 k6 k7 by (simp add: jikan_key_def jikan_url_def)
qed

subsection \<open>What the cache holds\<close>

lemma tryGogoAliases_none:
  "gogo E = None \<Longrightarrow> tryGogoAliases a b m E page s = (JArr [], s)"
  by (simp add: tryGogoAliases_def)

lemma list_body_no_gogo:
  assumes "gogo E = None"
  shows "list_body (tryGogoAliases a b m) path E page s =
     (case jikan E (path @ page) s of
        (Inl e, s2) \<Rightarrow> (Inl e, s2)
      | (Inr jk, s2) \<Rightarrow>
          (case getp jk ''data'' of
             Inl e \<Rightarrow> (Inl e, s2)
           | Inr d \<Rightarrow> (case mapJikan d of Inl e \<Rightarrow> (Inl e, s2) | Inr r \<Rightarrow> (Inr (ok r), s2))))"
  by (simp add: list_body_def tryGogoAliases_none [OF assms] getp_def)

lemma jikan_error_keeps_cache:
  "fst (jikan E path s) = Inl e \<Longrightarrow> cache (snd (jikan E path s)) = cache s"
  unfolding jikan_unfold by (simp split: if_splits http_result.splits sum.splits)

lemma jikan_hit:
  assumes "lru_has (cache s) (clock E) (jikan_key path)"
    and "lru_find (cache s) (jikan_key path) = Some (k, v, ex)"
  shows "fst (jikan E path s) = Inr v" "calls (snd (jikan E path s)) = calls s"
  using assms unfolding jikan_unfold by (simp_all add: lru_has_def lru_get_def Let_def)

lemma recent_maps_after_lookup:
  assumes "gogo E = None"
    and "fst (jikan E (''/seasons/now?limit=24&page='' @ page) s) = Inr jk"
    and "getp jk ''data'' = Inr d" and "mapJikan d = Inr r"
  shows "fst (recent E page s) = ok r"
proof -
  obtain r0 s2 where j: "jikan E (''/seasons/now?limit=24&page='' @ page) s = (r0, s2)"
    by (cases "jikan E (''/seasons/now?limit=24&page='' @ page) s")
  with assms(2) have "r0 = Inr jk" by simp
  with j assms(3,4) show ?thesis
    by (simp add: recent_def tryGogoRecent_def list_body_no_gogo [OF assms(1)] catch_route_def)
qed

text \<open>
  C5, amended. What the cache stores is the raw parsed body of a successful Jikan response,
  under the key \<^verbatim>\<open>jk:\<close> followed by the URL, for 3 minutes; a failed lookup stores nothing; a
  hit returns that raw body without a request; and the route applies \<^verbatim>\<open>mapJikan\<close> to the
  body's \<^verbatim>\<open>data\<close> after the lookup, whether it was a hit or not.
\<close>

theorem cache_holds_raw_body:
  "(\<not> lru_has (cache s) (clock E) (jikan_key path)
      \<and> net E (jikan_url path) = Response True st (Inr j) \<longrightarrow>
      fst (jikan E path s) = Inr j
      \<and> lru_find (cache (snd (jikan E path s))) (jikan_key path)
          = Some (jikan_key path, j, clock E + 180000))
   \<and> (fst (jikan E path s) = Inl e \<longrightarrow> cache (snd (jikan E path s)) = cache s)
   \<and> (lru_has (cache s) (clock E) (jikan_key path)
      \<and> lru_find (cache s) (jikan_key path) = Some (k, v, ex) \<longrightarrow>
      fst (jikan E path s) = Inr v \<and> calls (snd (jikan E path s)) = calls s)
   \<and> (gogo E = None
      \<and> fst (jikan E (''/seasons/now?limit=24&page='' @ page) s) = Inr jk
      \<and> getp jk ''data'' = Inr d \<and> mapJikan d = Inr r \<longrightarrow>
      fst (recent E page s) = ok r)"
  using jikan_store(1,3) [of s E path st j] jikan_error_keeps_cache [of E path s e]
    jikan_hit [of s E path k v ex] recent_maps_after_lookup [of E page s jk d r]
  by blast

lemma recent_env_jikan:
  "recent env_jikan ''1'' server_init =
     (ok normalized_body,
      \<lparr>cache = \<lparr>lmax = 300, lttl = 300000,
                 entries = [(''jk:https://api.jikan.moe/v4/seasons/now?limit=24&page=1'',
                             jikan_body, 180000)]\<rparr>,
       logs = [],
       calls = [Fetch ''https://api.jikan.moe/v4/seasons/now?limit=24&page=1'']\<rparr>)"
  by (simp add: recent_def list_body_def tryGogoRecent_def tryGogoAliases_def env_jikan_def
      server_init_def cache_init_def lru_new_def getp_def jikan_def lru_has_def lru_find_def
      lru_set_def catch_route_def show_nat.simps digit_char_def jikan_body_def
      mapJikan_def map_items_def mapJikan_item_def optp_def ok_def Let_def normalized_body_def)

text \<open>
  C5, as the claim states it, fails: after \<^verbatim>\<open>/recent\<close> is served from Jikan, the cache holds
  the provider's raw body under a key that names the provider, and the normalized payload
  that was sent is a different value.
\<close>

theorem cache_raw_counterexample:
  "entries (cache (snd (recent env_jikan ''1'' server_init)))
     = [(''jk:https://api.jikan.moe/v4/seasons/now?limit=24&page=1'', jikan_body, 180000)]
   \<and> body (fst (recent env_jikan ''1'' server_init)) = normalized_body
   \<and> jikan_body \<noteq> normalized_body"
  by (simp add: recent_env_jikan ok_def) (simp add: jikan_body_def normalized_body_def)

theorem cache_holds_raw_body_witness:
  "fst (jikan env_jikan ''/anime/21'' server_init) = Inr jikan_body
   \<and> lru_find (cache server_warm) ''jk:https://api.jikan.moe/v4/anime/21''
        = Some (''jk:https://api.jikan.moe/v4/anime/21'', jikan_body, 180000)
   \<and> fst (jikan env_jikan ''/anime/21'' server_warm) = Inr jikan_body
   \<and> calls (snd (jikan env_jikan ''/anime/21'' server_warm)) = calls server_warm
   \<and> cache (snd (jikan env_down ''/anime/21'' server_init)) = cache server_init
   \<and> fst (recent env_jikan ''1'' server_init) = ok normalized_body"
proof -
  have miss: "\<not> lru_has (cache server_init) (clock env_jikan) (jikan_key ''/anime/21'')"
    by (simp add: server_init_def cache_init_def lru_new_def lru_has_def lru_find_def)
  have resp: "net env_jikan (jikan_url ''/anime/21'') = Response True 200 (Inr jikan_body)"
    by (simp add: env_jikan_def)
  have f: "lru_find (cache server_warm) (jikan_key ''/anime/21'')
             = Some (jikan_key ''/anime/21'', jikan_body, 180000)"
    by (simp add: server_warm_eq lru_find_def jikan_key_def jikan_url_def)
  have hit: "lru_has (cache server_warm) (clock env_jikan) (jikan_key ''/anime/21'')"
    using f by (simp add: lru_has_def env_jikan_def)
  have down: "fst (jikan env_down ''/anime/21'' server_init) = Inl (Exn ''Error'' ''Jikan 503'')"
    by (simp add: jikan_def env_down_def server_init_def cache_init_def lru_new_def lru_has_def
        lru_find_def Let_def show_nat.simps digit_char_def)
  have g: "gogo env_jikan = None" by (simp add: env_jikan_def)
  have jk: "fst (jikan env_jikan (''/seasons/now?limit=24&page='' @ ''1'') server_init)
              = Inr jikan_body"
    by (simp add: jikan_def env_jikan_def server_init_def cache_init_def lru_new_def lru_has_def
        lru_find_def Let_def)
  have d: "getp jikan_body ''data'' = Inr (JArr [JObj [(''mal_id'', JNum ''21''), (''title'', JStr ''One Piece'')]])"
    by (simp add: getp_def jikan_body_def)
  have m: "mapJikan (JArr [JObj [(''mal_id'', JNum ''21''), (''title'', JStr ''One Piece'')]])
             = Inr normalized_body"
    by (simp add: mapJikan_def map_items_def mapJikan_item_def optp_def
        show_nat.simps digit_char_def normalized_body_def)
  show ?thesis
    using cache_holds_raw_body [of server_init env_jikan "''/anime/21''" 200 jikan_body
        "Exn ''Error'' ''Jikan 503''" "jikan_key ''/anime/21''" jikan_body 180000 "''1''"
        jikan_body "JArr [JObj [(''mal_id'', JNum ''21''), (''title'', JStr ''One Piece'')]]"
        normalized_body]
      cache_holds_raw_body [of server_warm env_jikan "''/anime/21''" 200 jikan_body
        "Exn ''Error'' ''Jikan 503''" "jikan_key ''/anime/21''" jikan_body 180000 "''1''"
        jikan_body "JArr [JObj [(''mal_id'', JNum ''21''), (''title'', JStr ''One Piece'')]]"
        normalized_body]
      cache_holds_raw_body [of server_init env_down "''/anime/21''" 200 jikan_body
        "Exn ''Error'' ''Jikan 503''" "jikan_key ''/anime/21''" jikan_body 180000 "''1''"
        jikan_body "JArr [JObj [(''mal_id'', JNum ''21''), (''title'', JStr ''One Piece'')]]"
        normalized_body]
      miss resp f hit down g jk d m
    by (simp add: server_warm_def [symmetric] jikan_key_def jikan_url_def)
qed

section \<open>When both providers are out of reach\<close>









lemma anime_other_lacking:
  assumes "lacks E ''animeDetails''" and "take 4 ident \<noteq> ''mal-''"
  shows "anime E ident s =
     (ok (JObj [(''title'', JStr ''Unknown''), (''image_url'', JStr []),
                (''description'', JStr []), (''episodes'', JNum ''0'')]), s)"
  using assms by (simp add: anime_def anime_body_def catch_route_def lacks_def split: option.splits)

lemma stream_lacking:
  assumes "lacks E ''sources''" and "query_string epp \<noteq> []"
  shows "stream E epp s = (ok (JObj [(''sources'', JArr [])]), s)"
  using assms by (simp add: stream_def stream_body_def catch_route_def lacks_def split: option.splits)












section \<open>Provenance of search results\<close>

lemma call_method_fulfils:
  assumes "g name = Fn f" and "fulfils (f args) v"
  shows "call_method g name args cs = (Inr v, cs @ [Native name args])"
  using assms by (auto simp: call_method_def fulfils_def)

lemma jikan_fetch:
  assumes "\<not> lru_has (cache s) (clock E) (jikan_key path)"
    and "net E (jikan_url path) = Response True st (Inr j)"
  shows "jikan E path s =
     (Inr j, s\<lparr>calls := calls s @ [Fetch (jikan_url path)],
               cache := lru_set (cache s) (clock E) (jikan_key path) j (Some 180000)\<rparr>)"
  using assms unfolding jikan_unfold by simp

lemma native_try_array:
  assumes "g name = Fn f" and "fulfils (f args) (JArr xs)"
  shows "native_try (Some g) name args (array_map h) s =
     (Some (JArr (map h xs)), s\<lparr>lcalls := lcalls s @ [Native name args]\<rparr>)"
  using assms(1)
  by (simp add: native_try_def member_truthy_def
      call_method_fulfils [of g name f args, OF assms] array_map_def)

lemma fb_single:
  "lcalls (snd (fb L path s)) = lcalls s @ [Fetch (''https://jaybeeanime.vercel.app'' @ path)]"
  by (simp add: fb_def FALLBACK_BASES_def Let_def split: http_result.splits sum.splits)

lemma l_search_native:
  assumes "trim (query_string qp) = q" and "q \<noteq> []" and "tryLoadLibs L t = (Some g, t1)"
    and "g ''search'' = Fn f" and "fulfils (f [JStr q]) (JArr xs)"
  shows "l_search L qp t =
     (\<lparr>status = 200, body = JArr (map mapItem xs)\<rparr>,
      t1\<lparr>lcalls := lcalls t1 @ [Native ''search'' [JStr q]]\<rparr>)"
  using assms(1,2,3)
  by (simp add: l_search_def route_def
      native_try_array [of g "''search''" f "[JStr q]", OF assms(4,5)])

lemma l_search_fallback:
  assumes "trim (query_string qp) = q" and "q \<noteq> []" and "tryLoadLibs L t = (None, t1)"
  shows "body (fst (l_search L qp t))
           = tolerant (fst (fb L (''/search?q='' @ encodeURIComponent q) t1))"
    "lcalls (snd (l_search L qp t))
       = lcalls t1 @ [Fetch (''https://jaybeeanime.vercel.app/search?q='' @ encodeURIComponent q)]"
proof -
  obtain d t3 where f: "fb L (''/search?q='' @ encodeURIComponent q) t1 = (d, t3)"
    by (cases "fb L (''/search?q='' @ encodeURIComponent q) t1")
  with assms fb_single [of L "''/search?q='' @ encodeURIComponent q" t1]
  show "body (fst (l_search L qp t))
           = tolerant (fst (fb L (''/search?q='' @ encodeURIComponent q) t1))"
    "lcalls (snd (l_search L qp t))
       = lcalls t1 @ [Fetch (''https://jaybeeanime.vercel.app/search?q='' @ encodeURIComponent q)]"
    by (simp_all add: l_search_def route_def native_try_def)
qed

lemma search_results_array:
  "search_results (JArr xs) = JArr xs"
  "truthy (field (search_results (JArr xs)) ''length'') \<longleftrightarrow> xs \<noteq> []"
  by (simp_all add: search_results_def is_array_def)

lemma truthy_not_nullish: "truthy v \<Longrightarrow> \<not> nullish v"
  by (cases v) simp_all

lemma search_results_not_nullish: "\<not> nullish (search_results gv)"
  by (simp add: search_results_def is_array_def js_or_def truthy_not_nullish split: jsval.splits)

lemma search_native_fulfils:
  assumes "gogo E = Some g" and "g ''search'' = Fn f" and "fulfils (f [JStr q]) gv"
  shows "search_native E q s =
     (if truthy (field (search_results gv) ''length'') then
        (case mapGogo (search_results gv) of
           Inl e \<Rightarrow> (Inl e, s\<lparr>calls := calls s @ [Native ''search'' [JStr q]]\<rparr>)
         | Inr r \<Rightarrow>
             (Inr (Some (ok (JObj [(''results'', r), (''provider'', JStr ''gogo'')]))),
              s\<lparr>calls := calls s @ [Native ''search'' [JStr q]]\<rparr>))
      else (Inr None, s\<lparr>calls := calls s @ [Native ''search'' [JStr q]]\<rparr>))"
  using assms(1,2) search_results_not_nullish [of gv]
  by (simp add: search_native_def member_truthy_def getp_def
      call_method_fulfils [of g "''search''" f "[JStr q]", OF assms(2,3)])

lemma search_native_lacks:
  assumes "lacks E ''search''"
  shows "search_native E q s = (Inr None, s)"
  using assms by (simp add: search_native_def lacks_def split: option.splits)

lemma search_gogo:
  assumes "trim (query_string qp) = q" and "q \<noteq> []" and "gogo E = Some g"
    and "g ''search'' = Fn f" and "fulfils (f [JStr q]) gv"
    and "truthy (field (search_results gv) ''length'')"
  shows "search E qp s =
     (case mapGogo (search_results gv) of
        Inr r \<Rightarrow>
          (ok (JObj [(''results'', r), (''provider'', JStr ''gogo'')]),
           s\<lparr>calls := calls s @ [Native ''search'' [JStr q]]\<rparr>)
      | Inl e \<Rightarrow>
          (err 500 ''search_failed'',
           s\<lparr>calls := calls s @ [Native ''search'' [JStr q]],
             logs := logs s @ [(LError, [(''route'', Data (JStr ''search'')), (''e'', StringOf e)])]\<rparr>))"
  using assms(1,2,6) search_native_fulfils [OF assms(3,4,5), of s]
  by (simp add: search_def search_body_def catch_route_def split: sum.splits)

lemma search_jikan:
  assumes "trim (query_string qp) = q" and "q \<noteq> []"
    and "search_native E q s = (Inr None, s1)" and "cache s1 = cache s"
    and "\<not> lru_has (cache s) (clock E) (jikan_key (''/anime?q='' @ encodeURIComponent q @ ''&limit=24''))"
    and "net E (jikan_url (''/anime?q='' @ encodeURIComponent q @ ''&limit=24'')) = Response True st (Inr jk)"
  shows "fst (search E qp s) =
       (case getp jk ''data'' of
          Inl e \<Rightarrow> err 500 ''search_failed''
        | Inr d \<Rightarrow>
            (case mapJikan d of
               Inl e \<Rightarrow> err 500 ''search_failed''
             | Inr r \<Rightarrow> ok (JObj [(''results'', r), (''provider'', JStr ''jikan'')])))"
    "calls (snd (search E qp s))
       = calls s1 @ [Fetch (jikan_url (''/anime?q='' @ encodeURIComponent q @ ''&limit=24''))]"
proof -
  have m: "\<not> lru_has (cache s1) (clock E) (jikan_key (''/anime?q='' @ encodeURIComponent q @ ''&limit=24''))"
    using assms(4,5) by simp
  note j = jikan_fetch [OF m assms(6)]
  show "fst (search E qp s) =
       (case getp jk ''data'' of
          Inl e \<Rightarrow> err 500 ''search_failed''
        | Inr d \<Rightarrow>
            (case mapJikan d of
               Inl e \<Rightarrow> err 500 ''search_failed''
             | Inr r \<Rightarrow> ok (JObj [(''results'', r), (''provider'', JStr ''jikan'')])))"
    using assms(1,2,3) j by (simp add: search_def search_body_def catch_route_def split: sum.splits)
  show "calls (snd (search E qp s))
       = calls s1 @ [Fetch (jikan_url (''/anime?q='' @ encodeURIComponent q @ ''&limit=24''))]"
    using assms(1,2,3) j by (simp add: search_def search_body_def catch_route_def split: sum.splits)
qed

text \<open>
  C2, amended. For a query \<open>q\<close> that is not blank after trimming.

  In the server with the Jikan fallback, let the results of the native search be what the
  handler takes from the value that \<^verbatim>\<open>gogo.search(q)\<close> yields: the value itself when it is an
  array, else its \<^verbatim>\<open>results\<close>, else the empty array. When the results have a truthy \<^verbatim>\<open>length\<close>
  (for an array: when it is not empty), Jikan is not asked and the native call is the only
  outbound call: if \<^verbatim>\<open>mapGogo\<close> succeeds on the results the answer is
  \<^verbatim>\<open>{results, provider: 'gogo'}\<close>, and if \<^verbatim>\<open>mapGogo\<close> raises the answer is status 500 with
  \<^verbatim>\<open>search_failed\<close>. When the library or its \<^verbatim>\<open>search\<close> is missing, or the results have no truthy
  \<^verbatim>\<open>length\<close> (an empty array), and Jikan is not cached and answers OK with a body that parses,
  exactly one request goes to Jikan, after the native call if there was one: if the body is
  not null and \<^verbatim>\<open>mapJikan\<close> succeeds on its \<^verbatim>\<open>data\<close> the answer is
  \<^verbatim>\<open>{results: mapJikan(data), provider: 'jikan'}\<close>, and if the body is null or undefined or
  \<^verbatim>\<open>mapJikan\<close> raises the answer is status 500 with \<^verbatim>\<open>search_failed\<close>.

  In the server with the public fallback: when the loaded library's \<^verbatim>\<open>search\<close> yields an
  array, empty or not, the answer is the bare array of mapped items and the fallback is not
  asked; when no library can be loaded, the answer is the tolerant parse of the fallback's
  body and exactly one request goes to the fallback.
\<close>

theorem search_provenance:
  "search_results (JArr xs) = JArr xs
   \<and> (truthy (field (search_results (JArr xs)) ''length'') \<longleftrightarrow> xs \<noteq> [])
   \<and> (trim (query_string qp) = q \<and> q \<noteq> [] \<and> gogo E = Some g \<and> g ''search'' = Fn f
      \<and> fulfils (f [JStr q]) gv \<and> truthy (field (search_results gv) ''length'') \<longrightarrow>
      search E qp s =
        (case mapGogo (search_results gv) of
           Inr r \<Rightarrow>
             (ok (JObj [(''results'', r), (''provider'', JStr ''gogo'')]),
              s\<lparr>calls := calls s @ [Native ''search'' [JStr q]]\<rparr>)
         | Inl e \<Rightarrow>
             (err 500 ''search_failed'',
              s\<lparr>calls := calls s @ [Native ''search'' [JStr q]],
                logs := logs s @ [(LError, [(''route'', Data (JStr ''search'')),
                                            (''e'', StringOf e)])]\<rparr>)))
   \<and> (trim (query_string qp) = q \<and> q \<noteq> []
      \<and> \<not> lru_has (cache s) (clock E) (jikan_key (''/anime?q='' @ encodeURIComponent q @ ''&limit=24''))
      \<and> net E (jikan_url (''/anime?q='' @ encodeURIComponent q @ ''&limit=24''))
           = Response True st (Inr jk) \<longrightarrow>
        (gogo E = Some g \<and> g ''search'' = Fn f \<and> fulfils (f [JStr q]) gv
           \<and> \<not> truthy (field (search_results gv) ''length'') \<longrightarrow>
           fst (search E qp s) =
             (case getp jk ''data'' of
                Inl e \<Rightarrow> err 500 ''search_failed''
              | Inr d \<Rightarrow>
                  (case mapJikan d of
                     Inl e \<Rightarrow> err 500 ''search_failed''
                   | Inr r \<Rightarrow> ok (JObj [(''results'', r), (''provider'', JStr ''jikan'')])))
           \<and> calls (snd (search E qp s))
               = calls s @ [Native ''search'' [JStr q],
                            Fetch (jikan_url (''/anime?q='' @ encodeURIComponent q @ ''&limit=24''))])
      \<and> (lacks E ''search'' \<longrightarrow>
           fst (search E qp s) =
             (case getp jk ''data'' of
                Inl e \<Rightarrow> err 500 ''search_failed''
              | Inr d \<Rightarrow>
                  (case mapJikan d of
                     Inl e \<Rightarrow> err 500 ''search_failed''
                   | Inr r \<Rightarrow> ok (JObj [(''results'', r), (''provider'', JStr ''jikan'')])))
           \<and> calls (snd (search E qp s))
               = calls s @ [Fetch (jikan_url (''/anime?q='' @ encodeURIComponent q @ ''&limit=24''))]))
   \<and> (getp jk ''data'' = (if nullish jk then Inl TypeError else Inr (field jk ''data'')))
   \<and> (trim (query_string qp) = q \<and> q \<noteq> [] \<and> tryLoadLibs L t = (Some g, t1)
      \<and> g ''search'' = Fn f \<and> fulfils (f [JStr q]) (JArr xs) \<longrightarrow>
      l_search L qp t =
        (\<lparr>status = 200, body = JArr (map mapItem xs)\<rparr>,
         t1\<lparr>lcalls := lcalls t1 @ [Native ''search'' [JStr q]]\<rparr>))
   \<and> (trim (query_string qp) = q \<and> q \<noteq> [] \<and> tryLoadLibs L t = (None, t1) \<longrightarrow>
      body (fst (l_search L qp t)) = tolerant (fst (fb L (''/search?q='' @ encodeURIComponent q) t1))
      \<and> lcalls (snd (l_search L qp t))
          = lcalls t1 @ [Fetch (''https://jaybeeanime.vercel.app/search?q='' @ encodeURIComponent q)])"
proof -
  let ?p = "''/anime?q='' @ encodeURIComponent q @ ''&limit=24''"
  let ?answer = "case getp jk ''data'' of
                Inl e \<Rightarrow> err 500 ''search_failed''
              | Inr d \<Rightarrow>
                  (case mapJikan d of
                     Inl e \<Rightarrow> err 500 ''search_failed''
                   | Inr r \<Rightarrow> ok (JObj [(''results'', r), (''provider'', JStr ''jikan'')]))"
  note R = search_results_array [of xs]
  have A1: "trim (query_string qp) = q \<and> q \<noteq> [] \<and> gogo E = Some g \<and> g ''search'' = Fn f
      \<and> fulfils (f [JStr q]) gv \<and> truthy (field (search_results gv) ''length'') \<longrightarrow>
      search E qp s =
        (case mapGogo (search_results gv) of
           Inr r \<Rightarrow>
             (ok (JObj [(''results'', r), (''provider'', JStr ''gogo'')]),
              s\<lparr>calls := calls s @ [Native ''search'' [JStr q]]\<rparr>)
         | Inl e \<Rightarrow>
             (err 500 ''search_failed'',
              s\<lparr>calls := calls s @ [Native ''search'' [JStr q]],
                logs := logs s @ [(LError, [(''route'', Data (JStr ''search'')),
                                            (''e'', StringOf e)])]\<rparr>))"
    using search_gogo [of qp q E g f gv s] by blast
  have A2: "trim (query_string qp) = q \<and> q \<noteq> []
      \<and> \<not> lru_has (cache s) (clock E) (jikan_key ?p)
      \<and> net E (jikan_url ?p) = Response True st (Inr jk) \<longrightarrow>
        (gogo E = Some g \<and> g ''search'' = Fn f \<and> fulfils (f [JStr q]) gv
           \<and> \<not> truthy (field (search_results gv) ''length'') \<longrightarrow>
           fst (search E qp s) = ?answer
           \<and> calls (snd (search E qp s))
               = calls s @ [Native ''search'' [JStr q], Fetch (jikan_url ?p)])
      \<and> (lacks E ''search'' \<longrightarrow>
           fst (search E qp s) = ?answer
           \<and> calls (snd (search E qp s)) = calls s @ [Fetch (jikan_url ?p)])"
  proof (intro impI, elim conjE)
    assume a: "trim (query_string qp) = q" "q \<noteq> []"
      "\<not> lru_has (cache s) (clock E) (jikan_key ?p)"
      "net E (jikan_url ?p) = Response True st (Inr jk)"
    have e: "gogo E = Some g \<and> g ''search'' = Fn f \<and> fulfils (f [JStr q]) gv
           \<and> \<not> truthy (field (search_results gv) ''length'') \<longrightarrow>
           fst (search E qp s) = ?answer
           \<and> calls (snd (search E qp s))
               = calls s @ [Native ''search'' [JStr q], Fetch (jikan_url ?p)]"
    proof (intro impI, elim conjE)
      assume b: "gogo E = Some g" "g ''search'' = Fn f" "fulfils (f [JStr q]) gv"
        and l: "\<not> truthy (field (search_results gv) ''length'')"
      have n: "search_native E q s = (Inr None, s\<lparr>calls := calls s @ [Native ''search'' [JStr q]]\<rparr>)"
        using search_native_fulfils [OF b, of s] l by simp
      have c: "cache (s\<lparr>calls := calls s @ [Native ''search'' [JStr q]]\<rparr>) = cache s" by simp
      show "fst (search E qp s) = ?answer
           \<and> calls (snd (search E qp s))
               = calls s @ [Native ''search'' [JStr q], Fetch (jikan_url ?p)]"
        using search_jikan [OF a(1,2) n c a(3,4)] by simp
    qed
    have n: "lacks E ''search'' \<longrightarrow>
           fst (search E qp s) = ?answer
           \<and> calls (snd (search E qp s)) = calls s @ [Fetch (jikan_url ?p)]"
    proof
      assume b: "lacks E ''search''"
      show "fst (search E qp s) = ?answer
           \<and> calls (snd (search E qp s)) = calls s @ [Fetch (jikan_url ?p)]"
        using search_jikan [OF a(1,2) search_native_lacks [OF b] refl a(3,4)] by simp
    qed
    from e n show "(gogo E = Some g \<and> g ''search'' = Fn f \<and> fulfils (f [JStr q]) gv
           \<and> \<not> truthy (field (search_results gv) ''length'') \<longrightarrow>
           fst (search E qp s) = ?answer
           \<and> calls (snd (search E qp s))
               = calls s @ [Native ''search'' [JStr q], Fetch (jikan_url ?p)])
      \<and> (lacks E ''search'' \<longrightarrow>
           fst (search E qp s) = ?answer
           \<and> calls (snd (search E qp s)) = calls s @ [Fetch (jikan_url ?p)])"
      by (rule conjI)
  qed
  have G: "getp jk ''data'' = (if nullish jk then Inl TypeError else Inr (field jk ''data''))"
    by (simp add: getp_def)
  have B1: "trim (query_string qp) = q \<and> q \<noteq> [] \<and> tryLoadLibs L t = (Some g, t1)
      \<and> g ''search'' = Fn f \<and> fulfils (f [JStr q]) (JArr xs) \<longrightarrow>
      l_search L qp t =
        (\<lparr>status = 200, body = JArr (map mapItem xs)\<rparr>,
         t1\<lparr>lcalls := lcalls t1 @ [Native ''search'' [JStr q]]\<rparr>)"
    using l_search_native by blast
  have B2: "trim (query_string qp) = q \<and> q \<noteq> [] \<and> tryLoadLibs L t = (None, t1) \<longrightarrow>
      body (fst (l_search L qp t)) = tolerant (fst (fb L (''/search?q='' @ encodeURIComponent q) t1))
      \<and> lcalls (snd (l_search L qp t))
          = lcalls t1 @ [Fetch (''https://jaybeeanime.vercel.app/search?q='' @ encodeURIComponent q)]"
    using l_search_fallback by blast
  show ?thesis
    by (rule conjI [OF R(1)], rule conjI [OF R(2)], rule conjI [OF A1], rule conjI [OF A2],
        rule conjI [OF G], rule conjI [OF B1], rule B2)
qed

lemma tryLoadLibs_empty_search:
  "tryLoadLibs lenv_empty_search loader_init =
     (Some lib_empty_search,
      \<lparr>goLib = Some lib_empty_search,
       console = [''[gogo] using optional lib: gogoanime-api''],
       lcalls = [Import ''gogoanime-api'']\<rparr>)"
  by (simp add: tryLoadLibs_def loader_init_def candidates_def lenv_empty_search_def
      pick_GoGo_def Let_def)

lemma tryLoadLibs_down:
  "tryLoadLibs lenv_down loader_init =
     (None,
      \<lparr>goLib = None,
       console = [''[gogo] no optional lib found; using public fallback only''],
       lcalls = [Import ''gogoanime-api'', Import ''gogoanime-api-new'']\<rparr>)"
  by (simp add: tryLoadLibs_def loader_init_def candidates_def lenv_down_def Let_def)

lemma enc_naruto: "encodeURIComponent ''naruto'' = ''naruto''"
  by (simp add: encodeURIComponent_def unreserved_def)

lemma trim_naruto: "trim (query_string (Some ''naruto'')) = ''naruto''"
  by (simp add: query_string_def trim_def strip.simps ws_seqs_def)

text \<open>
  C2, as the claim states it, fails: in the server with the public fallback, a native library
  whose \<^verbatim>\<open>search\<close> yields an empty array gets the empty array sent as the answer. The
  payload is a bare array without a \<^verbatim>\<open>provider\<close>, and the trace holds the import and the
  native call only: the fallback was not asked.
\<close>

theorem search_provenance_counterexample:
  "call_method lib_empty_search ''search'' [JStr ''naruto''] [] 
     = (Inr (JArr []), [Native ''search'' [JStr ''naruto'']])
   \<and> body (fst (l_search lenv_empty_search (Some ''naruto'') loader_init)) = JArr []
   \<and> field (body (fst (l_search lenv_empty_search (Some ''naruto'') loader_init))) ''provider''
       = JUndefined
   \<and> lcalls (snd (l_search lenv_empty_search (Some ''naruto'') loader_init))
       = [Import ''gogoanime-api'', Native ''search'' [JStr ''naruto'']]"
  by (simp add: l_search_def trim_naruto route_def tryLoadLibs_empty_search native_try_def
      member_truthy_def call_method_def lib_empty_search_def array_map_def)

theorem search_provenance_witness:
  "search env_naruto (Some ''naruto'') server_init =
     (ok (JObj [(''results'', JArr [JObj [(''title'', JStr ''Naruto''), (''image_url'', JStr []),
                                          (''anime_id'', JStr ''naruto''), (''synopsis'', JStr [])]]),
                (''provider'', JStr ''gogo'')]),
      server_init\<lparr>calls := [Native ''search'' [JStr ''naruto'']]\<rparr>)
   \<and> fst (search env_empty_search (Some ''naruto'') server_init)
       = ok (JObj [(''results'', normalized_body), (''provider'', JStr ''jikan'')])
   \<and> calls (snd (search env_empty_search (Some ''naruto'') server_init))
       = [Native ''search'' [JStr ''naruto''],
          Fetch ''https://api.jikan.moe/v4/anime?q=naruto&limit=24'']
   \<and> calls (snd (search env_jikan (Some ''naruto'') server_init))
       = [Fetch ''https://api.jikan.moe/v4/anime?q=naruto&limit=24'']
   \<and> l_search lenv_empty_search (Some ''naruto'') loader_init =
       (\<lparr>status = 200, body = JArr []\<rparr>,
        \<lparr>goLib = Some lib_empty_search,
         console = [''[gogo] using optional lib: gogoanime-api''],
         lcalls = [Import ''gogoanime-api'', Native ''search'' [JStr ''naruto'']]\<rparr>)
   \<and> lcalls (snd (l_search lenv_down (Some ''naruto'') loader_init))
       = [Import ''gogoanime-api'', Import ''gogoanime-api-new'',
          Fetch ''https://jaybeeanime.vercel.app/search?q=naruto'']"
proof -
  let ?xs = "[JObj [(''id'', JStr ''naruto''), (''name'', JStr ''Naruto'')]]"
  let ?r = "JArr [JObj [(''title'', JStr ''Naruto''), (''image_url'', JStr []),
                        (''anime_id'', JStr ''naruto''), (''synopsis'', JStr [])]]"
  let ?d = "JArr [JObj [(''mal_id'', JNum ''21''), (''title'', JStr ''One Piece'')]]"
  note c2 = conjunct2
  have g1: "gogo env_naruto = Some lib_naruto" by (simp add: env_naruto_def)
  have f1: "lib_naruto ''search'' = Fn (\<lambda>_. Resolves (JArr ?xs))" by (simp add: lib_naruto_def)
  have u1: "fulfils ((\<lambda>_. Resolves (JArr ?xs)) [JStr ''naruto'']) (JArr ?xs)"
    by (simp add: fulfils_def)
  have l1: "truthy (field (search_results (JArr ?xs)) ''length'')"
    by (simp add: search_results_def is_array_def)
  have m1: "mapGogo (search_results (JArr ?xs)) = Inr ?r"
    by (simp add: search_results_def is_array_def mapGogo_def map_items_def mapGogo_item_def)
  have g2: "gogo env_empty_search = Some lib_empty_search" by (simp add: env_empty_search_def)
  have f2: "lib_empty_search ''search'' = Fn (\<lambda>_. Resolves (JArr []))"
    by (simp add: lib_empty_search_def)
  have u2: "fulfils ((\<lambda>_. Resolves (JArr [])) [JStr ''naruto'']) (JArr [])"
    by (simp add: fulfils_def)
  have l2: "\<not> truthy (field (search_results (JArr [])) ''length'')"
    by (simp add: search_results_def is_array_def)
  have g3: "lacks env_jikan ''search''" by (simp add: env_jikan_def lacks_def)
  have miss: "\<not> lru_has (cache server_init) t k" for t k
    by (simp add: server_init_def cache_init_def lru_new_def lru_has_def lru_find_def)
  have n2: "net env_empty_search u = Response True 200 (Inr jikan_body)" for u
    by (simp add: env_empty_search_def)
  have n3: "net env_jikan u = Response True 200 (Inr jikan_body)" for u
    by (simp add: env_jikan_def)
  have d: "getp jikan_body ''data'' = Inr ?d" by (simp add: getp_def jikan_body_def)
  have m: "mapJikan ?d = Inr normalized_body"
    by (simp add: mapJikan_def map_items_def mapJikan_item_def optp_def normalized_body_def)
  have q: "''naruto'' \<noteq> []" by simp
  note A = search_provenance [of ?xs "Some ''naruto''" "''naruto''" env_naruto lib_naruto
        "\<lambda>_. Resolves (JArr ?xs)" "JArr ?xs" server_init 200 jikan_body lenv_down loader_init,
        THEN c2, THEN c2, THEN conjunct1]
  note B = search_provenance [of "[]" "Some ''naruto''" "''naruto''" env_empty_search
        lib_empty_search "\<lambda>_. Resolves (JArr [])" "JArr []" server_init 200 jikan_body
        lenv_empty_search loader_init, THEN c2, THEN c2, THEN c2]
  note C = search_provenance [of "[]" "Some ''naruto''" "''naruto''" env_jikan
        lib_empty_search "\<lambda>_. Resolves (JArr [])" "JArr []" server_init 200 jikan_body
        lenv_down loader_init, THEN c2, THEN c2, THEN c2]
  have a: "search env_naruto (Some ''naruto'') server_init =
     (ok (JObj [(''results'', ?r), (''provider'', JStr ''gogo'')]),
      server_init\<lparr>calls := calls server_init @ [Native ''search'' [JStr ''naruto'']]\<rparr>)"
    using A trim_naruto q g1 f1 u1 l1 by (simp add: m1)
  have "fst (search env_empty_search (Some ''naruto'') server_init)
       = (case getp jikan_body ''data'' of
            Inl e \<Rightarrow> err 500 ''search_failed''
          | Inr d \<Rightarrow>
              (case mapJikan d of
                 Inl e \<Rightarrow> err 500 ''search_failed''
               | Inr r \<Rightarrow> ok (JObj [(''results'', r), (''provider'', JStr ''jikan'')])))
     \<and> calls (snd (search env_empty_search (Some ''naruto'') server_init))
       = calls server_init @ [Native ''search'' [JStr ''naruto''],
            Fetch (jikan_url (''/anime?q='' @ encodeURIComponent ''naruto'' @ ''&limit=24''))]"
    using B [THEN conjunct1] trim_naruto q g2 f2 u2 l2 miss n2 by blast
  then have b: "fst (search env_empty_search (Some ''naruto'') server_init)
       = ok (JObj [(''results'', normalized_body), (''provider'', JStr ''jikan'')])
     \<and> calls (snd (search env_empty_search (Some ''naruto'') server_init))
       = calls server_init @ [Native ''search'' [JStr ''naruto''],
            Fetch (jikan_url (''/anime?q='' @ encodeURIComponent ''naruto'' @ ''&limit=24''))]"
    by (simp add: d m)
  have c: "calls (snd (search env_jikan (Some ''naruto'') server_init))
       = calls server_init @
           [Fetch (jikan_url (''/anime?q='' @ encodeURIComponent ''naruto'' @ ''&limit=24''))]"
    using C [THEN conjunct1] trim_naruto q g3 miss n3 by blast
  have e: "l_search lenv_empty_search (Some ''naruto'') loader_init =
       (\<lparr>status = 200, body = JArr (map mapItem [])\<rparr>,
        \<lparr>goLib = Some lib_empty_search,
         console = [''[gogo] using optional lib: gogoanime-api''],
         lcalls = [Import ''gogoanime-api'']\<rparr>
          \<lparr>lcalls := lcalls \<lparr>goLib = Some lib_empty_search,
             console = [''[gogo] using optional lib: gogoanime-api''],
             lcalls = [Import ''gogoanime-api'']\<rparr> @ [Native ''search'' [JStr ''naruto'']]\<rparr>)"
    using B [THEN c2, THEN c2, THEN conjunct1] trim_naruto q f2 u2 tryLoadLibs_empty_search
    by blast
  have h: "lcalls (snd (l_search lenv_down (Some ''naruto'') loader_init))
       = lcalls \<lparr>goLib = None,
           console = [''[gogo] no optional lib found; using public fallback only''],
           lcalls = [Import ''gogoanime-api'', Import ''gogoanime-api-new'']\<rparr>
         @ [Fetch (''https://jaybeeanime.vercel.app/search?q='' @ encodeURIComponent ''naruto'')]"
    using C [THEN c2, THEN c2, THEN c2] trim_naruto q tryLoadLibs_down
    by blast
  from a b c e h show ?thesis
    by (simp add: enc_naruto jikan_url_def server_init_def)
qed

section \<open>Alias probing in the native adapter\<close>

lemma opt_call_first:
  assumes "g a = Fn f"
  shows "snd (opt_call g a args cs) = cs @ [Native a args]"
  using assms by (simp add: opt_call_def split: outcome.splits)

lemma alias_call_first:
  assumes "g a = Fn f"
  shows "\<exists>rest. snd (alias_call g a b args cs) = cs @ Native a args # rest"
proof (cases "f args")
  case (Returns v)
  show ?thesis
  proof (cases "nullish v")
    case True
    obtain r cs2 where o: "opt_call g b args (cs @ [Native a args]) = (r, cs2)"
      by (cases "opt_call g b args (cs @ [Native a args])")
    have "\<exists>rest. cs2 = (cs @ [Native a args]) @ rest"
      using o by (auto simp: opt_call_def split: member.splits outcome.splits if_splits)
    then obtain rest where "cs2 = cs @ Native a args # rest" by auto
    then show ?thesis using assms Returns True o
      by (cases r) (auto simp: alias_call_def opt_call_def)
  next
    case False
    then show ?thesis using assms Returns by (simp add: alias_call_def opt_call_def)
  qed
qed (use assms in \<open>simp_all add: alias_call_def opt_call_def\<close>)

lemma alias_call_only_first:
  assumes "g a = Fn f" and "\<forall>v. f args = Returns v \<longrightarrow> \<not> nullish v"
  shows "snd (alias_call g a b args cs) = cs @ [Native a args]"
  using assms by (cases "f args") (simp_all add: alias_call_def opt_call_def)

lemma alias_call_second:
  assumes "g a = Val v" and "nullish v" and "g b = Fn f"
  shows "snd (alias_call g a b args cs) = cs @ [Native b args]"
    "fst (alias_call g a b args cs) = (case f args of Throws e \<Rightarrow> Inl e | Returns w \<Rightarrow> Inr w
        | Resolves w \<Rightarrow> Inr w | Rejects e \<Rightarrow> Inl e)"
  using assms by (cases "f args"; simp add: alias_call_def opt_call_def await_def)+

lemma alias_call_fails_first:
  assumes "g a = Fn f" and "fails (f args) e"
  shows "alias_call g a b args cs = (Inl e, cs @ [Native a args])"
  using assms by (auto simp: alias_call_def opt_call_def fails_def)

lemma alias_call_fails_second:
  assumes "g a = Val v" and "nullish v" and "g b = Fn f" and "fails (f args) e"
  shows "alias_call g a b args cs = (Inl e, cs @ [Native b args])"
  using assms by (auto simp: alias_call_def opt_call_def fails_def await_def)

lemma tryGogoAliases_default:
  "tryGogoAliases a b m E JUndefined s = tryGogoAliases a b m E (JNum ''1'') s"
  by (simp add: tryGogoAliases_def)

lemma tryGogoAliases_calls:
  assumes "gogo E = Some g" and "page \<noteq> JUndefined"
  shows "calls (snd (tryGogoAliases a b m E page s)) = snd (alias_call g a b [page] (calls s))"
  using assms
  by (cases "alias_call g a b [page] (calls s)")
     (auto simp: tryGogoAliases_def Let_def split: sum.splits)

lemma tryGogoAliases_caught:
  assumes "gogo E = Some g" and "page \<noteq> JUndefined"
    and "alias_call g a b [page] (calls s) = (Inl e, cs)"
  shows "tryGogoAliases a b m E page s =
     (JArr [], s\<lparr>calls := cs,
                 logs := logs s @ [(LWarn, [(''msg'', Data (JStr m)), (''e'', StringOf e)])]\<rparr>)"
  using assms by (simp add: tryGogoAliases_def)

lemma alias_probing:
  assumes "gogo E = Some g" and "page \<noteq> JUndefined"
  shows "(g a = Fn f \<longrightarrow>
        (\<exists>rest. calls (snd (tryGogoAliases a b m E page s)) = calls s @ Native a [page] # rest)
      \<and> ((\<forall>v. f [page] = Returns v \<longrightarrow> \<not> nullish v) \<longrightarrow>
           calls (snd (tryGogoAliases a b m E page s)) = calls s @ [Native a [page]])
      \<and> (fails (f [page]) e \<longrightarrow>
           tryGogoAliases a b m E page s =
             (JArr [], s\<lparr>calls := calls s @ [Native a [page]],
                logs := logs s @ [(LWarn, [(''msg'', Data (JStr m)), (''e'', StringOf e)])]\<rparr>)))
   \<and> (g a = Val v \<and> nullish v \<and> g b = Fn f' \<longrightarrow>
        calls (snd (tryGogoAliases a b m E page s)) = calls s @ [Native b [page]]
      \<and> (fails (f' [page]) e \<longrightarrow>
           tryGogoAliases a b m E page s =
             (JArr [], s\<lparr>calls := calls s @ [Native b [page]],
                logs := logs s @ [(LWarn, [(''msg'', Data (JStr m)), (''e'', StringOf e)])]\<rparr>)))"
  using alias_call_first [of g a f b "[page]" "calls s"]
    alias_call_only_first [of g a f "[page]" b "calls s"]
    alias_call_second(1) [of g a v b f' "[page]" "calls s"]
    tryGogoAliases_caught [OF assms alias_call_fails_first [of g a f "[page]" e b "calls s"], of m]
    tryGogoAliases_caught [OF assms alias_call_fails_second [of g a v b f' "[page]" e "calls s"], of m]
  unfolding tryGogoAliases_calls [OF assms]
  by blast

lemma recent_after_caught:
  assumes "gogo E = Some g" and "g ''recent'' = Fn f" and "fails (f [JNum page]) e"
    and "\<not> lru_has (cache s) (clock E) (jikan_key (''/seasons/now?limit=24&page='' @ page))"
    and "net E (jikan_url (''/seasons/now?limit=24&page='' @ page)) = Response True st (Inr jk)"
  shows "fst (recent E page s) =
     (case getp jk ''data'' of
        Inl x \<Rightarrow> err 500 ''recent_failed''
      | Inr d \<Rightarrow> (case mapJikan d of Inl x \<Rightarrow> err 500 ''recent_failed'' | Inr r \<Rightarrow> ok r))"
proof -
  let ?s1 = "s\<lparr>calls := calls s @ [Native ''recent'' [JNum page]],
                logs := logs s @ [(LWarn, [(''msg'', Data (JStr ''gogo recent failed'')),
                                           (''e'', StringOf e)])]\<rparr>"
  have u: "JNum page \<noteq> JUndefined" by simp
  have t: "tryGogoRecent E (JNum page) s = (JArr [], ?s1)"
    unfolding tryGogoRecent_def
    by (rule tryGogoAliases_caught
        [OF assms(1) u alias_call_fails_first [of g "''recent''" f "[JNum page]" e, OF assms(2,3)]])
  have m: "\<not> lru_has (cache ?s1) (clock E) (jikan_key (''/seasons/now?limit=24&page='' @ page))"
    using assms(4) by simp
  show ?thesis
    using t jikan_fetch [OF m assms(5)]
    by (simp add: recent_def list_body_def getp_def catch_route_def split: sum.splits)
qed

lemma call_method_fails:
  assumes "g name = Fn f" and "fails (f args) e"
  shows "call_method g name args cs = (Inl e, cs @ [Native name args])"
  using assms by (auto simp: call_method_def fails_def)

lemma call_method_calls:
  assumes "g name = Fn f"
  shows "snd (call_method g name args cs) = cs @ [Native name args]"
  using assms by (simp add: call_method_def split: outcome.splits)

lemma search_fails:
  assumes "gogo E = Some g" and "trim (query_string qp) = q" and "q \<noteq> []"
    and "g ''search'' = Fn f" and "fails (f [JStr q]) e"
  shows "search E qp s =
     (err 500 ''search_failed'',
      s\<lparr>calls := calls s @ [Native ''search'' [JStr q]],
        logs := logs s @ [(LError, [(''route'', Data (JStr ''search'')), (''e'', StringOf e)])]\<rparr>)"
  using assms(1,2,3,4) call_method_fails [of g "''search''" f "[JStr q]" e "calls s", OF assms(4,5)]
  by (simp add: search_def search_body_def search_native_def member_truthy_def catch_route_def)

lemma anime_fails:
  assumes "gogo E = Some g" and "take 4 ident \<noteq> ''mal-''"
    and "g ''animeDetails'' = Fn f" and "fails (f [JStr ident]) e"
  shows "anime E ident s =
     (err 500 ''anime_failed'',
      s\<lparr>calls := calls s @ [Native ''animeDetails'' [JStr ident]],
        logs := logs s @ [(LError, [(''route'', Data (JStr ''anime'')), (''id'', Data (JStr ident)),
                                    (''e'', StringOf e)])]\<rparr>)"
  using assms(1,2,3) call_method_fails [of g "''animeDetails''" f "[JStr ident]" e "calls s", OF assms(3,4)]
  by (simp add: anime_def anime_body_def member_truthy_def catch_route_def)

lemma stream_fails:
  assumes "gogo E = Some g" and "query_string epp = ep" and "ep \<noteq> []"
    and "g ''sources'' = Fn f" and "fails (f [JStr ep]) e"
  shows "stream E epp s =
     (err 500 ''stream_failed'',
      s\<lparr>calls := calls s @ [Native ''sources'' [JStr ep]],
        logs := logs s @ [(LError, [(''route'', Data (JStr ''stream'')), (''ep'', Data (JStr ep)),
                                    (''e'', StringOf e)])]\<rparr>)"
  using assms(1,2,3,4) call_method_fails [of g "''sources''" f "[JStr ep]" e "calls s", OF assms(4,5)]
  by (simp add: stream_def stream_body_def member_truthy_def catch_route_def)

lemma catch_route_snd_calls: "calls (snd (catch_route about code r)) = calls (snd r)"
  by (cases r) (simp add: catch_route_def split: sum.splits)

lemma search_native_one_call:
  assumes "gogo E = Some g" and "g ''search'' = Fn f"
  shows "calls (snd (search_native E q s)) = calls s @ [Native ''search'' [JStr q]]"
proof -
  obtain r cs where c: "call_method g ''search'' [JStr q] (calls s) = (r, cs)"
    by (cases "call_method g ''search'' [JStr q] (calls s)")
  then have "cs = calls s @ [Native ''search'' [JStr q]]"
    using call_method_calls [of g "''search''" f "[JStr q]" "calls s", OF assms(2)] by simp
  then show ?thesis
    using assms c
    by (simp add: search_native_def member_truthy_def Let_def split: sum.splits)
qed

lemma anime_one_call:
  assumes "gogo E = Some g" and "take 4 ident \<noteq> ''mal-''" and "g ''animeDetails'' = Fn f"
  shows "calls (snd (anime E ident s)) = calls s @ [Native ''animeDetails'' [JStr ident]]"
proof -
  obtain r cs where c: "call_method g ''animeDetails'' [JStr ident] (calls s) = (r, cs)"
    by (cases "call_method g ''animeDetails'' [JStr ident] (calls s)")
  then have "cs = calls s @ [Native ''animeDetails'' [JStr ident]]"
    using call_method_calls [of g "''animeDetails''" f "[JStr ident]" "calls s", OF assms(3)] by simp
  then show ?thesis
    using assms c
    by (simp add: anime_def catch_route_snd_calls anime_body_def member_truthy_def
        split: sum.splits)
qed

lemma stream_one_call:
  assumes "gogo E = Some g" and "query_string epp = ep" and "ep \<noteq> []" and "g ''sources'' = Fn f"
  shows "calls (snd (stream E epp s)) = calls s @ [Native ''sources'' [JStr ep]]"
proof -
  obtain r cs where c: "call_method g ''sources'' [JStr ep] (calls s) = (r, cs)"
    by (cases "call_method g ''sources'' [JStr ep] (calls s)")
  then have "cs = calls s @ [Native ''sources'' [JStr ep]]"
    using call_method_calls [of g "''sources''" f "[JStr ep]" "calls s", OF assms(4)] by simp
  then show ?thesis
    using assms c
    by (simp add: stream_def catch_route_snd_calls stream_body_def member_truthy_def
        split: sum.splits)
qed

text \<open>
  C3, amended. For the recent and the top-airing capabilities of the native adapter
  (\<^verbatim>\<open>tryGogoRecent\<close>: \<^verbatim>\<open>recent\<close> before \<^verbatim>\<open>fetchRecentReleases\<close>; \<^verbatim>\<open>tryGogoTop\<close>:
  \<^verbatim>\<open>topAiring\<close> before \<^verbatim>\<open>trending\<close>), called with the page number: when the first alias is a
  function it is the first one called, and the only one unless it returns null or undefined
  without a promise; when the first alias is missing and the second is a function, the second
  is the one called. When the call that was made raises or rejects with \<open>e\<close>, the adapter
  returns the empty array and logs one warning carrying the capability's message and
  \<^verbatim>\<open>String(e)\<close>; the error does not reach the caller, and \<^verbatim>\<open>/recent\<close> goes on to ask Jikan:
  when Jikan is not cached and answers OK, the answer is \<^verbatim>\<open>mapJikan\<close> of the body's \<^verbatim>\<open>data\<close>,
  or status 500 with \<^verbatim>\<open>recent_failed\<close> when the body is null or \<^verbatim>\<open>mapJikan\<close> raises. A call
  without a page is a call with page 1.

  The search, details and stream capabilities call one method name (\<^verbatim>\<open>search\<close>,
  \<^verbatim>\<open>animeDetails\<close>, \<^verbatim>\<open>sources\<close>) inside the route's \<^verbatim>\<open>try\<close> block: when the method is a function
  it is called once and nothing else is called in the library; when that call raises or
  rejects, the route logs an error and answers with status 500 and the route's error code
  (\<^verbatim>\<open>search_failed\<close>, \<^verbatim>\<open>anime_failed\<close>, \<^verbatim>\<open>stream_failed\<close>), with no other outbound call; when the
  method is missing or falsy, no method of the library is called. This holds for a search
  query that is not blank, a details id without the \<^verbatim>\<open>mal-\<close> prefix, and a stream request with
  an \<^verbatim>\<open>ep\<close>.
\<close>

theorem native_alias_probing:
  "gogo E = Some g \<longrightarrow>
     (g ''recent'' = Fn f \<longrightarrow>
        (\<exists>rest. calls (snd (tryGogoRecent E (JNum page) s))
                  = calls s @ Native ''recent'' [JNum page] # rest)
      \<and> ((\<forall>v. f [JNum page] = Returns v \<longrightarrow> \<not> nullish v) \<longrightarrow>
           calls (snd (tryGogoRecent E (JNum page) s)) = calls s @ [Native ''recent'' [JNum page]])
      \<and> (fails (f [JNum page]) e \<longrightarrow>
           tryGogoRecent E (JNum page) s =
             (JArr [], s\<lparr>calls := calls s @ [Native ''recent'' [JNum page]],
                logs := logs s @ [(LWarn, [(''msg'', Data (JStr ''gogo recent failed'')),
                                           (''e'', StringOf e)])]\<rparr>))
      \<and> (fails (f [JNum page]) e
           \<and> \<not> lru_has (cache s) (clock E) (jikan_key (''/seasons/now?limit=24&page='' @ page))
           \<and> net E (jikan_url (''/seasons/now?limit=24&page='' @ page))
                = Response True st (Inr jk) \<longrightarrow>
           fst (recent E page s) =
             (case getp jk ''data'' of
                Inl x \<Rightarrow> err 500 ''recent_failed''
              | Inr d \<Rightarrow>
                  (case mapJikan d of Inl x \<Rightarrow> err 500 ''recent_failed'' | Inr r \<Rightarrow> ok r))))
   \<and> (g ''recent'' = Val v \<and> nullish v \<and> g ''fetchRecentReleases'' = Fn f' \<longrightarrow>
        calls (snd (tryGogoRecent E (JNum page) s))
          = calls s @ [Native ''fetchRecentReleases'' [JNum page]]
      \<and> (fails (f' [JNum page]) e \<longrightarrow>
           tryGogoRecent E (JNum page) s =
             (JArr [], s\<lparr>calls := calls s @ [Native ''fetchRecentReleases'' [JNum page]],
                logs := logs s @ [(LWarn, [(''msg'', Data (JStr ''gogo recent failed'')),
                                           (''e'', StringOf e)])]\<rparr>)))
   \<and> (g ''topAiring'' = Fn h \<longrightarrow>
        (\<exists>rest. calls (snd (tryGogoTop E (JNum page) s))
                  = calls s @ Native ''topAiring'' [JNum page] # rest)
      \<and> ((\<forall>v. h [JNum page] = Returns v \<longrightarrow> \<not> nullish v) \<longrightarrow>
           calls (snd (tryGogoTop E (JNum page) s)) = calls s @ [Native ''topAiring'' [JNum page]])
      \<and> (fails (h [JNum page]) e \<longrightarrow>
           tryGogoTop E (JNum page) s =
             (JArr [], s\<lparr>calls := calls s @ [Native ''topAiring'' [JNum page]],
                logs := logs s @ [(LWarn, [(''msg'', Data (JStr ''gogo top failed'')),
                                           (''e'', StringOf e)])]\<rparr>)))
   \<and> (g ''topAiring'' = Val w \<and> nullish w \<and> g ''trending'' = Fn h' \<longrightarrow>
        calls (snd (tryGogoTop E (JNum page) s)) = calls s @ [Native ''trending'' [JNum page]]
      \<and> (fails (h' [JNum page]) e \<longrightarrow>
           tryGogoTop E (JNum page) s =
             (JArr [], s\<lparr>calls := calls s @ [Native ''trending'' [JNum page]],
                logs := logs s @ [(LWarn, [(''msg'', Data (JStr ''gogo top failed'')),
                                           (''e'', StringOf e)])]\<rparr>)))
   \<and> tryGogoRecent E JUndefined s = tryGogoRecent E (JNum ''1'') s
   \<and> tryGogoTop E JUndefined s = tryGogoTop E (JNum ''1'') s
   \<and> (trim (query_string qp) = q \<and> q \<noteq> [] \<longrightarrow>
        (g ''search'' = Fn fs \<longrightarrow>
           calls (snd (search_native E q s)) = calls s @ [Native ''search'' [JStr q]])
      \<and> (g ''search'' = Fn fs \<and> fails (fs [JStr q]) e \<longrightarrow>
           search E qp s =
             (err 500 ''search_failed'',
              s\<lparr>calls := calls s @ [Native ''search'' [JStr q]],
                logs := logs s @ [(LError, [(''route'', Data (JStr ''search'')),
                                            (''e'', StringOf e)])]\<rparr>))
      \<and> (\<not> member_truthy (g ''search'') \<longrightarrow> search_native E q s = (Inr None, s)))
   \<and> (take 4 ident \<noteq> ''mal-'' \<longrightarrow>
        (g ''animeDetails'' = Fn fa \<longrightarrow>
           calls (snd (anime E ident s)) = calls s @ [Native ''animeDetails'' [JStr ident]])
      \<and> (g ''animeDetails'' = Fn fa \<and> fails (fa [JStr ident]) e \<longrightarrow>
           anime E ident s =
             (err 500 ''anime_failed'',
              s\<lparr>calls := calls s @ [Native ''animeDetails'' [JStr ident]],
                logs := logs s @ [(LError, [(''route'', Data (JStr ''anime'')),
                                            (''id'', Data (JStr ident)),
                                            (''e'', StringOf e)])]\<rparr>))
      \<and> (\<not> member_truthy (g ''animeDetails'') \<longrightarrow> calls (snd (anime E ident s)) = calls s))
   \<and> (query_string epp = ep \<and> ep \<noteq> [] \<longrightarrow>
        (g ''sources'' = Fn ft \<longrightarrow>
           calls (snd (stream E epp s)) = calls s @ [Native ''sources'' [JStr ep]])
      \<and> (g ''sources'' = Fn ft \<and> fails (ft [JStr ep]) e \<longrightarrow>
           stream E epp s =
             (err 500 ''stream_failed'',
              s\<lparr>calls := calls s @ [Native ''sources'' [JStr ep]],
                logs := logs s @ [(LError, [(''route'', Data (JStr ''stream'')),
                                            (''ep'', Data (JStr ep)),
                                            (''e'', StringOf e)])]\<rparr>))
      \<and> (\<not> member_truthy (g ''sources'') \<longrightarrow> calls (snd (stream E epp s)) = calls s))"
proof
  assume g: "gogo E = Some g"
  have u: "JNum page \<noteq> JUndefined" by simp
  note r = alias_probing [OF g u, of "''recent''" f "''fetchRecentReleases''" "''gogo recent failed''"
      s e v f', folded tryGogoRecent_def]
  note t = alias_probing [OF g u, of "''topAiring''" h "''trending''" "''gogo top failed''"
      s e w h', folded tryGogoTop_def]
  have c: "g ''recent'' = Fn f \<longrightarrow> fails (f [JNum page]) e
           \<and> \<not> lru_has (cache s) (clock E) (jikan_key (''/seasons/now?limit=24&page='' @ page))
           \<and> net E (jikan_url (''/seasons/now?limit=24&page='' @ page))
                = Response True st (Inr jk) \<longrightarrow>
           fst (recent E page s) =
             (case getp jk ''data'' of
                Inl x \<Rightarrow> err 500 ''recent_failed''
              | Inr d \<Rightarrow>
                  (case mapJikan d of Inl x \<Rightarrow> err 500 ''recent_failed'' | Inr r \<Rightarrow> ok r))"
    using recent_after_caught [OF g, of f page e s st jk] by blast
  have R1: "g ''recent'' = Fn f \<longrightarrow>
        (\<exists>rest. calls (snd (tryGogoRecent E (JNum page) s))
                  = calls s @ Native ''recent'' [JNum page] # rest)
      \<and> ((\<forall>v. f [JNum page] = Returns v \<longrightarrow> \<not> nullish v) \<longrightarrow>
           calls (snd (tryGogoRecent E (JNum page) s)) = calls s @ [Native ''recent'' [JNum page]])
      \<and> (fails (f [JNum page]) e \<longrightarrow>
           tryGogoRecent E (JNum page) s =
             (JArr [], s\<lparr>calls := calls s @ [Native ''recent'' [JNum page]],
                logs := logs s @ [(LWarn, [(''msg'', Data (JStr ''gogo recent failed'')),
                                           (''e'', StringOf e)])]\<rparr>))
      \<and> (fails (f [JNum page]) e
           \<and> \<not> lru_has (cache s) (clock E) (jikan_key (''/seasons/now?limit=24&page='' @ page))
           \<and> net E (jikan_url (''/seasons/now?limit=24&page='' @ page))
                = Response True st (Inr jk) \<longrightarrow>
           fst (recent E page s) =
             (case getp jk ''data'' of
                Inl x \<Rightarrow> err 500 ''recent_failed''
              | Inr d \<Rightarrow>
                  (case mapJikan d of Inl x \<Rightarrow> err 500 ''recent_failed'' | Inr r \<Rightarrow> ok r)))"
    using r [THEN conjunct1] c by blast
  note R2 = r [THEN conjunct2]
  note T1 = t [THEN conjunct1]
  note T2 = t [THEN conjunct2]
  have D1: "tryGogoRecent E JUndefined s = tryGogoRecent E (JNum ''1'') s"
    unfolding tryGogoRecent_def by (rule tryGogoAliases_default)
  have D2: "tryGogoTop E JUndefined s = tryGogoTop E (JNum ''1'') s"
    unfolding tryGogoTop_def by (rule tryGogoAliases_default)
  have S: "trim (query_string qp) = q \<and> q \<noteq> [] \<longrightarrow>
        (g ''search'' = Fn fs \<longrightarrow>
           calls (snd (search_native E q s)) = calls s @ [Native ''search'' [JStr q]])
      \<and> (g ''search'' = Fn fs \<and> fails (fs [JStr q]) e \<longrightarrow>
           search E qp s =
             (err 500 ''search_failed'',
              s\<lparr>calls := calls s @ [Native ''search'' [JStr q]],
                logs := logs s @ [(LError, [(''route'', Data (JStr ''search'')),
                                            (''e'', StringOf e)])]\<rparr>))
      \<and> (\<not> member_truthy (g ''search'') \<longrightarrow> search_native E q s = (Inr None, s))"
    using search_native_one_call [OF g, of fs q s] search_fails [OF g, of qp q fs e s]
      search_native_lacks [of E q s] g
    by (simp add: lacks_def)
  have A: "take 4 ident \<noteq> ''mal-'' \<longrightarrow>
        (g ''animeDetails'' = Fn fa \<longrightarrow>
           calls (snd (anime E ident s)) = calls s @ [Native ''animeDetails'' [JStr ident]])
      \<and> (g ''animeDetails'' = Fn fa \<and> fails (fa [JStr ident]) e \<longrightarrow>
           anime E ident s =
             (err 500 ''anime_failed'',
              s\<lparr>calls := calls s @ [Native ''animeDetails'' [JStr ident]],
                logs := logs s @ [(LError, [(''route'', Data (JStr ''anime'')),
                                            (''id'', Data (JStr ident)),
                                            (''e'', StringOf e)])]\<rparr>))
      \<and> (\<not> member_truthy (g ''animeDetails'') \<longrightarrow> calls (snd (anime E ident s)) = calls s)"
    using anime_one_call [OF g, of ident fa s] anime_fails [OF g, of ident fa e s]
      anime_other_lacking [of E ident s] g
    by (simp add: lacks_def)
  have T: "query_string epp = ep \<and> ep \<noteq> [] \<longrightarrow>
        (g ''sources'' = Fn ft \<longrightarrow>
           calls (snd (stream E epp s)) = calls s @ [Native ''sources'' [JStr ep]])
      \<and> (g ''sources'' = Fn ft \<and> fails (ft [JStr ep]) e \<longrightarrow>
           stream E epp s =
             (err 500 ''stream_failed'',
              s\<lparr>calls := calls s @ [Native ''sources'' [JStr ep]],
                logs := logs s @ [(LError, [(''route'', Data (JStr ''stream'')),
                                            (''ep'', Data (JStr ep)),
                                            (''e'', StringOf e)])]\<rparr>))
      \<and> (\<not> member_truthy (g ''sources'') \<longrightarrow> calls (snd (stream E epp s)) = calls s)"
    using stream_one_call [OF g, of epp ep ft s] stream_fails [OF g, of epp ep ft e s]
      stream_lacking [of E epp s] g
    by (auto simp: lacks_def)
  show "(g ''recent'' = Fn f \<longrightarrow>
        (\<exists>rest. calls (snd (tryGogoRecent E (JNum page) s))
                  = calls s @ Native ''recent'' [JNum page] # rest)
      \<and> ((\<forall>v. f [JNum page] = Returns v \<longrightarrow> \<not> nullish v) \<longrightarrow>
           calls (snd (tryGogoRecent E (JNum page) s)) = calls s @ [Native ''recent'' [JNum page]])
      \<and> (fails (f [JNum page]) e \<longrightarrow>
           tryGogoRecent E (JNum page) s =
             (JArr [], s\<lparr>calls := calls s @ [Native ''recent'' [JNum page]],
                logs := logs s @ [(LWarn, [(''msg'', Data (JStr ''gogo recent failed'')),
                                           (''e'', StringOf e)])]\<rparr>))
      \<and> (fails (f [JNum page]) e
           \<and> \<not> lru_has (cache s) (clock E) (jikan_key (''/seasons/now?limit=24&page='' @ page))
           \<and> net E (jikan_url (''/seasons/now?limit=24&page='' @ page))
                = Response True st (Inr jk) \<longrightarrow>
           fst (recent E page s) =
             (case getp jk ''data'' of
                Inl x \<Rightarrow> err 500 ''recent_failed''
              | Inr d \<Rightarrow>
                  (case mapJikan d of Inl x \<Rightarrow> err 500 ''recent_failed'' | Inr r \<Rightarrow> ok r))))
   \<and> (g ''recent'' = Val v \<and> nullish v \<and> g ''fetchRecentReleases'' = Fn f' \<longrightarrow>
        calls (snd (tryGogoRecent E (JNum page) s))
          = calls s @ [Native ''fetchRecentReleases'' [JNum page]]
      \<and> (fails (f' [JNum page]) e \<longrightarrow>
           tryGogoRecent E (JNum page) s =
             (JArr [], s\<lparr>calls := calls s @ [Native ''fetchRecentReleases'' [JNum page]],
                logs := logs s @ [(LWarn, [(''msg'', Data (JStr ''gogo recent failed'')),
                                           (''e'', StringOf e)])]\<rparr>)))
   \<and> (g ''topAiring'' = Fn h \<longrightarrow>
        (\<exists>rest. calls (snd (tryGogoTop E (JNum page) s))
                  = calls s @ Native ''topAiring'' [JNum page] # rest)
      \<and> ((\<forall>v. h [JNum page] = Returns v \<longrightarrow> \<not> nullish v) \<longrightarrow>
           calls (snd (tryGogoTop E (JNum page) s)) = calls s @ [Native ''topAiring'' [JNum page]])
      \<and> (fails (h [JNum page]) e \<longrightarrow>
           tryGogoTop E (JNum page) s =
             (JArr [], s\<lparr>calls := calls s @ [Native ''topAiring'' [JNum page]],
                logs := logs s @ [(LWarn, [(''msg'', Data (JStr ''gogo top failed'')),
                                           (''e'', StringOf e)])]\<rparr>)))
   \<and> (g ''topAiring'' = Val w \<and> nullish w \<and> g ''trending'' = Fn h' \<longrightarrow>
        calls (snd (tryGogoTop E (JNum page) s)) = calls s @ [Native ''trending'' [JNum page]]
      \<and> (fails (h' [JNum page]) e \<longrightarrow>
           tryGogoTop E (JNum page) s =
             (JArr [], s\<lparr>calls := calls s @ [Native ''trending'' [JNum page]],
                logs := logs s @ [(LWarn, [(''msg'', Data (JStr ''gogo top failed'')),
                                           (''e'', StringOf e)])]\<rparr>)))
   \<and> tryGogoRecent E JUndefined s = tryGogoRecent E (JNum ''1'') s
   \<and> tryGogoTop E JUndefined s = tryGogoTop E (JNum ''1'') s
   \<and> (trim (query_string qp) = q \<and> q \<noteq> [] \<longrightarrow>
        (g ''search'' = Fn fs \<longrightarrow>
           calls (snd (search_native E q s)) = calls s @ [Native ''search'' [JStr q]])
      \<and> (g ''search'' = Fn fs \<and> fails (fs [JStr q]) e \<longrightarrow>
           search E qp s =
             (err 500 ''search_failed'',
              s\<lparr>calls := calls s @ [Native ''search'' [JStr q]],
                logs := logs s @ [(LError, [(''route'', Data (JStr ''search'')),
                                            (''e'', StringOf e)])]\<rparr>))
      \<and> (\<not> member_truthy (g ''search'') \<longrightarrow> search_native E q s = (Inr None, s)))
   \<and> (take 4 ident \<noteq> ''mal-'' \<longrightarrow>
        (g ''animeDetails'' = Fn fa \<longrightarrow>
           calls (snd (anime E ident s)) = calls s @ [Native ''animeDetails'' [JStr ident]])
      \<and> (g ''animeDetails'' = Fn fa \<and> fails (fa [JStr ident]) e \<longrightarrow>
           anime E ident s =
             (err 500 ''anime_failed'',
              s\<lparr>calls := calls s @ [Native ''animeDetails'' [JStr ident]],
                logs := logs s @ [(LError, [(''route'', Data (JStr ''anime'')),
                                            (''id'', Data (JStr ident)),
                                            (''e'', StringOf e)])]\<rparr>))
      \<and> (\<not> member_truthy (g ''animeDetails'') \<longrightarrow> calls (snd (anime E ident s)) = calls s))
   \<and> (query_string epp = ep \<and> ep \<noteq> [] \<longrightarrow>
        (g ''sources'' = Fn ft \<longrightarrow>
           calls (snd (stream E epp s)) = calls s @ [Native ''sources'' [JStr ep]])
      \<and> (g ''sources'' = Fn ft \<and> fails (ft [JStr ep]) e \<longrightarrow>
           stream E epp s =
             (err 500 ''stream_failed'',
              s\<lparr>calls := calls s @ [Native ''sources'' [JStr ep]],
                logs := logs s @ [(LError, [(''route'', Data (JStr ''stream'')),
                                            (''ep'', Data (JStr ep)),
                                            (''e'', StringOf e)])]\<rparr>))
      \<and> (\<not> member_truthy (g ''sources'') \<longrightarrow> calls (snd (stream E epp s)) = calls s))"
    by (rule conjI [OF R1], rule conjI [OF R2], rule conjI [OF T1], rule conjI [OF T2],
        rule conjI [OF D1], rule conjI [OF D2], rule conjI [OF S], rule conjI [OF A], rule T)
qed

text \<open>
  C3, as the claim states it, fails for the search capability: \<^verbatim>\<open>/search\<close> calls
  \<^verbatim>\<open>gogo.search\<close> under one name only, and when the call raises, the route's own \<^verbatim>\<open>catch\<close> logs
  an error (not a warning) and answers 500, although Jikan was reachable and was never asked.
\<close>

theorem native_alias_counterexample:
  "call_method lib_throwing ''search'' [JStr ''naruto''] []
     = (Inl (Exn ''Error'' ''upstream changed''), [Native ''search'' [JStr ''naruto'']])
   \<and> fst (search env_throwing (Some ''naruto'') server_init)
       = \<lparr>status = 500, body = JObj [(''error'', JStr ''search_failed'')]\<rparr>
   \<and> logs (snd (search env_throwing (Some ''naruto'') server_init))
       = [(LError, [(''route'', Data (JStr ''search'')),
                    (''e'', StringOf (Exn ''Error'' ''upstream changed''))])]
   \<and> calls (snd (search env_throwing (Some ''naruto'') server_init))
       = [Native ''search'' [JStr ''naruto'']]"
  by (simp add: search_def trim_naruto search_body_def search_native_def env_throwing_def
      lib_throwing_def member_truthy_def call_method_def catch_route_def err_def
      server_init_def)

theorem native_alias_probing_witness:
  "tryGogoRecent env_secondary (JNum ''1'') server_init
     = (JArr [JObj [(''name'', JStr ''Naruto'')]],
        server_init\<lparr>calls := [Native ''fetchRecentReleases'' [JNum ''1'']]\<rparr>)
   \<and> tryGogoRecent env_throwing (JNum ''1'') server_init
     = (JArr [], server_init\<lparr>calls := [Native ''recent'' [JNum ''1'']],
          logs := [(LWarn, [(''msg'', Data (JStr ''gogo recent failed'')),
                            (''e'', StringOf (Exn ''Error'' ''upstream changed''))])]\<rparr>)
   \<and> tryGogoTop env_throwing (JNum ''1'') server_init
     = (JArr [], server_init\<lparr>calls := [Native ''topAiring'' [JNum ''1'']],
          logs := [(LWarn, [(''msg'', Data (JStr ''gogo top failed'')),
                            (''e'', StringOf (Exn ''Error'' ''upstream changed''))])]\<rparr>)
   \<and> fst (recent env_throwing ''1'' server_init) = ok normalized_body
   \<and> calls (snd (tryGogoTop env_secondary (JNum ''1'') server_init))
       = [Native ''trending'' [JNum ''1'']]
   \<and> anime env_throwing ''one-piece'' server_init
     = (err 500 ''anime_failed'',
        server_init\<lparr>calls := [Native ''animeDetails'' [JStr ''one-piece'']],
          logs := [(LError, [(''route'', Data (JStr ''anime'')), (''id'', Data (JStr ''one-piece'')),
                             (''e'', StringOf (Exn ''Error'' ''upstream changed''))])]\<rparr>)
   \<and> stream env_throwing (Some ''one-piece-episode-1'') server_init
     = (err 500 ''stream_failed'',
        server_init\<lparr>calls := [Native ''sources'' [JStr ''one-piece-episode-1'']],
          logs := [(LError, [(''route'', Data (JStr ''stream'')),
                             (''ep'', Data (JStr ''one-piece-episode-1'')),
                             (''e'', StringOf (Exn ''Error'' ''upstream changed''))])]\<rparr>)"
proof -
  let ?d = "JArr [JObj [(''mal_id'', JNum ''21''), (''title'', JStr ''One Piece'')]]"
  let ?e = "Exn ''Error'' ''upstream changed''"
  note c2 = conjunct2
  have a0: "lib_secondary ''topAiring'' = Val JUndefined"
    "lib_secondary ''trending''
       = Fn (\<lambda>_. Resolves (JObj [(''results'', JArr [JObj [(''name'', JStr ''Naruto'')]])]))"
    by (simp_all add: lib_secondary_def)
  have g1: "gogo env_secondary = Some lib_secondary" by (simp add: env_secondary_def)
  have a1: "lib_secondary ''recent'' = Val JUndefined" "nullish JUndefined"
    "lib_secondary ''fetchRecentReleases''
       = Fn (\<lambda>_. Resolves (JObj [(''results'', JArr [JObj [(''name'', JStr ''Naruto'')]])]))"
    by (simp_all add: lib_secondary_def)
  note ws = native_alias_probing [of env_secondary lib_secondary "\<lambda>_. Throws ?e" "''1''"
      server_init ?e 200 jikan_body JUndefined
      "\<lambda>_. Resolves (JObj [(''results'', JArr [JObj [(''name'', JStr ''Naruto'')]])])"
      "\<lambda>_. Throws ?e" JUndefined
      "\<lambda>_. Resolves (JObj [(''results'', JArr [JObj [(''name'', JStr ''Naruto'')]])])"
      "Some ''naruto''" "''naruto''" "\<lambda>_. Throws ?e" "''one-piece''" "\<lambda>_. Throws ?e"
      "Some ''one-piece-episode-1''" "''one-piece-episode-1''" "\<lambda>_. Throws ?e", rule_format, OF g1]
  have c1: "calls (snd (tryGogoRecent env_secondary (JNum ''1'') server_init))
              = calls server_init @ [Native ''fetchRecentReleases'' [JNum ''1'']]"
    using ws [THEN c2, THEN conjunct1] a1 by blast
  have c0: "calls (snd (tryGogoTop env_secondary (JNum ''1'') server_init))
              = calls server_init @ [Native ''trending'' [JNum ''1'']]"
    using ws [THEN c2, THEN c2, THEN c2, THEN conjunct1] a0 a1(2) by blast
  have v1: "fst (tryGogoRecent env_secondary (JNum ''1'') server_init)
              = JArr [JObj [(''name'', JStr ''Naruto'')]]"
    "logs (snd (tryGogoRecent env_secondary (JNum ''1'') server_init)) = []"
    "cache (snd (tryGogoRecent env_secondary (JNum ''1'') server_init)) = cache_init"
    by (simp_all add: tryGogoRecent_def tryGogoAliases_def env_secondary_def alias_call_def
        opt_call_def lib_secondary_def await_def js_or_def is_array_def server_init_def)
  have g2: "gogo env_throwing = Some lib_throwing" by (simp add: env_throwing_def)
  have a2: "lib_throwing name = Fn (\<lambda>_. Throws ?e)" "fails ((\<lambda>_. Throws ?e) args) ?e" for name args
    by (simp_all add: lib_throwing_def fails_def)
  have miss: "\<not> lru_has (cache server_init) t k" for t k
    by (simp add: server_init_def cache_init_def lru_new_def lru_has_def lru_find_def)
  have n: "net env_throwing u = Response True 200 (Inr jikan_body)" for u
    by (simp add: env_throwing_def)
  have d: "getp jikan_body ''data'' = Inr ?d" by (simp add: getp_def jikan_body_def)
  have m: "mapJikan ?d = Inr normalized_body"
    by (simp add: mapJikan_def map_items_def mapJikan_item_def optp_def normalized_body_def)
  note w = native_alias_probing [of env_throwing lib_throwing "\<lambda>_. Throws ?e" "''1''" server_init
      ?e 200 jikan_body JUndefined "\<lambda>_. Throws ?e" "\<lambda>_. Throws ?e" JUndefined "\<lambda>_. Throws ?e"
      "Some ''naruto''" "''naruto''" "\<lambda>_. Throws ?e" "''one-piece''" "\<lambda>_. Throws ?e"
      "Some ''one-piece-episode-1''" "''one-piece-episode-1''" "\<lambda>_. Throws ?e", rule_format, OF g2]
  have c3: "tryGogoRecent env_throwing (JNum ''1'') server_init
     = (JArr [], server_init\<lparr>calls := calls server_init @ [Native ''recent'' [JNum ''1'']],
          logs := logs server_init @ [(LWarn, [(''msg'', Data (JStr ''gogo recent failed'')),
                                               (''e'', StringOf ?e)])]\<rparr>)"
    using w [THEN conjunct1] a2 by blast
  have c4: "tryGogoTop env_throwing (JNum ''1'') server_init
     = (JArr [], server_init\<lparr>calls := calls server_init @ [Native ''topAiring'' [JNum ''1'']],
          logs := logs server_init @ [(LWarn, [(''msg'', Data (JStr ''gogo top failed'')),
                                               (''e'', StringOf ?e)])]\<rparr>)"
    using w [THEN c2, THEN c2, THEN conjunct1] a2 by blast
  have "fst (recent env_throwing ''1'' server_init) =
     (case getp jikan_body ''data'' of
        Inl x \<Rightarrow> err 500 ''recent_failed''
      | Inr d \<Rightarrow> (case mapJikan d of Inl x \<Rightarrow> err 500 ''recent_failed'' | Inr r \<Rightarrow> ok r))"
    using w [THEN conjunct1] a2 miss n by blast
  then have c5: "fst (recent env_throwing ''1'' server_init) = ok normalized_body"
    by (simp add: d m)
  have t1: "take 4 ''one-piece'' \<noteq> ''mal-''" by simp
  have c6: "anime env_throwing ''one-piece'' server_init
     = (err 500 ''anime_failed'',
        server_init\<lparr>calls := calls server_init @ [Native ''animeDetails'' [JStr ''one-piece'']],
          logs := logs server_init @
            [(LError, [(''route'', Data (JStr ''anime'')), (''id'', Data (JStr ''one-piece'')),
                       (''e'', StringOf ?e)])]\<rparr>)"
    using w [THEN c2, THEN c2, THEN c2, THEN c2, THEN c2, THEN c2, THEN c2, THEN conjunct1]
      t1 a2 by blast
  have q1: "query_string (Some ''one-piece-episode-1'') = ''one-piece-episode-1''"
    "''one-piece-episode-1'' \<noteq> []"
    by (simp_all add: query_string_def)
  have c7: "stream env_throwing (Some ''one-piece-episode-1'') server_init
     = (err 500 ''stream_failed'',
        server_init\<lparr>calls := calls server_init @ [Native ''sources'' [JStr ''one-piece-episode-1'']],
          logs := logs server_init @
            [(LError, [(''route'', Data (JStr ''stream'')),
                       (''ep'', Data (JStr ''one-piece-episode-1'')),
                       (''e'', StringOf ?e)])]\<rparr>)"
    using w [THEN c2, THEN c2, THEN c2, THEN c2, THEN c2, THEN c2, THEN c2, THEN c2]
      q1 a2 by blast
  have s1: "tryGogoRecent env_secondary (JNum ''1'') server_init
     = (JArr [JObj [(''name'', JStr ''Naruto'')]],
        server_init\<lparr>calls := [Native ''fetchRecentReleases'' [JNum ''1'']]\<rparr>)"
    using c1 v1
    by (cases "tryGogoRecent env_secondary (JNum ''1'') server_init")
       (simp add: server_init_def)
  from s1 c3 c4 c5 c0 c6 c7 show ?thesis by (simp add: server_init_def)
qed

section \<open>Loading the optional library\<close>

lemma tryLoadLibs_memo:
  "goLib s = Some l \<Longrightarrow> tryLoadLibs E s = (Some l, s)"
  by (simp add: tryLoadLibs_def)

lemma load_loop_all_fail:
  assumes "\<forall>n\<in>set names. loads (importer E n) = None"
  shows "load_loop E names s =
     (None, s\<lparr>lcalls := lcalls s @ map Import names, goLib := None,
              console := console s @ [''[gogo] no optional lib found; using public fallback only'']\<rparr>)"
  using assms
proof (induction names arbitrary: s)
  case Nil
  show ?case by simp
next
  case (Cons n ns)
  have "loads (importer E n) = None" using Cons.prems by simp
  moreover have "\<forall>n\<in>set ns. loads (importer E n) = None" using Cons.prems by simp
  ultimately show ?case
    by (simp add: Cons.IH loads_def Let_def split: import_result.splits option.splits)
qed

lemma load_loop_success:
  "fst (load_loop E names s) = Some l \<Longrightarrow> goLib (snd (load_loop E names s)) = Some l"
proof (induction names arbitrary: s)
  case Nil
  then show ?case by simp
next
  case (Cons n ns)
  then show ?case
    by (simp add: Let_def split: import_result.splits option.splits)
qed

lemma tryLoadLibs_success:
  assumes "fst (tryLoadLibs E s) = Some l"
  shows "goLib (snd (tryLoadLibs E s)) = Some l"
  using assms load_loop_success [of E candidates s l]
  by (cases "goLib s") (simp_all add: tryLoadLibs_def)

lemma tryLoadLibs_all_fail:
  assumes "goLib s = None" and "\<forall>n\<in>set candidates. loads (importer E n) = None"
  shows "tryLoadLibs E s =
     (None, s\<lparr>lcalls := lcalls s @ [Import ''gogoanime-api'', Import ''gogoanime-api-new''],
              goLib := None,
              console := console s @ [''[gogo] no optional lib found; using public fallback only'']\<rparr>)"
  using assms(1) load_loop_all_fail [OF assms(2), of s]
  by (simp add: tryLoadLibs_def candidates_def)

text \<open>
  C7, amended. \<^verbatim>\<open>tryLoadLibs\<close> memoizes a successful load only. Once a candidate has been
  constructed, every later call returns that instance and attempts no import, whatever the
  importer would answer then. When every candidate fails, the call reports that there is no
  library, leaves \<^verbatim>\<open>goLib\<close> at \<^verbatim>\<open>null\<close>, and the next call attempts both candidates again, in
  the same order.
\<close>

theorem load_memoizes_success_only:
  "(goLib s = Some l \<longrightarrow> tryLoadLibs E s = (Some l, s))
   \<and> (fst (tryLoadLibs E s) = Some l \<longrightarrow>
        goLib (snd (tryLoadLibs E s)) = Some l
      \<and> tryLoadLibs E' (snd (tryLoadLibs E s)) = (Some l, snd (tryLoadLibs E s)))
   \<and> (goLib s = None \<and> (\<forall>n\<in>set candidates. loads (importer E n) = None) \<longrightarrow>
        fst (tryLoadLibs E s) = None
      \<and> goLib (snd (tryLoadLibs E s)) = None
      \<and> lcalls (snd (tryLoadLibs E s))
          = lcalls s @ [Import ''gogoanime-api'', Import ''gogoanime-api-new'']
      \<and> fst (tryLoadLibs E (snd (tryLoadLibs E s))) = None
      \<and> lcalls (snd (tryLoadLibs E (snd (tryLoadLibs E s))))
          = lcalls s @ [Import ''gogoanime-api'', Import ''gogoanime-api-new'',
                        Import ''gogoanime-api'', Import ''gogoanime-api-new''])"
proof -
  have a: "goLib s = Some l \<longrightarrow> tryLoadLibs E s = (Some l, s)"
    using tryLoadLibs_memo by blast
  have b: "fst (tryLoadLibs E s) = Some l \<longrightarrow>
        goLib (snd (tryLoadLibs E s)) = Some l
      \<and> tryLoadLibs E' (snd (tryLoadLibs E s)) = (Some l, snd (tryLoadLibs E s))"
    using tryLoadLibs_success [of E s l] tryLoadLibs_memo [of "snd (tryLoadLibs E s)" l E']
    by blast
  have c: "goLib s = None \<and> (\<forall>n\<in>set candidates. loads (importer E n) = None) \<longrightarrow>
        fst (tryLoadLibs E s) = None
      \<and> goLib (snd (tryLoadLibs E s)) = None
      \<and> lcalls (snd (tryLoadLibs E s))
          = lcalls s @ [Import ''gogoanime-api'', Import ''gogoanime-api-new'']
      \<and> fst (tryLoadLibs E (snd (tryLoadLibs E s))) = None
      \<and> lcalls (snd (tryLoadLibs E (snd (tryLoadLibs E s))))
          = lcalls s @ [Import ''gogoanime-api'', Import ''gogoanime-api-new'',
                        Import ''gogoanime-api'', Import ''gogoanime-api-new'']"
  proof (intro impI, elim conjE)
    assume h: "goLib s = None" "\<forall>n\<in>set candidates. loads (importer E n) = None"
    let ?s1 = "s\<lparr>lcalls := lcalls s @ [Import ''gogoanime-api'', Import ''gogoanime-api-new''],
              goLib := None,
              console := console s @ [''[gogo] no optional lib found; using public fallback only'']\<rparr>"
    have 1: "tryLoadLibs E s = (None, ?s1)" by (rule tryLoadLibs_all_fail [OF h])
    have "goLib ?s1 = None" by simp
    note 2 = tryLoadLibs_all_fail [OF this h(2)]
    show "fst (tryLoadLibs E s) = None
      \<and> goLib (snd (tryLoadLibs E s)) = None
      \<and> lcalls (snd (tryLoadLibs E s))
          = lcalls s @ [Import ''gogoanime-api'', Import ''gogoanime-api-new'']
      \<and> fst (tryLoadLibs E (snd (tryLoadLibs E s))) = None
      \<and> lcalls (snd (tryLoadLibs E (snd (tryLoadLibs E s))))
          = lcalls s @ [Import ''gogoanime-api'', Import ''gogoanime-api-new'',
                        Import ''gogoanime-api'', Import ''gogoanime-api-new'']"
      unfolding 1 by (simp add: 2)
  qed
  from a b c show ?thesis by blast
qed

text \<open>
  C7, as the claim states it, fails: when both candidates fail to import, \<^verbatim>\<open>goLib\<close> stays
  \<^verbatim>\<open>null\<close>, which is also its value before any attempt, so the second call of \<^verbatim>\<open>tryLoadLibs\<close>
  imports both candidates again.
\<close>

theorem load_retried_counterexample:
  "fst (tryLoadLibs lenv_down loader_init) = None
   \<and> lcalls (snd (tryLoadLibs lenv_down loader_init))
       = [Import ''gogoanime-api'', Import ''gogoanime-api-new'']
   \<and> lcalls (snd (tryLoadLibs lenv_down (snd (tryLoadLibs lenv_down loader_init))))
       = [Import ''gogoanime-api'', Import ''gogoanime-api-new'',
          Import ''gogoanime-api'', Import ''gogoanime-api-new'']"
  by (simp add: tryLoadLibs_down) (simp add: tryLoadLibs_def candidates_def lenv_down_def Let_def)

theorem load_memoizes_success_only_witness:
  "tryLoadLibs lenv_down (snd (tryLoadLibs lenv_empty_search loader_init))
     = (Some lib_empty_search, snd (tryLoadLibs lenv_empty_search loader_init))
   \<and> lcalls (snd (tryLoadLibs lenv_down (snd (tryLoadLibs lenv_empty_search loader_init))))
       = [Import ''gogoanime-api'']
   \<and> goLib (snd (tryLoadLibs lenv_down loader_init)) = None
   \<and> lcalls (snd (tryLoadLibs lenv_down (snd (tryLoadLibs lenv_down loader_init))))
       = [Import ''gogoanime-api'', Import ''gogoanime-api-new'',
          Import ''gogoanime-api'', Import ''gogoanime-api-new'']"
proof -
  have f: "fst (tryLoadLibs lenv_empty_search loader_init) = Some lib_empty_search"
    by (simp add: tryLoadLibs_empty_search)
  have n: "goLib loader_init = None" by (simp add: loader_init_def)
  have d: "\<forall>n\<in>set candidates. loads (importer lenv_down n) = None"
    by (simp add: lenv_down_def loads_def)
  have l0: "lcalls loader_init = []" by (simp add: loader_init_def)
  have l1: "lcalls (snd (tryLoadLibs lenv_empty_search loader_init)) = [Import ''gogoanime-api'']"
    by (simp add: tryLoadLibs_empty_search)
  show ?thesis
    using load_memoizes_success_only [of loader_init lib_empty_search lenv_empty_search lenv_down]
      load_memoizes_success_only [of loader_init lib_empty_search lenv_down lenv_down]
      f n d l0 l1
    by simp
qed

section \<open>Details for a fallback id\<close>

lemma jikan_calls:
  "calls (snd (jikan E path s)) = calls s
   \<or> calls (snd (jikan E path s)) = calls s @ [Fetch (jikan_url path)]"
  unfolding jikan_unfold by (simp split: http_result.splits sum.splits)

lemma catch_route_calls: "calls (snd (catch_route about code r)) = calls (snd r)"
  by (cases r) (simp add: catch_route_def split: sum.splits)

lemma anime_mal_body_calls:
  assumes "take 4 ident = ''mal-''"
  shows "calls (snd (anime_body E ident s)) = calls (snd (jikan E (''/anime/'' @ drop 4 ident) s))"
  using assms
  by (cases "jikan E (''/anime/'' @ drop 4 ident) s")
     (simp add: anime_body_def Let_def split: sum.splits)

lemma anime_mal_calls:
  assumes "take 4 ident = ''mal-''"
  shows "calls (snd (anime E ident s)) = calls s
   \<or> calls (snd (anime E ident s)) = calls s @ [Fetch (jikan_url (''/anime/'' @ drop 4 ident))]"
  using jikan_calls [of E "''/anime/'' @ drop 4 ident" s]
  by (simp add: anime_def catch_route_calls anime_mal_body_calls [OF assms])

lemma anime_mal_cases:
  assumes "take 4 ident = ''mal-''"
  shows "fst (anime E ident s) =
     (case fst (jikan E (''/anime/'' @ drop 4 ident) s) of
        Inl e \<Rightarrow> err 500 ''anime_failed''
      | Inr jk \<Rightarrow>
          if nullish jk then err 500 ''anime_failed''
          else ok (JObj
            [(''title'', field (js_or (field jk ''data'') (JObj [])) ''title''),
             (''image_url'',
                js_or (optp (optp (field (js_or (field jk ''data'') (JObj [])) ''images'') ''jpg'')
                         ''image_url'') (JStr [])),
             (''description'',
                js_or (field (js_or (field jk ''data'') (JObj [])) ''synopsis'') (JStr [])),
             (''episodes'',
                js_coalesce (field (js_or (field jk ''data'') (JObj [])) ''episodes'')
                  (JNum ''0''))]))"
  using assms
  by (cases "jikan E (''/anime/'' @ drop 4 ident) s")
     (simp add: anime_def anime_body_def catch_route_def getp_def Let_def split: sum.splits)

text \<open>
  C8, amended. A details request whose id starts with \<^verbatim>\<open>mal-\<close> goes to Jikan and never calls
  the native library: the only outbound call it can add is the one request to
  \<^verbatim>\<open>/anime/<id without the prefix>\<close>, which it makes when nothing live is cached for it. When
  the Jikan lookup fails, and when it yields a body that is null or undefined, the answer is
  status 500 with \<^verbatim>\<open>anime_failed\<close>. When the lookup yields any other body, the answer has
  status 200 and its \<^verbatim>\<open>episodes\<close> is 0 when the upstream field is absent or null, and the
  upstream value, unchanged, otherwise; so it is a non-negative integer whenever the upstream
  value is one or is absent. The upstream field is \<^verbatim>\<open>episodes\<close> of the body's \<^verbatim>\<open>data\<close>, or of
  \<^verbatim>\<open>{}\<close> when \<^verbatim>\<open>data\<close> is falsy.
\<close>

theorem details_fallback_route:
  "take 4 ident = ''mal-'' \<longrightarrow>
     (calls (snd (anime E ident s)) = calls s
      \<or> calls (snd (anime E ident s)) = calls s @ [Fetch (jikan_url (''/anime/'' @ drop 4 ident))])
   \<and> (\<not> lru_has (cache s) (clock E) (jikan_key (''/anime/'' @ drop 4 ident)) \<longrightarrow>
        calls (snd (anime E ident s)) = calls s @ [Fetch (jikan_url (''/anime/'' @ drop 4 ident))])
   \<and> (\<not> lru_has (cache s) (clock E) (jikan_key (''/anime/'' @ drop 4 ident))
        \<and> net E (jikan_url (''/anime/'' @ drop 4 ident)) = Response True st (Inr jk) \<longrightarrow>
        fst (jikan E (''/anime/'' @ drop 4 ident) s) = Inr jk)
   \<and> (fst (jikan E (''/anime/'' @ drop 4 ident) s) = Inl e \<longrightarrow>
        fst (anime E ident s) = \<lparr>status = 500, body = JObj [(''error'', JStr ''anime_failed'')]\<rparr>)
   \<and> (fst (jikan E (''/anime/'' @ drop 4 ident) s) = Inr jk \<and> nullish jk \<longrightarrow>
        fst (anime E ident s) = \<lparr>status = 500, body = JObj [(''error'', JStr ''anime_failed'')]\<rparr>)
   \<and> (fst (jikan E (''/anime/'' @ drop 4 ident) s) = Inr jk \<and> \<not> nullish jk \<longrightarrow>
        status (fst (anime E ident s)) = 200
      \<and> field (body (fst (anime E ident s))) ''episodes''
          = (if nullish (field (js_or (field jk ''data'') (JObj [])) ''episodes'') then JNum ''0''
             else field (js_or (field jk ''data'') (JObj [])) ''episodes'')
      \<and> (nullish (field (js_or (field jk ''data'') (JObj [])) ''episodes'')
          \<or> nonneg_int (field (js_or (field jk ''data'') (JObj [])) ''episodes'') \<longrightarrow>
          nonneg_int (field (body (fst (anime E ident s))) ''episodes'')))"
proof
  assume m: "take 4 ident = ''mal-''"
  let ?p = "''/anime/'' @ drop 4 ident"
  note c = anime_mal_cases [OF m, of E s]
  have f: "\<not> lru_has (cache s) (clock E) (jikan_key ?p) \<longrightarrow>
        calls (snd (anime E ident s)) = calls s @ [Fetch (jikan_url ?p)]"
    unfolding anime_def catch_route_calls anime_mal_body_calls [OF m] jikan_unfold
    by (simp split: http_result.splits sum.splits)
  have j: "\<not> lru_has (cache s) (clock E) (jikan_key ?p)
        \<and> net E (jikan_url ?p) = Response True st (Inr jk) \<longrightarrow>
        fst (jikan E ?p s) = Inr jk"
    using jikan_store(1) [of s E ?p st jk] by blast
  have l: "fst (jikan E ?p s) = Inl e \<longrightarrow>
        fst (anime E ident s) = \<lparr>status = 500, body = JObj [(''error'', JStr ''anime_failed'')]\<rparr>"
    unfolding c by (simp add: err_def)
  have n: "fst (jikan E ?p s) = Inr jk \<and> nullish jk \<longrightarrow>
        fst (anime E ident s) = \<lparr>status = 500, body = JObj [(''error'', JStr ''anime_failed'')]\<rparr>"
    unfolding c by (simp add: err_def)
  have b: "fst (jikan E ?p s) = Inr jk \<and> \<not> nullish jk \<longrightarrow>
        status (fst (anime E ident s)) = 200
      \<and> field (body (fst (anime E ident s))) ''episodes''
          = (if nullish (field (js_or (field jk ''data'') (JObj [])) ''episodes'') then JNum ''0''
             else field (js_or (field jk ''data'') (JObj [])) ''episodes'')
      \<and> (nullish (field (js_or (field jk ''data'') (JObj [])) ''episodes'')
          \<or> nonneg_int (field (js_or (field jk ''data'') (JObj [])) ''episodes'') \<longrightarrow>
          nonneg_int (field (body (fst (anime E ident s))) ''episodes''))"
    unfolding c by (simp add: ok_def js_coalesce_def nonneg_int_def is_digit_def)
  show "(calls (snd (anime E ident s)) = calls s
      \<or> calls (snd (anime E ident s)) = calls s @ [Fetch (jikan_url ?p)])
   \<and> (\<not> lru_has (cache s) (clock E) (jikan_key ?p) \<longrightarrow>
        calls (snd (anime E ident s)) = calls s @ [Fetch (jikan_url ?p)])
   \<and> (\<not> lru_has (cache s) (clock E) (jikan_key ?p)
        \<and> net E (jikan_url ?p) = Response True st (Inr jk) \<longrightarrow>
        fst (jikan E ?p s) = Inr jk)
   \<and> (fst (jikan E ?p s) = Inl e \<longrightarrow>
        fst (anime E ident s) = \<lparr>status = 500, body = JObj [(''error'', JStr ''anime_failed'')]\<rparr>)
   \<and> (fst (jikan E ?p s) = Inr jk \<and> nullish jk \<longrightarrow>
        fst (anime E ident s) = \<lparr>status = 500, body = JObj [(''error'', JStr ''anime_failed'')]\<rparr>)
   \<and> (fst (jikan E ?p s) = Inr jk \<and> \<not> nullish jk \<longrightarrow>
        status (fst (anime E ident s)) = 200
      \<and> field (body (fst (anime E ident s))) ''episodes''
          = (if nullish (field (js_or (field jk ''data'') (JObj [])) ''episodes'') then JNum ''0''
             else field (js_or (field jk ''data'') (JObj [])) ''episodes'')
      \<and> (nullish (field (js_or (field jk ''data'') (JObj [])) ''episodes'')
          \<or> nonneg_int (field (js_or (field jk ''data'') (JObj [])) ''episodes'') \<longrightarrow>
          nonneg_int (field (body (fst (anime E ident s))) ''episodes'')))"
    by (rule conjI [OF anime_mal_calls [OF m]], rule conjI [OF f], rule conjI [OF j],
        rule conjI [OF l], rule conjI [OF n], rule b)
qed

text \<open>
  C8, as the claim states it, fails: the handler copies the upstream \<^verbatim>\<open>episodes\<close> value
  whenever it is not null or undefined, without checking it. For the Jikan body
  \<^verbatim>\<open>{data: {title: 'One Piece', episodes: -1}}\<close> the answer has \<^verbatim>\<open>episodes: -1\<close>.
\<close>

theorem details_episodes_counterexample:
  "status (fst (anime env_negative ''mal-21'' server_init)) = 200
   \<and> field (body (fst (anime env_negative ''mal-21'' server_init))) ''episodes'' = JNum ''-1''
   \<and> \<not> nonneg_int (field (body (fst (anime env_negative ''mal-21'' server_init))) ''episodes'')"
  by (simp add: anime_def anime_body_def jikan_def env_negative_def negative_body_def
      server_init_def cache_init_def lru_new_def lru_has_def lru_find_def lru_set_def getp_def
      js_or_def js_coalesce_def optp_def catch_route_def ok_def nonneg_int_def is_digit_def
      Let_def)

theorem details_fallback_route_witness:
  "calls (snd (anime env_throwing ''mal-21'' server_init)) = [Fetch ''https://api.jikan.moe/v4/anime/21'']
   \<and> status (fst (anime env_throwing ''mal-21'' server_init)) = 200
   \<and> field (body (fst (anime env_throwing ''mal-21'' server_init))) ''episodes'' = JNum ''0''
   \<and> nonneg_int (field (body (fst (anime env_throwing ''mal-21'' server_init))) ''episodes'')
   \<and> fst (anime env_down ''mal-21'' server_init)
       = \<lparr>status = 500, body = JObj [(''error'', JStr ''anime_failed'')]\<rparr>"
proof -
  note c2 = conjunct2
  have m: "take 4 ''mal-21'' = ''mal-''" by simp
  have miss: "\<not> lru_has (cache server_init) t k" for t k
    by (simp add: server_init_def cache_init_def lru_new_def lru_has_def lru_find_def)
  have r: "net env_throwing (jikan_url (''/anime/'' @ drop 4 ''mal-21''))
             = Response True 200 (Inr jikan_body)"
    by (simp add: env_throwing_def)
  have n: "\<not> nullish jikan_body" by (simp add: jikan_body_def)
  have e: "nullish (field (js_or (field jikan_body ''data'') (JObj [])) ''episodes'')"
    by (simp add: jikan_body_def js_or_def)
  have d: "fst (jikan env_down (''/anime/'' @ drop 4 ''mal-21'') server_init)
             = Inl (Exn ''Error'' ''Jikan 503'')"
    by (simp add: jikan_def env_down_def server_init_def cache_init_def lru_new_def lru_has_def
        lru_find_def Let_def show_nat.simps digit_char_def)
  note w = details_fallback_route [of "''mal-21''" env_throwing server_init 200 jikan_body
      "Exn ''Error'' ''Jikan 503''", rule_format, OF m]
  note x = details_fallback_route [of "''mal-21''" env_down server_init 200 jikan_body
      "Exn ''Error'' ''Jikan 503''", rule_format, OF m]
  have k1: "calls (snd (anime env_throwing ''mal-21'' server_init))
             = calls server_init @ [Fetch (jikan_url (''/anime/'' @ drop 4 ''mal-21''))]"
    using w [THEN c2, THEN conjunct1] miss by blast
  have j: "fst (jikan env_throwing (''/anime/'' @ drop 4 ''mal-21'') server_init) = Inr jikan_body"
    using w [THEN c2, THEN c2, THEN conjunct1] miss r by blast
  have k2: "status (fst (anime env_throwing ''mal-21'' server_init)) = 200
      \<and> field (body (fst (anime env_throwing ''mal-21'' server_init))) ''episodes''
          = (if nullish (field (js_or (field jikan_body ''data'') (JObj [])) ''episodes'')
             then JNum ''0''
             else field (js_or (field jikan_body ''data'') (JObj [])) ''episodes'')
      \<and> (nullish (field (js_or (field jikan_body ''data'') (JObj [])) ''episodes'')
          \<or> nonneg_int (field (js_or (field jikan_body ''data'') (JObj [])) ''episodes'') \<longrightarrow>
          nonneg_int (field (body (fst (anime env_throwing ''mal-21'' server_init))) ''episodes''))"
    using w [THEN c2, THEN c2, THEN c2, THEN c2, THEN c2] j n by blast
  have k3: "fst (anime env_down ''mal-21'' server_init)
       = \<lparr>status = 500, body = JObj [(''error'', JStr ''anime_failed'')]\<rparr>"
    using x [THEN c2, THEN c2, THEN c2, THEN conjunct1] d by blast
  show ?thesis
    using k1 k2 k3 e by (simp add: jikan_url_def server_init_def nonneg_int_def is_digit_def)
qed

section \<open>The remote fallback adapter\<close>

lemma fb_loop_first:
  "fb_loop E bases path s =
     (case find (\<lambda>b. usable (lnet E (b @ path)) \<noteq> None) bases of
        None \<Rightarrow> (JNull, s\<lparr>lcalls := lcalls s @ map (\<lambda>b. Fetch (b @ path)) bases\<rparr>)
      | Some b \<Rightarrow>
          (case usable (lnet E (b @ path)) of Some j \<Rightarrow> j | None \<Rightarrow> JNull,
           s\<lparr>lcalls := lcalls s @ map (\<lambda>b. Fetch (b @ path))
                  (takeWhile (\<lambda>b. usable (lnet E (b @ path)) = None) bases @ [b])\<rparr>))"
proof (induction bases arbitrary: s)
  case Nil
  show ?case by simp
next
  case (Cons b bs)
  show ?case
  proof (cases "usable (lnet E (b @ path))")
    case None
    then have "fb_loop E (b # bs) path s
                 = fb_loop E bs path (s\<lparr>lcalls := lcalls s @ [Fetch (b @ path)]\<rparr>)"
      by (auto simp: usable_def Let_def split: http_result.splits sum.splits bool.splits if_splits)
    then show ?thesis using None
      by (simp add: Cons.IH split: option.splits)
  next
    case (Some j)
    then have "fb_loop E (b # bs) path s = (j, s\<lparr>lcalls := lcalls s @ [Fetch (b @ path)]\<rparr>)"
      by (auto simp: usable_def Let_def split: http_result.splits sum.splits bool.splits if_splits)
    then show ?thesis using Some by simp
  qed
qed

lemma tolerant_find:
  "tolerant d = (case find truthy [optp d ''data'', optp d ''results'', d] of
                   Some v \<Rightarrow> v | None \<Rightarrow> JArr [])"
  unfolding tolerant_def by (rule or_chain_find)

lemma l_recent_fallback:
  assumes "fst (tryLoadLibs E t) = None"
  shows "body (fst (l_recent E t)) = tolerant (fst (fb E ''/recent'' (snd (tryLoadLibs E t))))"
proof -
  obtain t1 where l: "tryLoadLibs E t = (None, t1)"
    using assms by (cases "tryLoadLibs E t") simp
  obtain d t3 where f: "fb E ''/recent'' t1 = (d, t3)" by (cases "fb E ''/recent'' t1")
  show ?thesis using l f by (simp add: l_recent_def route_def native_try_def)
qed

text \<open>
  C9, amended. The fallback adapter asks its configured bases (one, in this configuration) in
  order, one request each, and stops at the first whose response is OK and whose body parses
  as JSON; the result is that body, or \<^verbatim>\<open>null\<close> when no base qualifies. The body is parsed
  tolerantly by taking the first truthy of its \<^verbatim>\<open>data\<close> field, its \<^verbatim>\<open>results\<close> field and the
  body itself, else the empty array; this is what \<^verbatim>\<open>/recent\<close> sends when there is no library.
\<close>

theorem fallback_bases_and_parse:
  "fb E path s = fb_loop E [''https://jaybeeanime.vercel.app''] path s
   \<and> fst (fb_loop E bases path s) =
       (case find (\<lambda>b. usable (lnet E (b @ path)) \<noteq> None) bases of
          None \<Rightarrow> JNull
        | Some b \<Rightarrow> (case usable (lnet E (b @ path)) of Some j \<Rightarrow> j | None \<Rightarrow> JNull))
   \<and> lcalls (snd (fb_loop E bases path s)) =
       lcalls s @ map (\<lambda>b. Fetch (b @ path))
         (takeWhile (\<lambda>b. usable (lnet E (b @ path)) = None) bases
          @ (case find (\<lambda>b. usable (lnet E (b @ path)) \<noteq> None) bases of
               None \<Rightarrow> [] | Some b \<Rightarrow> [b]))
   \<and> tolerant d = (case find truthy [optp d ''data'', optp d ''results'', d] of
                     Some v \<Rightarrow> v | None \<Rightarrow> JArr [])
   \<and> (fst (tryLoadLibs E t) = None \<longrightarrow>
        body (fst (l_recent E t)) = tolerant (fst (fb E ''/recent'' (snd (tryLoadLibs E t)))))"
proof -
  have a: "fb E path s = fb_loop E [''https://jaybeeanime.vercel.app''] path s"
    by (simp add: fb_def FALLBACK_BASES_def)
  have b: "fst (fb_loop E bases path s) =
       (case find (\<lambda>b. usable (lnet E (b @ path)) \<noteq> None) bases of
          None \<Rightarrow> JNull
        | Some b \<Rightarrow> (case usable (lnet E (b @ path)) of Some j \<Rightarrow> j | None \<Rightarrow> JNull))"
    "lcalls (snd (fb_loop E bases path s)) =
       lcalls s @ map (\<lambda>b. Fetch (b @ path))
         (takeWhile (\<lambda>b. usable (lnet E (b @ path)) = None) bases
          @ (case find (\<lambda>b. usable (lnet E (b @ path)) \<noteq> None) bases of
               None \<Rightarrow> [] | Some b \<Rightarrow> [b]))"
  proof -
    show "fst (fb_loop E bases path s) =
       (case find (\<lambda>b. usable (lnet E (b @ path)) \<noteq> None) bases of
          None \<Rightarrow> JNull
        | Some b \<Rightarrow> (case usable (lnet E (b @ path)) of Some j \<Rightarrow> j | None \<Rightarrow> JNull))"
      unfolding fb_loop_first by (simp split: option.splits)
    show "lcalls (snd (fb_loop E bases path s)) =
       lcalls s @ map (\<lambda>b. Fetch (b @ path))
         (takeWhile (\<lambda>b. usable (lnet E (b @ path)) = None) bases
          @ (case find (\<lambda>b. usable (lnet E (b @ path)) \<noteq> None) bases of
               None \<Rightarrow> [] | Some b \<Rightarrow> [b]))"
    proof (cases "find (\<lambda>b. usable (lnet E (b @ path)) \<noteq> None) bases")
      case None
      then have "\<forall>x\<in>set bases. usable (lnet E (x @ path)) = None"
        by (auto simp: find_None_iff)
      then have tw: "takeWhile (\<lambda>b. usable (lnet E (b @ path)) = None) bases = bases"
        by (simp add: takeWhile_eq_all_conv)
      show ?thesis unfolding fb_loop_first None tw by simp
    next
      case (Some b)
      show ?thesis unfolding fb_loop_first Some by simp
    qed
  qed
  from a b tolerant_find [of d] l_recent_fallback [of E t] show ?thesis by blast
qed

text \<open>
  C9, as the claim states it, fails twice. The parse tests its candidates with \<^verbatim>\<open>||\<close>, so a
  \<^verbatim>\<open>data\<close> field that is present and not null but falsy (here \<^verbatim>\<open>0\<close>) loses to \<^verbatim>\<open>results\<close>. And
  a base that answers with a successful status and a body that is not JSON is not used: the
  adapter reports empty.
\<close>

theorem fallback_parse_counterexample:
  "\<not> nullish (field (JObj [(''data'', JNum ''0''), (''results'', JArr [JStr ''x''])]) ''data'')
   \<and> tolerant (JObj [(''data'', JNum ''0''), (''results'', JArr [JStr ''x''])]) = JArr [JStr ''x'']
   \<and> lnet lenv_garbled (''https://jaybeeanime.vercel.app'' @ ''/recent'')
       = Response True 200 (Inl (Exn ''SyntaxError'' ''Unexpected token <''))
   \<and> fst (fb lenv_garbled ''/recent'' loader_init) = JNull"
  by (simp add: tolerant_def optp_def fb_def FALLBACK_BASES_def lenv_garbled_def Let_def)

theorem fallback_bases_and_parse_witness:
  "fst (fb_loop lenv_second [''https://a.example'', ''https://b.example'', ''https://c.example'']
          ''/recent'' loader_init)
     = JObj [(''results'', JArr [JStr ''x''])]
   \<and> lcalls (snd (fb_loop lenv_second
                    [''https://a.example'', ''https://b.example'', ''https://c.example'']
                    ''/recent'' loader_init))
     = [Fetch ''https://a.example/recent'', Fetch ''https://b.example/recent'']
   \<and> tolerant (JObj [(''results'', JArr [JStr ''x''])]) = JArr [JStr ''x'']
   \<and> tolerant JNull = JArr []
   \<and> body (fst (l_recent lenv_second loader_init)) = JArr [JStr ''x'']"
proof -
  have l: "fst (tryLoadLibs lenv_second loader_init) = None"
    by (simp add: tryLoadLibs_def loader_init_def candidates_def lenv_second_def Let_def)
  have f: "fst (fb lenv_second ''/recent'' (snd (tryLoadLibs lenv_second loader_init)))
             = JObj [(''results'', JArr [JStr ''x''])]"
    by (simp add: fb_def FALLBACK_BASES_def lenv_second_def Let_def)
  note w = fallback_bases_and_parse [of lenv_second "''/recent''" loader_init
      "[''https://a.example'', ''https://b.example'', ''https://c.example'']" _ loader_init]
  show ?thesis
    using w [of "JObj [(''results'', JArr [JStr ''x''])]"] w [of JNull] l f
    by (simp add: usable_def lenv_second_def loader_init_def optp_def)
qed

end
